(* ===== verification/Prelude.thy ===== *)
theory Prelude
  imports Main "HOL-Library.State_Monad" "HOL-Library.Sublist"
    "HOL-Library.Char_ord" "HOL-Library.List_Lexorder" "HOL-Library.Multiset"
begin

text \<open>
  Shared vocabulary of the development: effects as the library's state monad,
  the early return of a Go function body as a datatype, event logs and the
  generic rules about them, and facts on lists and maps that several
  components use.
\<close>

section \<open>Collections of facts\<close>

named_theorems go_simps \<open>unfolding rules for the standard library operations the code uses\<close>
named_theorems io_rules \<open>compositional rules for effects that relate the world before and after\<close>

section \<open>Effects\<close>

text \<open>
  An operation with effects is a function of the world it runs in. The world
  is a type variable throughout: nothing but what an operation's port returns
  is known about it.
\<close>

type_synonym ('w, 'a) io = "('w, 'a) state"

abbreviation ret :: "'a \<Rightarrow> ('w, 'a) io" where
  "ret \<equiv> State_Monad.return"

text \<open>
  A loop body of a Go function either returns from the whole function or falls
  through to the statement after the loop.
\<close>

datatype ('r, 'a) flow = Return 'r | Next 'a

text \<open>
  The two shapes of \<open>if err != nil { return ... }\<close>: after a call that returns a value
  or an error, and after a call that returns only an error. The first argument is
  the way the error is wrapped on the way out.
\<close>

definition attempt :: "('e \<Rightarrow> 'f) \<Rightarrow> ('w, 'e + 'a) io \<Rightarrow> ('a \<Rightarrow> ('w, 'f + 'b) io) \<Rightarrow> ('w, 'f + 'b) io" where
  "attempt wrap m f =
     State_Monad.bind m (\<lambda>r. case r of Inl e \<Rightarrow> ret (Inl (wrap e)) | Inr x \<Rightarrow> f x)"

definition ensure :: "('e \<Rightarrow> 'f) \<Rightarrow> ('w, 'e option) io \<Rightarrow> ('w, 'f + 'b) io \<Rightarrow> ('w, 'f + 'b) io" where
  "ensure wrap m k =
     State_Monad.bind m (\<lambda>r. case r of Some e \<Rightarrow> ret (Inl (wrap e)) | None \<Rightarrow> k)"

text \<open>
  A part of a function body that may return from the whole function: the body goes
  on with \<open>proceed\<close>, an enclosing part with \<open>chain\<close>.
\<close>

definition proceed :: "('w, ('r, 'a) flow) io \<Rightarrow> ('a \<Rightarrow> ('w, 'r) io) \<Rightarrow> ('w, 'r) io" where
  "proceed m k = State_Monad.bind m (\<lambda>f. case f of Return r \<Rightarrow> ret r | Next x \<Rightarrow> k x)"

definition chain :: "('w, ('r, 'a) flow) io \<Rightarrow> ('a \<Rightarrow> ('w, ('r, 'b) flow) io) \<Rightarrow> ('w, ('r, 'b) flow) io" where
  "chain m k = State_Monad.bind m (\<lambda>f. case f of Return r \<Rightarrow> ret (Return r) | Next x \<Rightarrow> k x)"

lemma attempt_ret [simp]:
  "attempt wrap (ret r) f = (case r of Inl e \<Rightarrow> ret (Inl (wrap e)) | Inr x \<Rightarrow> f x)"
  by (simp add: attempt_def)

lemma ensure_ret [simp]:
  "ensure wrap (ret r) k = (case r of Some e \<Rightarrow> ret (Inl (wrap e)) | None \<Rightarrow> k)"
  by (simp add: ensure_def)

section \<open>Event logs\<close>

text \<open>
  \<open>tap f m\<close> runs \<open>m\<close> and appends the event \<open>f a\<close> to a log kept beside the world, where
  \<open>a\<close> is what \<open>m\<close> answered. The log is an observer: it changes neither results nor
  the world.
\<close>

definition tap :: "('a \<Rightarrow> 'e) \<Rightarrow> ('w, 'a) io \<Rightarrow> ('w \<times> 'e list, 'a) io" where
  "tap f m = State (\<lambda>(w, tr). case run_state m w of (a, w') \<Rightarrow> (a, (w', tr @ [f a])))"

definition untap :: "('w, 'a) io \<Rightarrow> ('w \<times> 'e list, 'a) io" where
  "untap m = State (\<lambda>(w, tr). case run_state m w of (a, w') \<Rightarrow> (a, (w', tr)))"

lemma run_tap [simp]:
  "run_state (tap f m) (w, tr) = (case run_state m w of (a, w') \<Rightarrow> (a, (w', tr @ [f a])))"
  by (simp add: tap_def)

lemma run_untap [simp]:
  "run_state (untap m) (w, tr) = (case run_state m w of (a, w') \<Rightarrow> (a, (w', tr)))"
  by (simp add: untap_def)

text \<open>
  \<open>emits P m\<close>: in every world, \<open>m\<close> appends to the log a list of events that stands in
  the relation \<open>P\<close> to its result. The rules below execute an operation
  symbolically, one port call at a time.
\<close>

definition emits :: "('a \<Rightarrow> 'e list \<Rightarrow> bool) \<Rightarrow> ('w \<times> 'e list, 'a) io \<Rightarrow> bool" where
  "emits P m \<longleftrightarrow> (\<forall>w tr a w' tr'. run_state m (w, tr) = (a, (w', tr')) \<longrightarrow>
     (\<exists>es. tr' = tr @ es \<and> P a es))"

named_theorems emits_rules \<open>symbolic execution of effects\<close>

lemma emitsI:
  "(\<And>w tr a w' tr'. run_state m (w, tr) = (a, (w', tr')) \<Longrightarrow> \<exists>es. tr' = tr @ es \<and> P a es) \<Longrightarrow> emits P m"
  by (simp add: emits_def)

lemma emits_run:
  assumes "emits P m" and "run_state m (w, tr) = (a, (w', tr'))"
  obtains es where "tr' = tr @ es" and "P a es"
  using assms unfolding emits_def by blast

lemma emits_ret: "P x [] \<Longrightarrow> emits P (ret x)"
  by (auto simp: emits_def)

lemma emits_tap: "(\<And>a. P a [f a]) \<Longrightarrow> emits P (tap f m)"
  by (auto simp: emits_def split: prod.splits)

lemma emits_untap: "(\<And>a. P a []) \<Longrightarrow> emits P (untap m)"
  by (auto simp: emits_def split: prod.splits)

lemma emits_bind:
  assumes m: "emits Q m" and f: "\<And>a es. Q a es \<Longrightarrow> emits (\<lambda>b fs. P b (es @ fs)) (f a)"
  shows "emits P (State_Monad.bind m f)"
proof (rule emitsI)
  fix w tr b w' tr'
  assume run: "run_state (State_Monad.bind m f) (w, tr) = (b, (w', tr'))"
  obtain a w1 tr1 where m1: "run_state m (w, tr) = (a, (w1, tr1))" by (metis prod.exhaust)
  with run have f1: "run_state (f a) (w1, tr1) = (b, (w', tr'))" by simp
  obtain es where es: "tr1 = tr @ es" "Q a es" using m m1 by (rule emits_run)
  obtain fs where "tr' = tr1 @ fs" "P b (es @ fs)" using f [OF es(2)] f1 by (rule emits_run)
  with es show "\<exists>es. tr' = tr @ es \<and> P b es" by auto
qed

lemma emits_conseq: "emits P m \<Longrightarrow> (\<And>a es. P a es \<Longrightarrow> Q a es) \<Longrightarrow> emits Q m"
  unfolding emits_def by blast

lemma emits_conj: "emits P m \<Longrightarrow> emits Q m \<Longrightarrow> emits (\<lambda>a es. P a es \<and> Q a es) m"
  unfolding emits_def by (metis same_append_eq)

lemma emits_bind_tap [emits_rules]:
  "(\<And>a. emits (\<lambda>b fs. P b (f a # fs)) (g a)) \<Longrightarrow> emits P (State_Monad.bind (tap f m) g)"
  by (rule emits_bind [where Q = "\<lambda>a es. es = [f a]"]) (auto intro: emits_tap)

lemma emits_bind_untap [emits_rules]:
  "(\<And>a. emits P (g a)) \<Longrightarrow> emits P (State_Monad.bind (untap m) g)"
  by (rule emits_bind [where Q = "\<lambda>a es. es = []"]) (auto intro: emits_untap)

lemma emits_if [emits_rules]:
  "(b \<Longrightarrow> emits P m) \<Longrightarrow> (\<not> b \<Longrightarrow> emits P n) \<Longrightarrow> emits P (if b then m else n)"
  by simp

lemma emits_case_sum [emits_rules]:
  "(\<And>x. s = Inl x \<Longrightarrow> emits P (f x)) \<Longrightarrow> (\<And>y. s = Inr y \<Longrightarrow> emits P (g y)) \<Longrightarrow>
    emits P (case s of Inl x \<Rightarrow> f x | Inr y \<Rightarrow> g y)"
  by (cases s) auto

lemma emits_case_option [emits_rules]:
  "(s = None \<Longrightarrow> emits P m) \<Longrightarrow> (\<And>y. s = Some y \<Longrightarrow> emits P (g y)) \<Longrightarrow>
    emits P (case s of None \<Rightarrow> m | Some y \<Rightarrow> g y)"
  by (cases s) auto

lemma emits_case_flow [emits_rules]:
  "(\<And>x. s = Return x \<Longrightarrow> emits P (f x)) \<Longrightarrow> (\<And>y. s = Next y \<Longrightarrow> emits P (g y)) \<Longrightarrow>
    emits P (case s of Return x \<Rightarrow> f x | Next y \<Rightarrow> g y)"
  by (cases s) auto

lemma emits_case_prod [emits_rules]:
  "(\<And>x y. p = (x, y) \<Longrightarrow> emits P (f x y)) \<Longrightarrow> emits P (case p of (x, y) \<Rightarrow> f x y)"
  by (cases p) auto

lemma emits_Let [emits_rules]: "emits P (f v) \<Longrightarrow> emits P (Let v f)"
  by simp

lemma emits_attempt:
  assumes "emits Q m" and "\<And>e es. Q (Inl e) es \<Longrightarrow> P (Inl (wrap e)) es"
    and "\<And>x es. Q (Inr x) es \<Longrightarrow> emits (\<lambda>b fs. P b (es @ fs)) (f x)"
  shows "emits P (attempt wrap m f)"
  unfolding attempt_def using assms
  by (intro emits_bind [where Q = Q]) (auto intro!: emits_ret split: sum.splits)

lemma emits_ensure:
  assumes "emits Q m" and "\<And>e es. Q (Some e) es \<Longrightarrow> P (Inl (wrap e)) es"
    and "\<And>es. Q None es \<Longrightarrow> emits (\<lambda>b fs. P b (es @ fs)) k"
  shows "emits P (ensure wrap m k)"
  unfolding ensure_def using assms
  by (intro emits_bind [where Q = Q]) (auto intro!: emits_ret split: option.splits)

lemma emits_attempt_tap [emits_rules]:
  "(\<And>e. P (Inl (wrap e)) [f (Inl e)]) \<Longrightarrow> (\<And>x. emits (\<lambda>b fs. P b (f (Inr x) # fs)) (g x)) \<Longrightarrow>
    emits P (attempt wrap (tap f m) g)"
  by (rule emits_attempt [where Q = "\<lambda>a es. es = [f a]"]) (auto intro: emits_tap)

lemma emits_attempt_untap [emits_rules]:
  "(\<And>e. P (Inl (wrap e)) []) \<Longrightarrow> (\<And>x. emits P (g x)) \<Longrightarrow> emits P (attempt wrap (untap m) g)"
  by (rule emits_attempt [where Q = "\<lambda>a es. es = []"]) (auto intro: emits_untap)

lemma emits_ensure_tap [emits_rules]:
  "(\<And>e. P (Inl (wrap e)) [f (Some e)]) \<Longrightarrow> emits (\<lambda>b fs. P b (f None # fs)) k \<Longrightarrow>
    emits P (ensure wrap (tap f m) k)"
  by (rule emits_ensure [where Q = "\<lambda>a es. es = [f a]"]) (auto intro: emits_tap)

lemma emits_ensure_untap [emits_rules]:
  "(\<And>e. P (Inl (wrap e)) []) \<Longrightarrow> emits P k \<Longrightarrow> emits P (ensure wrap (untap m) k)"
  by (rule emits_ensure [where Q = "\<lambda>a es. es = []"]) (auto intro: emits_untap)

lemma emits_attempt_ret [emits_rules]:
  "(\<And>e. r = Inl e \<Longrightarrow> P (Inl (wrap e)) []) \<Longrightarrow> (\<And>x. r = Inr x \<Longrightarrow> emits P (f x)) \<Longrightarrow>
    emits P (attempt wrap (ret r) f)"
  by (auto intro: emits_ret split: sum.splits)

lemma emits_ensure_ret [emits_rules]:
  "(\<And>e. r = Some e \<Longrightarrow> P (Inl (wrap e)) []) \<Longrightarrow> (r = None \<Longrightarrow> emits P k) \<Longrightarrow>
    emits P (ensure wrap (ret r) k)"
  by (auto intro: emits_ret split: option.splits)

lemma emits_bind_ret [emits_rules]: "emits P (f x) \<Longrightarrow> emits P (State_Monad.bind (ret x) f)"
  by simp

lemma emits_proceed:
  assumes "emits Q m" and "\<And>r es. Q (Return r) es \<Longrightarrow> P r es"
    and "\<And>x es. Q (Next x) es \<Longrightarrow> emits (\<lambda>b fs. P b (es @ fs)) (k x)"
  shows "emits P (proceed m k)"
  unfolding proceed_def using assms
  by (intro emits_bind [where Q = Q]) (auto intro!: emits_ret split: flow.splits)

lemma emits_chain:
  assumes "emits Q m" and "\<And>r es. Q (Return r) es \<Longrightarrow> P (Return r) es"
    and "\<And>x es. Q (Next x) es \<Longrightarrow> emits (\<lambda>b fs. P b (es @ fs)) (k x)"
  shows "emits P (chain m k)"
  unfolding chain_def using assms
  by (intro emits_bind [where Q = Q]) (auto intro!: emits_ret split: flow.splits)

text \<open>A branch or a sequence in front of a continuation.\<close>

lemma emits_bind_if [emits_rules]:
  "(b \<Longrightarrow> emits P (State_Monad.bind m f)) \<Longrightarrow> (\<not> b \<Longrightarrow> emits P (State_Monad.bind n f)) \<Longrightarrow>
    emits P (State_Monad.bind (if b then m else n) f)"
  by simp

lemma emits_bind_case_sum [emits_rules]:
  "(\<And>x. s = Inl x \<Longrightarrow> emits P (State_Monad.bind (g x) f)) \<Longrightarrow>
    (\<And>y. s = Inr y \<Longrightarrow> emits P (State_Monad.bind (h y) f)) \<Longrightarrow>
    emits P (State_Monad.bind (case s of Inl x \<Rightarrow> g x | Inr y \<Rightarrow> h y) f)"
  by (cases s) auto

lemma emits_bind_case_option [emits_rules]:
  "(s = None \<Longrightarrow> emits P (State_Monad.bind m f)) \<Longrightarrow>
    (\<And>y. s = Some y \<Longrightarrow> emits P (State_Monad.bind (h y) f)) \<Longrightarrow>
    emits P (State_Monad.bind (case s of None \<Rightarrow> m | Some y \<Rightarrow> h y) f)"
  by (cases s) auto

lemma emits_bind_bind [emits_rules]:
  "emits P (State_Monad.bind m (\<lambda>x. State_Monad.bind (f x) g)) \<Longrightarrow>
    emits P (State_Monad.bind (State_Monad.bind m f) g)"
  by simp

lemma emits_attempt_if [emits_rules]:
  "(b \<Longrightarrow> emits P (attempt w m f)) \<Longrightarrow> (\<not> b \<Longrightarrow> emits P (attempt w n f)) \<Longrightarrow>
    emits P (attempt w (if b then m else n) f)"
  by simp

text \<open>
  \<open>logs A m\<close>: every event that \<open>m\<close> appends satisfies \<open>A\<close>. These rules need no
  invariant for a loop.
\<close>

definition logs :: "('e \<Rightarrow> bool) \<Rightarrow> ('w \<times> 'e list, 'a) io \<Rightarrow> bool" where
  "logs A m \<longleftrightarrow> emits (\<lambda>_ es. list_all A es) m"

lemma logs_emits: "logs A m \<Longrightarrow> emits (\<lambda>_ es. \<forall>e \<in> set es. A e) m"
  by (simp add: logs_def list_all_iff)

lemma logs_ret [io_rules]: "logs A (ret x)"
  unfolding logs_def by (rule emits_ret) simp

lemma logs_bind [io_rules]:
  "logs A m \<Longrightarrow> (\<And>a. logs A (f a)) \<Longrightarrow> logs A (State_Monad.bind m f)"
  unfolding logs_def
  by (rule emits_bind [where Q = "\<lambda>_. list_all A"]) (auto elim!: emits_conseq)

lemma logs_tap [io_rules]: "(\<And>a. A (f a)) \<Longrightarrow> logs A (tap f m)"
  unfolding logs_def by (rule emits_tap) simp

lemma logs_untap [io_rules]: "logs A (untap m)"
  unfolding logs_def by (rule emits_untap) simp

lemma logs_mono: "logs A m \<Longrightarrow> (\<And>e. A e \<Longrightarrow> B e) \<Longrightarrow> logs B m"
  unfolding logs_def by (erule emits_conseq) (auto simp: list_all_iff)

lemma logs_if [io_rules]:
  "(b \<Longrightarrow> logs A m) \<Longrightarrow> (\<not> b \<Longrightarrow> logs A n) \<Longrightarrow> logs A (if b then m else n)"
  by simp

lemma logs_case_sum [io_rules]:
  "(\<And>x. logs A (f x)) \<Longrightarrow> (\<And>y. logs A (g y)) \<Longrightarrow> logs A (case s of Inl x \<Rightarrow> f x | Inr y \<Rightarrow> g y)"
  by (cases s) auto

lemma logs_case_option [io_rules]:
  "logs A m \<Longrightarrow> (\<And>y. logs A (g y)) \<Longrightarrow> logs A (case s of None \<Rightarrow> m | Some y \<Rightarrow> g y)"
  by (cases s) auto

lemma logs_case_flow [io_rules]:
  "(\<And>x. logs A (f x)) \<Longrightarrow> (\<And>y. logs A (g y)) \<Longrightarrow> logs A (case s of Return x \<Rightarrow> f x | Next y \<Rightarrow> g y)"
  by (cases s) auto

lemma logs_case_prod [io_rules]:
  "(\<And>x y. logs A (f x y)) \<Longrightarrow> logs A (case p of (x, y) \<Rightarrow> f x y)"
  by (cases p) auto

lemma logs_Let [io_rules]: "(\<And>x. logs A (f x)) \<Longrightarrow> logs A (Let v f)"
  by simp

lemma logs_attempt [io_rules]:
  "logs A m \<Longrightarrow> (\<And>x. logs A (f x)) \<Longrightarrow> logs A (attempt wrap m f)"
  unfolding attempt_def by (intro io_rules)

lemma logs_ensure [io_rules]: "logs A m \<Longrightarrow> logs A k \<Longrightarrow> logs A (ensure wrap m k)"
  unfolding ensure_def by (intro io_rules)

lemma logs_proceed [io_rules]: "logs A m \<Longrightarrow> (\<And>x. logs A (k x)) \<Longrightarrow> logs A (proceed m k)"
  unfolding proceed_def by (intro io_rules)

lemma logs_chain [io_rules]: "logs A m \<Longrightarrow> (\<And>x. logs A (k x)) \<Longrightarrow> logs A (chain m k)"
  unfolding chain_def by (intro io_rules)

text \<open>
  \<open>mirrors m n\<close>: \<open>m\<close> answers and changes the world as \<open>n\<close> does, and only adds to the log.
  It makes what \<open>emits\<close> says about a logged operation a fact about the operation.
\<close>

definition mirrors :: "('w \<times> 'e list, 'a) io \<Rightarrow> ('w, 'a) io \<Rightarrow> bool" where
  "mirrors m n \<longleftrightarrow> (\<forall>w tr. \<exists>es. run_state m (w, tr) = (case run_state n w of (a, w') \<Rightarrow> (a, (w', tr @ es))))"

named_theorems mirror_rules \<open>an operation on logged ports mirrors the operation\<close>

lemma mirrorsE:
  assumes "mirrors m n" and "run_state n w = (a, w')"
  obtains es where "run_state m (w, tr) = (a, (w', tr @ es))"
  using assms unfolding mirrors_def by (metis case_prod_conv)

lemma mirrors_ret [mirror_rules]: "mirrors (ret x) (ret x)"
  by (simp add: mirrors_def State_Monad.return_def)

lemma mirrors_tap [mirror_rules]: "mirrors (tap f m) m"
  by (simp add: mirrors_def split: prod.splits)

lemma mirrors_untap [mirror_rules]: "mirrors (untap m) m"
  by (simp add: mirrors_def split: prod.splits)

lemma mirrors_bind [mirror_rules]:
  assumes m: "mirrors m n" and f: "\<And>a. mirrors (f a) (g a)"
  shows "mirrors (State_Monad.bind m f) (State_Monad.bind n g)"
  unfolding mirrors_def
proof (intro allI)
  fix w tr
  obtain a w1 where n: "run_state n w = (a, w1)" by fastforce
  obtain b w2 where g: "run_state (g a) w1 = (b, w2)" by fastforce
  obtain es where es: "run_state m (w, tr) = (a, (w1, tr @ es))" using m n by (rule mirrorsE)
  obtain fs where "run_state (f a) (w1, tr @ es) = (b, (w2, (tr @ es) @ fs))" using f g by (rule mirrorsE)
  with n g es show "\<exists>es. run_state (State_Monad.bind m f) (w, tr) =
      (case run_state (State_Monad.bind n g) w of (a, w') \<Rightarrow> (a, (w', tr @ es)))"
    by (intro exI [of _ "es @ fs"]) simp
qed

lemma mirrors_if [mirror_rules]:
  "mirrors m m' \<Longrightarrow> mirrors n n' \<Longrightarrow> mirrors (if b then m else n) (if b then m' else n')"
  by simp

lemma mirrors_case_sum [mirror_rules]:
  "(\<And>x. mirrors (f x) (f' x)) \<Longrightarrow> (\<And>y. mirrors (g y) (g' y)) \<Longrightarrow>
    mirrors (case s of Inl x \<Rightarrow> f x | Inr y \<Rightarrow> g y) (case s of Inl x \<Rightarrow> f' x | Inr y \<Rightarrow> g' y)"
  by (cases s) auto

lemma mirrors_case_option [mirror_rules]:
  "mirrors m m' \<Longrightarrow> (\<And>y. mirrors (g y) (g' y)) \<Longrightarrow>
    mirrors (case s of None \<Rightarrow> m | Some y \<Rightarrow> g y) (case s of None \<Rightarrow> m' | Some y \<Rightarrow> g' y)"
  by (cases s) auto

lemma mirrors_case_prod [mirror_rules]:
  "(\<And>x y. mirrors (f x y) (f' x y)) \<Longrightarrow> mirrors (case p of (x, y) \<Rightarrow> f x y) (case p of (x, y) \<Rightarrow> f' x y)"
  by (cases p) auto

lemma mirrors_case_flow [mirror_rules]:
  "(\<And>x. mirrors (f x) (f' x)) \<Longrightarrow> (\<And>y. mirrors (g y) (g' y)) \<Longrightarrow>
    mirrors (case s of Return x \<Rightarrow> f x | Next y \<Rightarrow> g y) (case s of Return x \<Rightarrow> f' x | Next y \<Rightarrow> g' y)"
  by (cases s) auto

lemma mirrors_Let [mirror_rules]: "(\<And>x. mirrors (f x) (f' x)) \<Longrightarrow> mirrors (Let v f) (Let v f')"
  by simp

lemma mirrors_attempt [mirror_rules]:
  "mirrors m n \<Longrightarrow> (\<And>x. mirrors (f x) (g x)) \<Longrightarrow> mirrors (attempt wrap m f) (attempt wrap n g)"
  unfolding attempt_def by (intro mirror_rules)

lemma mirrors_ensure [mirror_rules]:
  "mirrors m n \<Longrightarrow> mirrors k k' \<Longrightarrow> mirrors (ensure wrap m k) (ensure wrap n k')"
  unfolding ensure_def by (intro mirror_rules)

lemma mirrors_proceed [mirror_rules]:
  "mirrors m n \<Longrightarrow> (\<And>x. mirrors (f x) (g x)) \<Longrightarrow> mirrors (proceed m f) (proceed n g)"
  unfolding proceed_def by (intro mirror_rules)

lemma mirrors_chain [mirror_rules]:
  "mirrors m n \<Longrightarrow> (\<And>x. mirrors (f x) (g x)) \<Longrightarrow> mirrors (chain m f) (chain n g)"
  unfolding chain_def by (intro mirror_rules)

text \<open>A run of an operation, its log, and what \<open>emits\<close> says about it.\<close>

lemma emits_mirrors:
  assumes "emits P m" and "mirrors m n" and "run_state n w = (a, w')"
  obtains es where "run_state m (w, []) = (a, (w', es))" and "P a es"
proof -
  obtain es where run: "run_state m (w, []) = (a, (w', es))"
    using assms(2,3) by (rule mirrorsE [where tr = "[]"]) simp
  with assms(1) show thesis using that by (auto elim!: emits_run)
qed

section \<open>Lists and maps\<close>

lemma sorted_key_unique:
  assumes "distinct (map f xs)" and "mset xs = mset ys"
    and "sorted (map f xs)" and "sorted (map f ys)"
  shows "xs = ys"
proof -
  have inj: "inj_on f (set xs)" using assms(1) by (simp add: distinct_map)
  have "sort_key f xs = ys" by (rule sort_key_inj_key_eq) (use assms inj in auto)
  moreover have "sort_key f xs = xs" using assms(3) by (rule sort_key_id_if_sorted)
  ultimately show ?thesis by simp
qed

end
