(* ===== verification/Encodings.thy ===== *)
theory Encodings
  imports GoStrings
begin

text \<open>
  \<open>encoding/hex\<close> and \<open>encoding/base64\<close> as the program uses them: hexadecimal in both
  directions, the unpadded URL alphabet and the padded standard alphabet for
  encoding. What the callers rely on is one contract.
\<close>

locale byte_codec =
  fixes enc :: "string \<Rightarrow> string"
    and dec :: "string \<Rightarrow> string option"
    and alpha :: "char \<Rightarrow> bool"
    and len :: "nat \<Rightarrow> nat"
  assumes dec_enc: "dec (enc bs) = Some bs"
    and enc_alpha: "list_all alpha (enc bs)"
    and enc_len: "length (enc bs) = len (length bs)"
    and len_mono: "m \<le> n \<Longrightarrow> len m \<le> len n"
    and alpha_plain: "alpha c \<Longrightarrow> \<not> is_space c \<and> c \<noteq> dquote \<and> c \<noteq> backslash"
begin

lemma enc_inj: "enc bs = enc cs \<longleftrightarrow> bs = cs"
  by (metis dec_enc option.inject)

lemma enc_no_space: "c \<in> set (enc bs) \<Longrightarrow> \<not> is_space c"
  using enc_alpha [of bs] alpha_plain by (auto simp: list_all_iff)

lemma enc_one_line: "newline \<notin> set (enc bs)"
  using enc_no_space [of newline bs] by (auto simp: is_space_def newline_def)

lemma enc_unquoted: "dquote \<notin> set (enc bs)" "backslash \<notin> set (enc bs)"
  using enc_alpha [of bs] alpha_plain by (auto simp: list_all_iff)

lemma trim_enc [simp]: "trim_space (enc bs) = enc bs"
  using enc_no_space by (intro trim_space_no_space) auto

lemma enc_bounded: "length bs \<le> n \<Longrightarrow> length (enc bs) \<le> len n"
  by (simp add: enc_len len_mono)

end

section \<open>Hexadecimal\<close>

definition byte_of :: "char \<Rightarrow> nat" where
  "byte_of c = of_char c"

lemma byte_of_less: "byte_of c < 256"
  using of_char_mod_256 [of c, where ?'a = nat]
  by (metis byte_of_def mod_less_divisor zero_less_numeral)

lemma byte_nibbles [simp]: "byte_of c div 16 < 16" "byte_of c mod 16 < 16"
  using byte_of_less [of c] by (simp_all add: less_mult_imp_div_less)

lemma char_of_byte_of [simp]: "char_of (byte_of c) = c"
  by (simp add: byte_of_def)

definition hex_encode :: "string \<Rightarrow> string" where
  "hex_encode bs = concat (map (\<lambda>c. [hex_digit (byte_of c div 16), hex_digit (byte_of c mod 16)]) bs)"

definition hex_val :: "char \<Rightarrow> nat option" where
  "hex_val c =
     (if is_digit c then Some (byte_of c - 48)
      else if CHR ''a'' \<le> c \<and> c \<le> CHR ''f'' then Some (byte_of c - 87)
      else if CHR ''A'' \<le> c \<and> c \<le> CHR ''F'' then Some (byte_of c - 55)
      else None)"

fun hex_decode :: "string \<Rightarrow> string option" where
  "hex_decode [] = Some []"
| "hex_decode [_] = None"
| "hex_decode (a # b # cs) =
     (case (hex_val a, hex_val b, hex_decode cs) of
        (Some x, Some y, Some bs) \<Rightarrow> Some (char_of (x * 16 + y) # bs)
      | _ \<Rightarrow> None)"

definition hex_alpha :: "char \<Rightarrow> bool" where
  "hex_alpha c \<longleftrightarrow> is_digit c \<or> (CHR ''a'' \<le> c \<and> c \<le> CHR ''f'')"

lemma hex_digit_alpha: "d < 16 \<Longrightarrow> hex_alpha (hex_digit d)"
  by (auto simp: hex_alpha_def hex_digit_def is_digit_of_char less_eq_char_def)

lemma hex_val_digit: "d < 16 \<Longrightarrow> hex_val (hex_digit d) = Some d"
  by (auto simp: hex_val_def hex_digit_def is_digit_of_char less_eq_char_def byte_of_def)

lemma hex_digit_byte:
  "hex_val (hex_digit (byte_of c div 16)) = Some (byte_of c div 16)"
  "hex_val (hex_digit (byte_of c mod 16)) = Some (byte_of c mod 16)"
  using byte_of_less [of c] by (auto intro!: hex_val_digit)

lemma hex_decode_encode: "hex_decode (hex_encode bs) = Some bs"
  by (induction bs) (simp_all add: hex_encode_def hex_digit_byte)

interpretation hexc: byte_codec hex_encode hex_decode hex_alpha "\<lambda>n. 2 * n"
proof unfold_locales
  show "hex_decode (hex_encode bs) = Some bs" for bs by (rule hex_decode_encode)
  show "list_all hex_alpha (hex_encode bs)" for bs
    by (induction bs) (simp_all add: hex_encode_def hex_digit_alpha)
  show "length (hex_encode bs) = 2 * length bs" for bs
    by (induction bs) (auto simp: hex_encode_def)
  show "\<not> is_space c \<and> c \<noteq> dquote \<and> c \<noteq> backslash" if "hex_alpha c" for c
    using that
    by (auto simp: hex_alpha_def is_digit_of_char less_eq_char_def is_space_def dquote_def backslash_def)
qed simp

section \<open>Base 64\<close>

fun sextets :: "nat list \<Rightarrow> nat list" where
  "sextets [] = []"
| "sextets [a] = [a div 4, (a mod 4) * 16]"
| "sextets [a, b] = [a div 4, (a mod 4) * 16 + b div 16, (b mod 16) * 4]"
| "sextets (a # b # c # xs) =
     a div 4 # ((a mod 4) * 16 + b div 16) # ((b mod 16) * 4 + c div 64) # (c mod 64) # sextets xs"

fun unsextets :: "nat list \<Rightarrow> nat list option" where
  "unsextets [] = Some []"
| "unsextets [_] = None"
| "unsextets [p, q] = Some [p * 4 + q div 16]"
| "unsextets [p, q, r] = Some [p * 4 + q div 16, (q mod 16) * 16 + r div 4]"
| "unsextets (p # q # r # s # xs) =
     map_option (\<lambda>bs. (p * 4 + q div 16) # ((q mod 16) * 16 + r div 4) # ((r mod 4) * 64 + s) # bs) (unsextets xs)"

definition url_char :: "nat \<Rightarrow> char" where
  "url_char d =
     (if d < 26 then char_of (65 + d) else if d < 52 then char_of (71 + d)
      else if d < 62 then char_of (d - 4) else if d = 62 then CHR ''-'' else CHR ''_'')"

definition std_char :: "nat \<Rightarrow> char" where
  "std_char d = (if d = 62 then CHR ''+'' else if d = 63 then CHR ''/'' else url_char d)"

definition url_val :: "char \<Rightarrow> nat" where
  "url_val c =
     (if is_upper c then byte_of c - 65 else if is_lower c then byte_of c - 71
      else if is_digit c then byte_of c + 4 else if c = CHR ''-'' then 62 else 63)"

text \<open>\<open>base64.RawURLEncoding\<close> and \<open>base64.StdEncoding\<close> (\<open>EncodeToString\<close>).\<close>

definition base64_url :: "string \<Rightarrow> string" where
  "base64_url bs = map url_char (sextets (map byte_of bs))"

definition base64_std :: "string \<Rightarrow> string" where
  "base64_std bs =
     map std_char (sextets (map byte_of bs)) @ replicate ((3 - length bs mod 3) mod 3) (CHR ''='')"

definition base64_url_decode :: "string \<Rightarrow> string option" where
  "base64_url_decode s = map_option (map char_of) (unsextets (map url_val s))"

definition url_alpha :: "char \<Rightarrow> bool" where
  "url_alpha c \<longleftrightarrow> is_upper c \<or> is_lower c \<or> is_digit c \<or> c = CHR ''-'' \<or> c = CHR ''_''"

lemma quotient_bounds:
  fixes b :: nat
  assumes "b < 256" shows "b div 4 < 64" "b div 16 < 16" "b div 64 < 4"
  using assms by (simp_all add: less_mult_imp_div_less)

lemma unsextets_sextets: "\<forall>b \<in> set bs. b < 256 \<Longrightarrow> unsextets (sextets bs) = Some bs"
  by (induction bs rule: sextets.induct)
    (simp_all add: quotient_bounds)

lemma sextet_bounds:
  fixes a b c :: nat
  shows "a < 256 \<Longrightarrow> a div 4 < 64" "(a mod 4) * 16 < 64" "b < 256 \<Longrightarrow> (a mod 4) * 16 + b div 16 < 64"
    "(b mod 16) * 4 < 64" "c < 256 \<Longrightarrow> (b mod 16) * 4 + c div 64 < 64" "c mod 64 < 64"
proof -
  have m: "a mod 4 < 4" "b mod 16 < 16" by simp_all
  show "(a mod 4) * 16 < 64" "(b mod 16) * 4 < 64" using m by linarith+
  show "b < 256 \<Longrightarrow> (a mod 4) * 16 + b div 16 < 64" using m quotient_bounds(2) [of b] by linarith
  show "c < 256 \<Longrightarrow> (b mod 16) * 4 + c div 64 < 64" using m quotient_bounds(3) [of c] by linarith
qed (simp_all add: quotient_bounds)

lemma sextets_bound: "\<forall>b \<in> set bs. b < 256 \<Longrightarrow> \<forall>d \<in> set (sextets bs). d < 64"
  by (induction bs rule: sextets.induct) (simp_all add: sextet_bounds)

lemma length_sextets: "length (sextets bs) = (4 * length bs + 2) div 3"
proof (induction bs rule: sextets.induct)
  case (4 a b c xs)
  have "(4 * (n + 3) + 2) div 3 = 4 + (4 * n + 2) div 3" for n :: nat
    using div_mult_self1 [of 3 "4 * n + 2" 4] by (simp add: algebra_simps)
  from this [of "length xs"] 4 show ?case by (simp add: algebra_simps)
qed simp_all

lemma is_upper_of_char: "is_upper c \<longleftrightarrow> 65 \<le> byte_of c \<and> byte_of c \<le> 90"
  by (simp add: is_upper_def less_eq_char_def byte_of_def)

lemma is_lower_of_char: "is_lower c \<longleftrightarrow> 97 \<le> byte_of c \<and> byte_of c \<le> 122"
  by (simp add: is_lower_def less_eq_char_def byte_of_def)

lemmas char_ranges = is_upper_of_char is_lower_of_char is_digit_of_char [folded byte_of_def]

lemma byte_of_char_of: "n < 256 \<Longrightarrow> byte_of (char_of n) = n"
  by (simp add: byte_of_def)

lemma url_char_facts:
  assumes "d < 64"
  shows "url_val (url_char d) = d \<and> url_alpha (url_char d)"
proof -
  consider "d < 26" | "26 \<le> d" "d < 52" | "52 \<le> d" "d < 62" | "d = 62" | "d = 63"
    using assms by linarith
  then show ?thesis
  proof cases
    case 3
    then have "48 \<le> d - 4" "d - 4 \<le> 57" by linarith+
    with 3 show ?thesis
      by (simp add: url_char_def url_val_def url_alpha_def char_ranges byte_of_char_of)
  next
    case 4
    then show ?thesis
      by (simp add: url_char_def url_val_def url_alpha_def is_upper_def is_lower_def is_digit_def)
  next
    case 5
    then show ?thesis
      by (simp add: url_char_def url_val_def url_alpha_def is_upper_def is_lower_def is_digit_def)
  qed (simp_all add: url_char_def url_val_def url_alpha_def char_ranges byte_of_char_of)
qed

lemmas url_val_char = url_char_facts [THEN conjunct1]
  and url_alpha_char = url_char_facts [THEN conjunct2]

lemma url_alpha_plain: "url_alpha c \<Longrightarrow> \<not> is_space c \<and> c \<noteq> dquote \<and> c \<noteq> backslash"
proof (intro conjI notI)
  assume "url_alpha c" "is_space c"
  then show False
    unfolding is_space_def by (elim insertE emptyE)
      (simp_all add: url_alpha_def is_upper_def is_lower_def is_digit_def)
next
  assume "url_alpha c" "c = dquote"
  then show False by (simp add: url_alpha_def is_upper_def is_lower_def is_digit_def dquote_def)
next
  assume "url_alpha c" "c = backslash"
  then show False by (simp add: url_alpha_def is_upper_def is_lower_def is_digit_def backslash_def)
qed

interpretation urlc: byte_codec base64_url base64_url_decode url_alpha "\<lambda>n. (4 * n + 2) div 3"
proof unfold_locales
  fix bs :: string
  let ?ns = "map byte_of bs"
  have b: "\<forall>b \<in> set ?ns. b < 256" by (simp add: byte_of_less)
  have "map (url_val \<circ> url_char) (sextets ?ns) = sextets ?ns"
    by (rule map_idI) (simp add: url_val_char sextets_bound [OF b, rule_format])
  then show "base64_url_decode (base64_url bs) = Some bs"
    using unsextets_sextets [OF b] by (simp add: base64_url_def base64_url_decode_def o_def)
  show "list_all url_alpha (base64_url bs)"
    by (auto simp: base64_url_def list_all_iff intro: url_alpha_char sextets_bound [OF b, rule_format])
  show "length (base64_url bs) = (4 * length bs + 2) div 3"
    by (simp add: base64_url_def length_sextets)
next
  show "\<not> is_space c \<and> c \<noteq> dquote \<and> c \<noteq> backslash" if "url_alpha c" for c
    using that by (rule url_alpha_plain)
qed (simp add: div_le_mono)

end
