(* ===== verification/Roles.thy ===== *)
theory Roles
  imports GoStrings
begin

text \<open>
  \<open>internal/domain/role.go\<close>: the three zones, their names and their fixed order,
  and the contract every enumeration with a \<open>String\<close> method and a parser keeps.
\<close>

section \<open>Names and their parsers\<close>

text \<open>
  \<open>Role\<close> and \<open>Source\<close> are enumerations with a printed name and a parser that is
  its inverse. Everything the rest of the code relies on follows from two laws.
\<close>

locale name_codec =
  fixes name_of :: "'a \<Rightarrow> string"
    and parse :: "string \<Rightarrow> 'a option"
  assumes parse_name: "parse (name_of x) = Some x"
    and parse_sound: "parse s = Some x \<Longrightarrow> name_of x = s"
begin

lemma name_inj: "name_of x = name_of y \<longleftrightarrow> x = y"
  by (metis option.inject parse_name)

lemma parse_Some_iff: "parse s = Some x \<longleftrightarrow> s = name_of x"
  using parse_name parse_sound by blast

lemma parse_None_iff: "parse s = None \<longleftrightarrow> s \<notin> range name_of"
  by (metis not_None_eq option.distinct(1) parse_name parse_sound rangeE rangeI)

lemma parse_inj: "parse s = Some x \<Longrightarrow> parse t = Some x \<Longrightarrow> s = t"
  by (simp add: parse_Some_iff)

end

section \<open>Roles\<close>

definition MachineName :: string where "MachineName = ''lclaw''"

datatype role = Infra | Services | Agent

definition Roles :: "role list" where
  "Roles = [Infra, Services, Agent]"

fun role_name :: "role \<Rightarrow> string" where
  "role_name Infra = ''infra''"
| "role_name Services = ''services''"
| "role_name Agent = ''agent''"

definition NetworkName :: "role \<Rightarrow> string" where
  "NetworkName r = ''lclaw-'' @ role_name r"

definition ParseRole :: "string \<Rightarrow> role option" where
  "ParseRole s = find (\<lambda>r. role_name r = s) Roles"

definition isRole :: "string \<Rightarrow> bool" where
  "isRole name \<longleftrightarrow> ParseRole name \<noteq> None"

definition roleNames :: string where
  "roleNames = join_with '', '' (map role_name Roles)"

text \<open>\<open>roleRank\<close>: the index of the first role with this name, the number of roles otherwise.\<close>

fun rank_in :: "role list \<Rightarrow> string \<Rightarrow> nat" where
  "rank_in [] name = 0"
| "rank_in (r # rs) name = (if role_name r = name then 0 else Suc (rank_in rs name))"

definition roleRank :: "string \<Rightarrow> nat" where
  "roleRank name = rank_in Roles name"

lemma Roles_UNIV [simp]: "set Roles = UNIV"
  using role.exhaust by (auto simp: Roles_def)

lemma distinct_Roles [simp]: "distinct Roles"
  by (simp add: Roles_def)

lemma length_Roles [simp]: "length Roles = 3"
  by (simp add: Roles_def)

interpretation rolec: name_codec role_name ParseRole
proof unfold_locales
  show "ParseRole (role_name x) = Some x" for x
    by (cases x) (simp_all add: ParseRole_def Roles_def)
  show "role_name x = s" if "ParseRole s = Some x" for s x
    using that by (auto simp: ParseRole_def find_Some_iff)
qed

declare rolec.parse_name [simp] rolec.name_inj [simp]

lemma isRole_iff: "isRole s \<longleftrightarrow> s \<in> range role_name"
  using rolec.parse_None_iff by (simp add: isRole_def)

lemma isRole_name [simp]: "isRole (role_name r)"
  by (simp add: isRole_iff)

lemma inj_role_name: "inj role_name"
  by (simp add: inj_def rolec.name_inj)

fun role_index :: "role \<Rightarrow> nat" where
  "role_index Infra = 0"
| "role_index Services = 1"
| "role_index Agent = 2"

lemma role_index_inj [simp]: "role_index r = role_index q \<longleftrightarrow> r = q"
  by (cases r; cases q) simp_all

lemma role_index_less: "role_index r < 3"
  by (cases r) simp_all

lemma roleRank_name [simp]: "roleRank (role_name r) = role_index r"
  by (cases r) (simp_all add: roleRank_def Roles_def)

lemma roleRank_unknown:
  assumes "\<not> isRole s" shows "roleRank s = 3"
proof -
  have "role_name r \<noteq> s" for r using assms by (auto simp: isRole_iff)
  then show ?thesis by (simp only: roleRank_def Roles_def rank_in.simps if_False numeral_3_eq_3)
qed

lemma roleRank_le: "roleRank s \<le> 3"
  by (simp add: roleRank_def Roles_def)

lemma roleRank_inj:
  assumes "isRole s" and eq: "roleRank s = roleRank t"
  shows "s = t"
proof -
  obtain r where r: "s = role_name r" using assms(1) by (auto simp: isRole_iff)
  have "isRole t"
  proof (rule ccontr)
    assume "\<not> isRole t"
    with eq r role_index_less [of r] show False by (simp add: roleRank_unknown)
  qed
  then obtain r' where "t = role_name r'" by (auto simp: isRole_iff)
  with eq r show "s = t" by simp
qed

text \<open>Roles are ordered as they are applied.\<close>

instantiation role :: linorder
begin

definition less_eq_role :: "role \<Rightarrow> role \<Rightarrow> bool" where
  "less_eq_role r q \<longleftrightarrow> role_index r \<le> role_index q"

definition less_role :: "role \<Rightarrow> role \<Rightarrow> bool" where
  "less_role r q \<longleftrightarrow> role_index r < role_index q"

instance
  by intro_classes (auto simp: less_eq_role_def less_role_def dest: antisym)

end

lemma sorted_Roles: "sorted Roles"
  by (simp add: Roles_def less_eq_role_def)

section \<open>Machines\<close>

record machine =
  mName :: string
  mRunning :: bool

end
