(* ===== verification/GoErrors.thy ===== *)
theory GoErrors
  imports Roles
begin

text \<open>
  Go error values: the package-level sentinels, the typed errors the code
  matches with \<open>errors.As\<close>, and \<open>fmt.Errorf\<close> with one \<open>%w\<close>. \<open>errors.Is\<close> and
  \<open>errors.As\<close> walk the chain of wrapped errors as the standard library does.
\<close>

section \<open>Values\<close>

text \<open>
  Sentinels are compared by identity. The last five are the standard library's
  (\<open>os/exec\<close>, \<open>io/fs\<close>, \<open>context\<close>).
\<close>

datatype sentinel =
    ErrToolNotFound | ErrInvalidName | ErrInvalidValue | ErrSecretNotFound
  | ErrSecretExists | ErrUnknownSecret | ErrKeychainMissing | ErrKeychainLocked
  | ErrWrongPassword | ErrNotGeneratable | ErrMinterUnavailable
  | ErrChecksFailed | ErrInitFailed
  | ExecNotFound | FsNotExist | FsExist | CtxCanceled | CtxDeadlineExceeded

text \<open>\<open>domain.Finding\<close>, \<open>internal/domain/topology.go\<close>.\<close>

record finding =
  fWhere :: string
  fMessage :: string

definition finding_string :: "finding \<Rightarrow> string" where
  "finding_string f = fWhere f @ '': '' @ fMessage f"

datatype go_error =
    Sentinel sentinel
  | Plain string
  | Wrapf string go_error string
  | ExitError int string
  | FindingsError "finding list"
  | UnknownZoneError string bool
  | UsageError go_error

fun sentinel_text :: "sentinel \<Rightarrow> string" where
  "sentinel_text ErrToolNotFound = ''tool not found''"
| "sentinel_text ErrInvalidName = ''invalid secret name''"
| "sentinel_text ErrInvalidValue = ''invalid secret value''"
| "sentinel_text ErrSecretNotFound = ''secret not found''"
| "sentinel_text ErrSecretExists = ''secret already exists''"
| "sentinel_text ErrUnknownSecret = ''unknown secret''"
| "sentinel_text ErrKeychainMissing = ''keychain not found''"
| "sentinel_text ErrKeychainLocked = ''keychain is locked''"
| "sentinel_text ErrWrongPassword = ''wrong keychain password''"
| "sentinel_text ErrNotGeneratable = ''secret cannot be generated''"
| "sentinel_text ErrMinterUnavailable =
     ''minting needs the services zone up; run `lclaw up services` first''"
| "sentinel_text ErrChecksFailed = ''checks failed''"
| "sentinel_text ErrInitFailed = ''init did not complete''"
| "sentinel_text ExecNotFound = ''executable file not found in $PATH''"
| "sentinel_text FsNotExist = ''file does not exist''"
| "sentinel_text FsExist = ''file already exists''"
| "sentinel_text CtxCanceled = ''context canceled''"
| "sentinel_text CtxDeadlineExceeded = ''context deadline exceeded''"

definition TopologyFile :: string where "TopologyFile = ''lclaw.toml''"

fun exit_error_text :: "int \<Rightarrow> string \<Rightarrow> string" where
  "exit_error_text code err =
     (if err = [] then ''exit status '' @ itoa code
      else ''exit status '' @ itoa code @ '': '' @ err)"

fun unknown_zone_text :: "string \<Rightarrow> bool \<Rightarrow> string" where
  "unknown_zone_text name repeated =
     (if repeated then ''zone '' @ name @ '' is named twice''
      else ''unknown zone '' @ name @ ''; the zones are '' @ roleNames)"

fun err_text :: "go_error \<Rightarrow> string" where
  "err_text (Sentinel s) = sentinel_text s"
| "err_text (Plain t) = t"
| "err_text (Wrapf pre e post) = pre @ err_text e @ post"
| "err_text (ExitError code t) = exit_error_text code t"
| "err_text (FindingsError fs) =
     TopologyFile @ '' has '' @ itoa (int (length fs)) @ '' problem(s)''"
| "err_text (UnknownZoneError name rep) = unknown_zone_text name rep"
| "err_text (UsageError e) = err_text e"

section \<open>The chain of wrapped errors\<close>

text \<open>\<open>errors.Is(err, sentinel)\<close>.\<close>

fun errors_is :: "go_error \<Rightarrow> sentinel \<Rightarrow> bool" where
  "errors_is (Sentinel s) t = (s = t)"
| "errors_is (Wrapf _ e _) t = errors_is e t"
| "errors_is (UsageError e) t = errors_is e t"
| "errors_is _ t = False"

text \<open>\<open>errors.As\<close> for \<open>*exec.ExitError\<close>, \<open>*app.FindingsError\<close> and \<open>*cli.usageError\<close>.\<close>

fun as_exit :: "go_error \<Rightarrow> (int \<times> string) option" where
  "as_exit (ExitError c t) = Some (c, t)"
| "as_exit (Wrapf _ e _) = as_exit e"
| "as_exit (UsageError e) = as_exit e"
| "as_exit _ = None"

fun as_findings :: "go_error \<Rightarrow> finding list option" where
  "as_findings (FindingsError fs) = Some fs"
| "as_findings (Wrapf _ e _) = as_findings e"
| "as_findings (UsageError e) = as_findings e"
| "as_findings _ = None"

fun as_usage :: "go_error \<Rightarrow> bool" where
  "as_usage (UsageError e) = True"
| "as_usage (Wrapf _ e _) = as_usage e"
| "as_usage _ = False"

text \<open>\<open>errors.Is\<close> on a possibly nil error.\<close>

definition opt_is :: "go_error option \<Rightarrow> sentinel \<Rightarrow> bool" where
  "opt_is eo s = (case eo of None \<Rightarrow> False | Some e \<Rightarrow> errors_is e s)"

lemma opt_is_simps [simp]: "opt_is None s = False" "opt_is (Some e) s = errors_is e s"
  by (simp_all add: opt_is_def)

text \<open>At most one sentinel is at the end of a chain, and an exit error excludes them all.\<close>

lemma errors_is_unique: "errors_is e s \<Longrightarrow> errors_is e t \<Longrightarrow> s = t"
  by (induction e) auto

lemma errors_is_no_exit: "errors_is e s \<Longrightarrow> as_exit e = None"
  by (induction e) auto

lemma errors_is_no_findings: "errors_is e s \<Longrightarrow> as_findings e = None"
  by (induction e) auto

end
