(* ===== verification/Reports.thy ===== *)
theory Reports
  imports GoErrors
begin

text \<open>
  \<open>internal/domain/report.go\<close>: statuses, checks and reports. \<open>Worst\<close> relies on the
  order of the three statuses; the constants are declared with \<open>iota\<close>, so that
  order is their declaration order.
\<close>

datatype status = Pass | Warn | Fail

fun status_name :: "status \<Rightarrow> string" where
  "status_name Pass = ''pass''"
| "status_name Warn = ''warn''"
| "status_name Fail = ''fail''"

fun status_index :: "status \<Rightarrow> nat" where
  "status_index Pass = 0"
| "status_index Warn = 1"
| "status_index Fail = 2"

lemma status_index_inj [simp]: "status_index s = status_index t \<longleftrightarrow> s = t"
  by (cases s; cases t) simp_all

instantiation status :: linorder
begin

definition less_eq_status :: "status \<Rightarrow> status \<Rightarrow> bool" where
  "less_eq_status s t \<longleftrightarrow> status_index s \<le> status_index t"

definition less_status :: "status \<Rightarrow> status \<Rightarrow> bool" where
  "less_status s t \<longleftrightarrow> status_index s < status_index t"

instance
  by intro_classes (auto simp: less_eq_status_def less_status_def dest: antisym)

end

lemma Pass_le [simp]: "Pass \<le> s"
  by (simp add: less_eq_status_def)

lemma le_Fail [simp]: "s \<le> Fail"
  by (cases s) (simp_all add: less_eq_status_def)

record check =
  cName :: string
  cStatus :: status
  cSummary :: string
  cHint :: string

text \<open>A check with only some fields set: Go's composite literals leave the rest empty.\<close>

definition mkCheck :: "string \<Rightarrow> status \<Rightarrow> string \<Rightarrow> string \<Rightarrow> check" where
  "mkCheck n s sm h = \<lparr>cName = n, cStatus = s, cSummary = sm, cHint = h\<rparr>"

lemma mkCheck_sel [simp]:
  "cName (mkCheck n s sm h) = n" "cStatus (mkCheck n s sm h) = s"
  "cSummary (mkCheck n s sm h) = sm" "cHint (mkCheck n s sm h) = h"
  by (simp_all add: mkCheck_def)

text \<open>\<open>Report\<close> has one field; a report is its list of checks.\<close>

type_synonym report = "check list"

fun worst_loop :: "status \<Rightarrow> check list \<Rightarrow> status" where
  "worst_loop worst [] = worst"
| "worst_loop worst (c # cs) =
     worst_loop (if worst < cStatus c then cStatus c else worst) cs"

definition Worst :: "report \<Rightarrow> status" where
  "Worst r = worst_loop Pass r"

fun count_loop :: "status \<Rightarrow> int \<Rightarrow> check list \<Rightarrow> int" where
  "count_loop s n [] = n"
| "count_loop s n (c # cs) = count_loop s (if cStatus c = s then n + 1 else n) cs"

definition Count :: "report \<Rightarrow> status \<Rightarrow> int" where
  "Count r s = count_loop s 0 r"

lemma worst_loop_ge: "worst \<le> worst_loop worst cs"
  by (induction cs arbitrary: worst) (auto intro: order_trans less_imp_le)

lemma worst_loop_upper: "c \<in> set cs \<Longrightarrow> cStatus c \<le> worst_loop worst cs"
proof (induction cs arbitrary: worst)
  case (Cons d cs)
  then show ?case
    using worst_loop_ge [of "cStatus d" cs] worst_loop_ge [of worst cs]
    by (auto simp: not_less intro: order_trans)
qed simp

lemma worst_loop_attained: "worst_loop worst cs = worst \<or> worst_loop worst cs \<in> cStatus ` set cs"
  by (induction cs arbitrary: worst) auto

lemma count_loop_eq: "count_loop s n cs = n + int (length (filter (\<lambda>c. cStatus c = s) cs))"
  by (induction cs arbitrary: n) auto

lemma Worst_Nil [simp]: "Worst [] = Pass"
  by (simp add: Worst_def)

lemma Worst_upper: "c \<in> set r \<Longrightarrow> cStatus c \<le> Worst r"
  by (simp add: Worst_def worst_loop_upper)

lemma Worst_attained: "Worst r = Pass \<or> Worst r \<in> cStatus ` set r"
  by (simp add: Worst_def worst_loop_attained)

lemma Worst_Fail_iff: "Worst r = Fail \<longleftrightarrow> (\<exists>c \<in> set r. cStatus c = Fail)"
proof
  assume "Worst r = Fail"
  then show "\<exists>c \<in> set r. cStatus c = Fail" using Worst_attained [of r] by force
next
  assume "\<exists>c \<in> set r. cStatus c = Fail"
  then have "Fail \<le> Worst r" using Worst_upper by force
  then show "Worst r = Fail" using le_Fail by (metis antisym)
qed

lemma Count_eq: "Count r s = int (length (filter (\<lambda>c. cStatus c = s) r))"
  by (simp add: Count_def count_loop_eq)

text \<open>
  \<open>Report.Worst\<close> is the least upper bound of the statuses of the checks (Pass for
  an empty report), and the three counts printed under a report add up to its
  length.
\<close>

theorem report_summary:
  "Worst r = Max (insert Pass (cStatus ` set r))
   \<and> Count r Pass + Count r Warn + Count r Fail = int (length r)"
proof
  have mem: "Worst r \<in> insert Pass (cStatus ` set r)" using Worst_attained [of r] by auto
  have ub: "y \<le> Worst r" if "y \<in> insert Pass (cStatus ` set r)" for y
    using that Worst_upper [of _ r] by auto
  show "Worst r = Max (insert Pass (cStatus ` set r))"
    by (rule Max_eqI [symmetric]) (use mem ub in auto)
  show "Count r Pass + Count r Warn + Count r Fail = int (length r)"
    unfolding Count_eq
  proof (induction r)
    case (Cons c cs)
    then show ?case by (cases "cStatus c") auto
  qed simp
qed

end
