(* ===== verification/SecretSpecs.thy ===== *)
theory SecretSpecs
  imports Encodings Reports
begin

text \<open>
  \<open>internal/domain/secret.go\<close> and \<open>secret_check.go\<close>: where a secret's value comes
  from, how a value is generated, the rules for names and values, the built-in
  entries and the verdicts on the keychain and on one secret.
\<close>

section \<open>Sources\<close>

datatype source = Generated | Minted | User

fun source_name :: "source \<Rightarrow> string" where
  "source_name Generated = ''generated''"
| "source_name Minted = ''minted''"
| "source_name User = ''user''"

definition ParseSource :: "string \<Rightarrow> source option" where
  "ParseSource s = find (\<lambda>src. source_name src = s) [Generated, Minted, User]"

interpretation sourcec: name_codec source_name ParseSource
proof unfold_locales
  show "ParseSource (source_name x) = Some x" for x
    by (cases x) (simp_all add: ParseSource_def)
  show "source_name x = s" if "ParseSource s = Some x" for s x
    using that by (auto simp: ParseSource_def split: if_splits)
qed

declare sourcec.parse_name [simp] sourcec.name_inj [simp]

section \<open>Generators\<close>

datatype encoding = Base64URL | Hex

record generator =
  gPrefix :: string
  gBytes :: int
  gEncoding :: encoding

definition no_generator :: generator where
  "no_generator = \<lparr>gPrefix = [], gBytes = 0, gEncoding = Base64URL\<rparr>"

text \<open>
  \<open>io.ReadFull\<close> on the source of randomness: the requested number of bytes or an
  error. The reader is the outside world's; \<open>full_reader\<close> is what \<open>ReadFull\<close> documents.
\<close>

type_synonym 'w reader = "nat \<Rightarrow> ('w, go_error + string) io"

definition full_reader :: "'w reader \<Rightarrow> bool" where
  "full_reader rd \<longleftrightarrow> (\<forall>n w bs w'. run_state (rd n) w = (Inr bs, w') \<longrightarrow> length bs = n)"

definition encode_raw :: "encoding \<Rightarrow> string \<Rightarrow> string" where
  "encode_raw e raw = (case e of Hex \<Rightarrow> hex_encode raw | Base64URL \<Rightarrow> base64_url raw)"

definition Generate :: "generator \<Rightarrow> 'w reader \<Rightarrow> ('w, go_error + string) io" where
  "Generate g random =
     (if gBytes g \<le> 0 then ret (Inl (Plain ''generate: entry has no generator''))
      else do {
        r \<leftarrow> random (nat (gBytes g));
        ret (case r of
               Inl err \<Rightarrow> Inl (Wrapf ''generate: read randomness: '' err [])
             | Inr raw \<Rightarrow> Inr (gPrefix g @ encode_raw (gEncoding g) raw))
      })"

section \<open>Entries\<close>

record secret_spec =
  sName :: string
  sSource :: source
  sZones :: "role list"
  sGenerator :: generator
  sRotatable :: bool

fun used_loop :: "role \<Rightarrow> role list \<Rightarrow> bool" where
  "used_loop r [] = False"
| "used_loop r (z # zs) = (if z = r then True else used_loop r zs)"

definition UsedBy :: "secret_spec \<Rightarrow> role \<Rightarrow> bool" where
  "UsedBy s r = used_loop r (sZones s)"

lemma used_loop_iff [simp]: "used_loop r zs \<longleftrightarrow> r \<in> set zs"
  by (induction zs) auto

lemma UsedBy_iff: "UsedBy s r \<longleftrightarrow> r \<in> set (sZones s)"
  by (simp add: UsedBy_def)

definition MaxSecretLen :: nat where "MaxSecretLen = 1024"
definition maxNameLen :: nat where "maxNameLen = 63"

text \<open>The regular expression \<open>^[a-z0-9]([a-z0-9-]*[a-z0-9])?$\<close>.\<close>

definition alnum :: "char \<Rightarrow> bool" where
  "alnum c \<longleftrightarrow> is_lower c \<or> is_digit c"

fun namePattern :: "string \<Rightarrow> bool" where
  "namePattern [] = False"
| "namePattern (c # cs) =
     (alnum c \<and> (cs = [] \<or> (list_all (\<lambda>d. alnum d \<or> d = CHR ''-'') (butlast cs) \<and> alnum (last cs))))"

definition ValidateName :: "string \<Rightarrow> go_error option" where
  "ValidateName name =
     (if maxNameLen < length name \<or> \<not> namePattern name
      then Some (Wrapf [] (Sentinel ErrInvalidName)
             ('': '' @ quote name @ '' must be a lowercase DNS label of at most ''
              @ itoa (int maxNameLen) @ '' characters''))
      else None)"

definition ValidateValue :: "string \<Rightarrow> go_error option" where
  "ValidateValue v =
     (if length v = 0 then Some (Wrapf [] (Sentinel ErrInvalidValue) '': empty'')
      else if MaxSecretLen < length v
      then Some (Wrapf [] (Sentinel ErrInvalidValue)
             ('': '' @ itoa (int (length v)) @ '' bytes is over the ''
              @ itoa (int MaxSecretLen) @ ''-byte limit''))
      else None)"

definition BuiltinSecrets :: "secret_spec list" where
  "BuiltinSecrets =
     [\<lparr>sName = ''litellm-master-key'', sSource = Generated, sZones = [Services],
       sGenerator = \<lparr>gPrefix = ''sk-'', gBytes = 32, gEncoding = Base64URL\<rparr>, sRotatable = True\<rparr>,
      \<lparr>sName = ''litellm-salt-key'', sSource = Generated, sZones = [Services],
       sGenerator = \<lparr>gPrefix = [], gBytes = 32, gEncoding = Hex\<rparr>, sRotatable = False\<rparr>,
      \<lparr>sName = ''litellm-db-password'', sSource = Generated, sZones = [Services],
       sGenerator = \<lparr>gPrefix = [], gBytes = 32, gEncoding = Base64URL\<rparr>, sRotatable = True\<rparr>,
      \<lparr>sName = ''openclaw-gateway-token'', sSource = Generated, sZones = [Agent],
       sGenerator = \<lparr>gPrefix = [], gBytes = 32, gEncoding = Base64URL\<rparr>, sRotatable = True\<rparr>,
      \<lparr>sName = ''openclaw-litellm-key'', sSource = Minted, sZones = [Agent],
       sGenerator = no_generator, sRotatable = True\<rparr>]"

text \<open>What a name and a value may be, stated without the code's tests.\<close>

definition dns_label :: "string \<Rightarrow> bool" where
  "dns_label s \<longleftrightarrow> s \<noteq> [] \<and> length s \<le> 63 \<and>
     (\<forall>c \<in> set s. is_lower c \<or> is_digit c \<or> c = CHR ''-'') \<and>
     hd s \<noteq> CHR ''-'' \<and> last s \<noteq> CHR ''-''"

lemma alnum_not_hyphen: "alnum c \<Longrightarrow> c \<noteq> CHR ''-''"
  by (auto simp: alnum_def is_lower_def is_digit_def)

lemma namePattern_iff:
  "namePattern s \<longleftrightarrow> s \<noteq> [] \<and> (\<forall>c \<in> set s. alnum c \<or> c = CHR ''-'') \<and> alnum (hd s) \<and> alnum (last s)"
proof (cases s)
  case (Cons c cs)
  show ?thesis
  proof (cases cs rule: rev_cases)
    case (snoc ds d)
    with Cons show ?thesis by (auto simp: list_all_iff)
  qed (use Cons in auto)
qed simp

lemma ValidateName_None_iff: "ValidateName name = None \<longleftrightarrow> dns_label name"
proof -
  have "namePattern name \<longleftrightarrow> name \<noteq> [] \<and> (\<forall>c \<in> set name. alnum c \<or> c = CHR ''-'') \<and>
      hd name \<noteq> CHR ''-'' \<and> last name \<noteq> CHR ''-''"
    unfolding namePattern_iff using alnum_not_hyphen hd_in_set last_in_set by blast
  then show ?thesis
    by (auto simp: ValidateName_def dns_label_def maxNameLen_def alnum_def)
qed

lemma ValidateName_error: "ValidateName name = Some e \<Longrightarrow> errors_is e ErrInvalidName"
  by (auto simp: ValidateName_def split: if_splits)

lemma ValidateValue_None_iff: "ValidateValue v = None \<longleftrightarrow> 1 \<le> length v \<and> length v \<le> MaxSecretLen"
  by (auto simp: ValidateValue_def Suc_le_eq)

lemma ValidateValue_error: "ValidateValue v = Some e \<Longrightarrow> errors_is e ErrInvalidValue"
  by (auto simp: ValidateValue_def split: if_splits)

lemma dns_label_plain:
  assumes "dns_label s" and "c \<in> set s"
  shows "\<not> is_space c" "c \<noteq> dquote" "c \<noteq> backslash" "c \<noteq> newline"
proof -
  have c: "is_lower c \<or> is_digit c \<or> c = CHR ''-''" using assms by (auto simp: dns_label_def)
  show "c \<noteq> dquote" "c \<noteq> backslash" "c \<noteq> newline"
    using c by (auto simp: is_lower_def is_digit_def dquote_def backslash_def newline_def)
  show "\<not> is_space c"
    using c unfolding is_space_def by (auto simp: is_lower_def is_digit_def)
qed

text \<open>
  A name is accepted exactly when it is a lowercase DNS label of at most 63
  characters, a value exactly when it has 1 to 1024 bytes; a refusal wraps the
  sentinel the exit code is computed from.
\<close>

theorem secret_rules:
  "(ValidateName name = None \<longleftrightarrow> dns_label name)
   \<and> (ValidateValue v = None \<longleftrightarrow> 1 \<le> length v \<and> length v \<le> 1024)
   \<and> (ValidateName name \<noteq> None \<longleftrightarrow> opt_is (ValidateName name) ErrInvalidName)
   \<and> (ValidateValue v \<noteq> None \<longleftrightarrow> opt_is (ValidateValue v) ErrInvalidValue)"
proof (intro conjI)
  show "ValidateName name = None \<longleftrightarrow> dns_label name" by (rule ValidateName_None_iff)
  show "ValidateValue v = None \<longleftrightarrow> 1 \<le> length v \<and> length v \<le> 1024"
    by (simp only: ValidateValue_None_iff MaxSecretLen_def)
  show "ValidateName name \<noteq> None \<longleftrightarrow> opt_is (ValidateName name) ErrInvalidName"
    using ValidateName_error by (cases "ValidateName name") auto
  show "ValidateValue v \<noteq> None \<longleftrightarrow> opt_is (ValidateValue v) ErrInvalidValue"
    using ValidateValue_error by (cases "ValidateValue v") auto
qed

section \<open>Generated values\<close>

definition encoded_len :: "encoding \<Rightarrow> nat \<Rightarrow> nat" where
  "encoded_len e n = (case e of Hex \<Rightarrow> 2 * n | Base64URL \<Rightarrow> (4 * n + 2) div 3)"

lemma length_encode_raw: "length (encode_raw e raw) = encoded_len e (length raw)"
  by (cases e) (simp_all add: encode_raw_def encoded_len_def hexc.enc_len urlc.enc_len)

lemma encode_raw_inj: "encode_raw e x = encode_raw e y \<longleftrightarrow> x = y"
  by (cases e) (simp_all add: encode_raw_def hexc.enc_inj urlc.enc_inj)

lemma encode_raw_no_space: "c \<in> set (encode_raw e x) \<Longrightarrow> \<not> is_space c"
  by (cases e) (auto simp: encode_raw_def dest: hexc.enc_no_space urlc.enc_no_space)

lemma Generate_Inr:
  assumes "run_state (Generate g random) w = (Inr v, w')"
  obtains raw where "0 < gBytes g" "run_state (random (nat (gBytes g))) w = (Inr raw, w')"
    "v = gPrefix g @ encode_raw (gEncoding g) raw"
  using assms by (auto simp: Generate_def split: if_splits prod.splits sum.splits)

lemma builtin_generators:
  "spec \<in> set BuiltinSecrets \<Longrightarrow> sSource spec = Generated \<Longrightarrow>
     gBytes (sGenerator spec) = 32 \<and> length (gPrefix (sGenerator spec)) \<le> 3 \<and>
     (\<forall>c \<in> set (gPrefix (sGenerator spec)). \<not> is_space c)"
  by (auto simp: BuiltinSecrets_def is_space_def)

text \<open>
  C40: whatever the random bytes, a value generated for a built-in entry is a legal
  secret value of 43 to 64 characters with no white space in it, and two values are
  equal only when the 32 random bytes behind them are.
\<close>

theorem generated_values:
  assumes full: "full_reader random" and full': "full_reader random'"
    and spec: "spec \<in> set BuiltinSecrets" "sSource spec = Generated"
    and v: "run_state (Generate (sGenerator spec) random) w = (Inr v, w1)"
    and u: "run_state (Generate (sGenerator spec) random') u0 = (Inr u, u1)"
  shows "ValidateValue v = None \<and> 43 \<le> length v \<and> length v \<le> 64 \<and> (\<forall>c \<in> set v. \<not> is_space c) \<and>
    (v = u \<longleftrightarrow> fst (run_state (random 32) w) = fst (run_state (random' 32) u0))"
proof -
  let ?g = "sGenerator spec"
  have g: "gBytes ?g = 32" "length (gPrefix ?g) \<le> 3" "\<forall>c \<in> set (gPrefix ?g). \<not> is_space c"
    using builtin_generators [OF spec] by auto
  obtain raw where raw: "run_state (random 32) w = (Inr raw, w1)" "v = gPrefix ?g @ encode_raw (gEncoding ?g) raw"
    using v by (rule Generate_Inr) (simp add: g)
  obtain raw' where raw': "run_state (random' 32) u0 = (Inr raw', u1)" "u = gPrefix ?g @ encode_raw (gEncoding ?g) raw'"
    using u by (rule Generate_Inr) (simp add: g)
  have len: "length raw = 32" using full raw(1) unfolding full_reader_def by blast
  have "length v = length (gPrefix ?g) + encoded_len (gEncoding ?g) 32"
    by (simp add: raw(2) length_encode_raw len)
  moreover have "gPrefix ?g = [] \<or> gEncoding ?g = Base64URL"
    using spec by (auto simp: BuiltinSecrets_def)
  ultimately have "43 \<le> length v \<and> length v \<le> 64"
    using g(2) by (cases "gEncoding ?g") (auto simp: encoded_len_def)
  then show ?thesis
    using g(3) encode_raw_no_space raw raw'
    by (auto simp: ValidateValue_None_iff MaxSecretLen_def encode_raw_inj)
qed

definition counter_reader :: "nat reader" where
  "counter_reader n = State (\<lambda>i. (Inr (map (\<lambda>k. char_of (i + k)) [0..<n]), i + n))"

theorem generated_values_witness:
  "ValidateValue (''sk-'' @ base64_url (map char_of [0..<32])) = None"
proof -
  let ?spec = "hd BuiltinSecrets"
  have full: "full_reader counter_reader" by (auto simp: full_reader_def counter_reader_def)
  have spec: "?spec \<in> set BuiltinSecrets" "sSource ?spec = Generated"
    by (simp_all add: BuiltinSecrets_def)
  have run: "run_state (Generate (sGenerator ?spec) counter_reader) 0
      = (Inr (''sk-'' @ base64_url (map char_of [0..<32])), 32)"
    by (simp add: Generate_def BuiltinSecrets_def counter_reader_def encode_raw_def)
  show ?thesis using generated_values [OF full full spec run run] by simp
qed

section \<open>Verdicts\<close>

text \<open>\<open>EvaluateKeychain\<close> and \<open>EvaluateSecret\<close>.\<close>

definition EvaluateKeychain :: "string \<Rightarrow> bool \<Rightarrow> go_error option \<Rightarrow> check" where
  "EvaluateKeychain path exists err =
     (case err of
        Some e \<Rightarrow> mkCheck ''keychain'' Fail (err_text e) []
      | None \<Rightarrow>
          if \<not> exists then mkCheck ''keychain'' Fail (''not found at '' @ path) ''run `lclaw init` to create it''
          else mkCheck ''keychain'' Pass path [])"

definition EvaluateSecret :: "secret_spec \<Rightarrow> go_error option \<Rightarrow> check" where
  "EvaluateSecret spec err =
     (if opt_is err ErrSecretNotFound
      then mkCheck (sName spec) Fail ''unset'' (''run `lclaw secrets set '' @ sName spec @ ''`'')
      else case err of
        Some e \<Rightarrow> mkCheck (sName spec) Fail (err_text e) []
      | None \<Rightarrow> mkCheck (sName spec) Pass ''set'' [])"

lemma EvaluateKeychain_status:
  "cStatus (EvaluateKeychain path exists err) = (if err = None \<and> exists then Pass else Fail)"
  by (auto simp: EvaluateKeychain_def split: option.splits)

lemma EvaluateSecret_status:
  "cStatus (EvaluateSecret spec err) = (if err = None then Pass else Fail)"
  by (auto simp: EvaluateSecret_def split: option.splits)

end
