(* ===== verification/Catalogues.thy ===== *)
theory Catalogues
  imports SecretSpecs
begin

text \<open>
  \<open>internal/domain/catalogue.go\<close>: the built-in secrets merged with the names declared
  per zone. The merge keeps an index from names to positions in the slice of
  entries, appends a zone to an entry that is already there, and collects every
  problem as a finding.
\<close>

section \<open>The merge\<close>

fun isBuiltin :: "secret_spec list \<Rightarrow> string \<Rightarrow> bool" where
  "isBuiltin [] name = False"
| "isBuiltin (b # bs) name = (if sName b = name then True else isBuiltin bs name)"

record cat_state =
  csEntries :: "secret_spec list"
  csByName :: "string \<Rightarrow> nat option"
  csFindings :: "finding list"

text \<open>The loop \<open>for i := range entries\<close> that fills \<open>byName\<close>.\<close>

fun index_entries :: "nat \<Rightarrow> secret_spec list \<Rightarrow> (string \<Rightarrow> nat option) \<Rightarrow> (string \<Rightarrow> nat option)" where
  "index_entries i [] m = m"
| "index_entries i (e # es) m = index_entries (Suc i) es (m(sName e \<mapsto> i))"

definition add_finding :: "string \<Rightarrow> string \<Rightarrow> cat_state \<Rightarrow> cat_state" where
  "add_finding loc msg st = st\<lparr>csFindings := csFindings st @ [\<lparr>fWhere = loc, fMessage = msg\<rparr>]\<rparr>"

definition user_spec :: "string \<Rightarrow> role list \<Rightarrow> secret_spec" where
  "user_spec name zones =
     \<lparr>sName = name, sSource = User, sZones = zones, sGenerator = no_generator, sRotatable = True\<rparr>"

definition accept_name :: "role \<Rightarrow> string \<Rightarrow> cat_state \<Rightarrow> cat_state" where
  "accept_name role name st =
     (case csByName st name of
        Some i \<Rightarrow>
          st\<lparr>csEntries := (csEntries st)[i := (csEntries st ! i)\<lparr>sZones := sZones (csEntries st ! i) @ [role]\<rparr>]\<rparr>
      | None \<Rightarrow>
          st\<lparr>csEntries := csEntries st @ [user_spec name [role]],
             csByName := (csByName st)(name \<mapsto> length (csEntries st))\<rparr>)"

fun name_loop :: "secret_spec list \<Rightarrow> role \<Rightarrow> string \<Rightarrow> string set \<Rightarrow> string list \<Rightarrow> cat_state \<Rightarrow> cat_state" where
  "name_loop builtin role loc seen [] st = st"
| "name_loop builtin role loc seen (name # rest) st =
     (if ValidateName name \<noteq> None then
        name_loop builtin role loc seen rest
          (add_finding loc (quote name @ '' is not a valid secret name; use a lowercase DNS label of at most 63 characters'') st)
      else if isBuiltin builtin name then
        name_loop builtin role loc seen rest
          (add_finding loc (quote name @ '' collides with a built-in secret; built-in secrets are always available, so remove it'') st)
      else if name \<in> seen then
        name_loop builtin role loc seen rest (add_finding loc (quote name @ '' is listed twice'') st)
      else name_loop builtin role loc (insert name seen) rest (accept_name role name st))"

fun role_loop :: "secret_spec list \<Rightarrow> (string \<Rightarrow> string list option) \<Rightarrow> role list \<Rightarrow> cat_state \<Rightarrow> cat_state" where
  "role_loop builtin declared [] st = st"
| "role_loop builtin declared (role # roles) st =
     (case declared (role_name role) of
        None \<Rightarrow> role_loop builtin declared roles st
      | Some list \<Rightarrow>
          role_loop builtin declared roles
            (name_loop builtin role (''zones.'' @ role_name role @ ''.secrets'') {} list st))"

text \<open>
  \<open>Catalogue\<close> has one field, its entries. \<open>sort.Slice\<close> sorts by name in byte order; it
  is not stable, which is why the names have to be distinct for the result to be
  determined.
\<close>

type_synonym catalogue = "secret_spec list"

definition NewCatalogue ::
  "secret_spec list \<Rightarrow> (string \<Rightarrow> string list option) \<Rightarrow> catalogue \<times> finding list" where
  "NewCatalogue builtin declared =
     (let st = role_loop builtin declared Roles
                 \<lparr>csEntries = builtin, csByName = index_entries 0 builtin Map.empty, csFindings = []\<rparr>
      in (sort_key sName (csEntries st), csFindings st))"

definition Entries :: "catalogue \<Rightarrow> secret_spec list" where
  "Entries c = c"

fun Lookup :: "catalogue \<Rightarrow> string \<Rightarrow> secret_spec option" where
  "Lookup [] name = None"
| "Lookup (e # es) name = (if sName e = name then Some e else Lookup es name)"

fun ForZone :: "catalogue \<Rightarrow> role \<Rightarrow> secret_spec list" where
  "ForZone [] r = []"
| "ForZone (e # es) r = (if UsedBy e r then e # ForZone es r else ForZone es r)"

section \<open>Facts about the pieces\<close>

lemma isBuiltin_iff [simp]: "isBuiltin bs n \<longleftrightarrow> n \<in> sName ` set bs"
  by (induction bs) auto

lemma ForZone_filter: "ForZone c r = filter (\<lambda>e. UsedBy e r) c"
  by (induction c) auto

lemma Lookup_Some: "Lookup c n = Some e \<Longrightarrow> e \<in> set c \<and> sName e = n"
  by (induction c) (auto split: if_splits)

lemma Lookup_None: "Lookup c n = None \<longleftrightarrow> n \<notin> sName ` set c"
  by (induction c) auto

lemma Lookup_distinct:
  "distinct (map sName c) \<Longrightarrow> Lookup c n = Some e \<longleftrightarrow> e \<in> set c \<and> sName e = n"
  by (induction c) (auto simp: rev_image_eqI)

lemma index_entries_spec:
  assumes "distinct (map sName es)" and "\<And>n j. m n = Some j \<Longrightarrow> j < k \<and> n \<notin> sName ` set es"
  shows "index_entries k es m n = Some i \<longleftrightarrow>
    (m n = Some i) \<or> (k \<le> i \<and> i - k < length es \<and> sName (es ! (i - k)) = n)"
  using assms
proof (induction es arbitrary: k m)
  case (Cons e es)
  have "index_entries (Suc k) es (m(sName e \<mapsto> k)) n = Some i \<longleftrightarrow>
      ((m(sName e \<mapsto> k)) n = Some i) \<or> (Suc k \<le> i \<and> i - Suc k < length es \<and> sName (es ! (i - Suc k)) = n)"
    by (rule Cons.IH) (use Cons.prems in \<open>auto split: if_splits dest: less_SucI\<close>)
  moreover have "(m(sName e \<mapsto> k)) n = Some i \<longleftrightarrow> m n = Some i \<or> (i = k \<and> sName e = n)"
    using Cons.prems(2) by (auto split: if_splits)
  ultimately show ?case
    by (cases "i \<le> k") (auto simp: nth_Cons' Suc_le_eq Suc_diff_Suc less_diff_conv2)
qed auto

section \<open>The invariant of the merge\<close>

text \<open>
  \<open>Z n\<close> is the list of zones that have declared \<open>n\<close> so far. The entries are the
  built-in ones followed by one user entry per declared name, and the index finds
  each by its name.
\<close>

definition cat_inv :: "secret_spec list \<Rightarrow> (string \<Rightarrow> role list) \<Rightarrow> cat_state \<Rightarrow> bool" where
  "cat_inv builtin Z st \<longleftrightarrow>
     (\<exists>ns. csEntries st = builtin @ map (\<lambda>n. user_spec n (Z n)) ns \<and>
        distinct (map sName (csEntries st)) \<and>
        (\<forall>n. n \<in> set ns \<longleftrightarrow> Z n \<noteq> []) \<and>
        (\<forall>n i. csByName st n = Some i \<longleftrightarrow> i < length (csEntries st) \<and> sName (csEntries st ! i) = n))"

lemma cat_invI:
  assumes "csEntries st = builtin @ map (\<lambda>n. user_spec n (Z n)) ns"
    and "distinct (map sName (csEntries st))"
    and "\<And>n. n \<in> set ns \<longleftrightarrow> Z n \<noteq> []"
    and "\<And>n i. csByName st n = Some i \<longleftrightarrow> i < length (csEntries st) \<and> sName (csEntries st ! i) = n"
  shows "cat_inv builtin Z st"
  unfolding cat_inv_def by (intro exI [of _ ns] conjI allI assms)

definition zone_add :: "role \<Rightarrow> string \<Rightarrow> (string \<Rightarrow> role list) \<Rightarrow> (string \<Rightarrow> role list)" where
  "zone_add r n Z = Z(n := Z n @ [r])"

lemma user_spec_sel [simp]:
  "sName (user_spec n z) = n" "sSource (user_spec n z) = User" "sZones (user_spec n z) = z"
  "sRotatable (user_spec n z)"
  by (simp_all add: user_spec_def)

lemma cat_inv_finding [simp]: "cat_inv builtin Z (add_finding loc msg st) = cat_inv builtin Z st"
  by (simp add: cat_inv_def add_finding_def)

lemma cat_inv_new:
  assumes inv: "cat_inv builtin Z st" and fresh: "csByName st n = None"
  shows "cat_inv builtin (zone_add r n Z) (accept_name r n st)"
proof -
  obtain ns where
    ent: "csEntries st = builtin @ map (\<lambda>n. user_spec n (Z n)) ns" and
    dist: "distinct (map sName (csEntries st))" and
    mem: "\<And>n. n \<in> set ns \<longleftrightarrow> Z n \<noteq> []" and
    idx: "\<And>n i. csByName st n = Some i \<longleftrightarrow> i < length (csEntries st) \<and> sName (csEntries st ! i) = n"
    using inv unfolding cat_inv_def by blast
  have nin: "n \<notin> set (map sName (csEntries st))"
  proof
    assume "n \<in> set (map sName (csEntries st))"
    then obtain i where "i < length (csEntries st)" "sName (csEntries st ! i) = n"
      by (auto simp: in_set_conv_nth)
    then have "csByName st n = Some i" by (simp only: idx)
    with fresh show False by simp
  qed
  then have nns: "n \<notin> set ns" using ent by (auto simp: image_iff)
  then have Zn: "Z n = []" using mem by blast
  let ?st = "accept_name r n st" and ?Z = "zone_add r n Z"
  have ent': "csEntries ?st = builtin @ map (\<lambda>n. user_spec n (?Z n)) (ns @ [n])"
    using nns Zn by (simp add: accept_name_def fresh ent zone_add_def)
  have bn: "csByName ?st = (csByName st)(n \<mapsto> length (csEntries st))"
    and e: "csEntries ?st = csEntries st @ [user_spec n [r]]"
    by (simp_all add: accept_name_def fresh)
  have "csByName ?st m = Some i \<longleftrightarrow> i < length (csEntries ?st) \<and> sName (csEntries ?st ! i) = m" for m i
  proof -
    have "i < length (csEntries st) \<Longrightarrow> sName (csEntries st ! i) \<noteq> n"
      using nin by (metis length_map nth_map nth_mem)
    with idx [of m i] show ?thesis
      unfolding bn e by (cases "i < length (csEntries st)") (auto simp: nth_append less_Suc_eq)
  qed
  moreover have "distinct (map sName (csEntries ?st))" using dist nin unfolding e by auto
  moreover have "m \<in> set (ns @ [n]) \<longleftrightarrow> ?Z m \<noteq> []" for m using mem [of m] by (auto simp: zone_add_def)
  ultimately show ?thesis by (intro cat_invI [OF ent'])
qed

lemma cat_inv_more:
  assumes inv: "cat_inv builtin Z st" and found: "csByName st n = Some i" and nb: "n \<notin> sName ` set builtin"
  shows "cat_inv builtin (zone_add r n Z) (accept_name r n st)"
proof -
  obtain ns where
    ent: "csEntries st = builtin @ map (\<lambda>n. user_spec n (Z n)) ns" and
    dist: "distinct (map sName (csEntries st))" and
    mem: "\<And>n. n \<in> set ns \<longleftrightarrow> Z n \<noteq> []" and
    idx: "\<And>n i. csByName st n = Some i \<longleftrightarrow> i < length (csEntries st) \<and> sName (csEntries st ! i) = n"
    using inv unfolding cat_inv_def by blast
  have i: "i < length (csEntries st)" "sName (csEntries st ! i) = n" using found idx by auto
  let ?st = "accept_name r n st" and ?Z = "zone_add r n Z" and ?b = "length builtin"
  have ib: "?b \<le> i"
    using i nb ent by (metis image_eqI not_le_imp_less nth_append nth_mem)
  define j where "j = i - ?b"
  have j: "j < length ns" "i = ?b + j" using i(1) ib ent by (auto simp: j_def)
  have nsj: "ns ! j = n" using i(2) ent j by (simp add: nth_append)
  have dns: "distinct ns" using dist ent by (simp add: distinct_map comp_def)
  have e: "csEntries ?st = (csEntries st)[i := user_spec n (Z n @ [r])]"
    using j nsj ent by (simp add: accept_name_def found nth_append user_spec_def)
  have "(map (\<lambda>n. user_spec n (Z n)) ns)[j := user_spec n (Z n @ [r])] = map (\<lambda>n. user_spec n (?Z n)) ns"
    using dns nsj j(1) by (intro nth_equalityI) (auto simp: nth_list_update zone_add_def nth_eq_iff_index_eq)
  then have ent': "csEntries ?st = builtin @ map (\<lambda>n. user_spec n (?Z n)) ns"
    unfolding e ent j(2) by (simp add: list_update_append)
  have names: "map sName (csEntries ?st) = map sName (csEntries st)"
    unfolding ent' ent by simp
  have "csByName ?st = csByName st" by (simp add: accept_name_def found)
  then have "csByName ?st m = Some k \<longleftrightarrow> k < length (csEntries ?st) \<and> sName (csEntries ?st ! k) = m" for m k
    using idx [of m k] names by (metis length_map nth_map)
  moreover have "m \<in> set ns \<longleftrightarrow> ?Z m \<noteq> []" for m
    using mem [of m] nsj j(1) by (auto simp: zone_add_def)
  moreover have "distinct (map sName (csEntries ?st))" using names dist by simp
  ultimately show ?thesis by (intro cat_invI [OF ent'])
qed

lemma cat_inv_accept:
  "cat_inv builtin Z st \<Longrightarrow> n \<notin> sName ` set builtin \<Longrightarrow> cat_inv builtin (zone_add r n Z) (accept_name r n st)"
  by (cases "csByName st n") (simp_all add: cat_inv_new cat_inv_more)

section \<open>What the merge computes\<close>

definition accepts :: "secret_spec list \<Rightarrow> string \<Rightarrow> bool" where
  "accepts builtin n \<longleftrightarrow> dns_label n \<and> n \<notin> sName ` set builtin"

definition declares :: "secret_spec list \<Rightarrow> (string \<Rightarrow> string list option) \<Rightarrow> string \<Rightarrow> role \<Rightarrow> bool" where
  "declares builtin declared n r \<longleftrightarrow>
     accepts builtin n \<and> (\<exists>l. declared (role_name r) = Some l \<and> n \<in> set l)"

text \<open>The zones that declare a name, in zone order.\<close>

definition zones_of :: "secret_spec list \<Rightarrow> (string \<Rightarrow> string list option) \<Rightarrow> string \<Rightarrow> role list" where
  "zones_of builtin declared n = filter (declares builtin declared n) Roles"

lemma name_loop_reject:
  assumes "\<not> (accepts builtin name \<and> name \<notin> seen)"
  shows "\<exists>msg. name_loop builtin role loc seen (name # rest) st =
    name_loop builtin role loc seen rest (add_finding loc msg st)"
proof -
  consider "ValidateName name \<noteq> None" | "ValidateName name = None" "isBuiltin builtin name"
    | "ValidateName name = None" "\<not> isBuiltin builtin name" "name \<in> seen"
    using assms by (auto simp: accepts_def ValidateName_None_iff)
  then show ?thesis
    by cases (simp_all del: isBuiltin_iff, (rule exI, rule refl)+)
qed

lemma name_loop_accept:
  "accepts builtin name \<Longrightarrow> name \<notin> seen \<Longrightarrow> name_loop builtin role loc seen (name # rest) st =
     name_loop builtin role loc (insert name seen) rest (accept_name role name st)"
  by (auto simp: accepts_def ValidateName_None_iff)

lemma name_loop_inv:
  "cat_inv builtin Z st \<Longrightarrow>
     cat_inv builtin (\<lambda>n. Z n @ (if n \<in> set list \<and> n \<notin> seen \<and> accepts builtin n then [role] else []))
       (name_loop builtin role loc seen list st)"
proof (induction list arbitrary: Z seen st)
  case (Cons name rest)
  show ?case
  proof (cases "accepts builtin name \<and> name \<notin> seen")
    case True
    then have "cat_inv builtin (zone_add role name Z) (accept_name role name st)"
      using Cons.prems by (intro cat_inv_accept) (auto simp: accepts_def)
    from Cons.IH [OF this, of "insert name seen"]
    have "cat_inv builtin
        (\<lambda>n. zone_add role name Z n @ (if n \<in> set rest \<and> n \<notin> insert name seen \<and> accepts builtin n then [role] else []))
        (name_loop builtin role loc seen (name # rest) st)"
      using True by (simp add: name_loop_accept del: name_loop.simps)
    moreover have "(\<lambda>n. zone_add role name Z n @ (if n \<in> set rest \<and> n \<notin> insert name seen \<and> accepts builtin n then [role] else []))
        = (\<lambda>n. Z n @ (if n \<in> set (name # rest) \<and> n \<notin> seen \<and> accepts builtin n then [role] else []))"
      using True by (auto simp: zone_add_def)
    ultimately show ?thesis by simp
  next
    case False
    obtain msg where eq: "name_loop builtin role loc seen (name # rest) st =
        name_loop builtin role loc seen rest (add_finding loc msg st)"
      using name_loop_reject [OF False] by blast
    have "n \<in> set (name # rest) \<and> n \<notin> seen \<and> accepts builtin n \<longleftrightarrow>
        n \<in> set rest \<and> n \<notin> seen \<and> accepts builtin n" for n using False by auto
    with Cons.IH [of Z "add_finding loc msg st" seen] Cons.prems show ?thesis
      unfolding eq by simp
  qed
qed simp

lemma role_loop_inv:
  "cat_inv builtin Z st \<Longrightarrow>
     cat_inv builtin (\<lambda>n. Z n @ filter (declares builtin declared n) roles) (role_loop builtin declared roles st)"
proof (induction builtin declared roles st arbitrary: Z rule: role_loop.induct)
  case (2 builtin declared role roles st)
  show ?case
  proof (cases "declared (role_name role)")
    case None
    then have "\<not> declares builtin declared n role" for n by (simp add: declares_def)
    with 2(1) [OF None 2(3)] None show ?thesis by simp
  next
    case (Some l)
    then have d: "declares builtin declared n role \<longleftrightarrow> n \<in> set l \<and> n \<notin> {} \<and> accepts builtin n" for n
      by (auto simp: declares_def)
    have "(\<lambda>n. Z n @ filter (declares builtin declared n) (role # roles)) =
        (\<lambda>n. (Z n @ (if n \<in> set l \<and> n \<notin> {} \<and> accepts builtin n then [role] else []))
          @ filter (declares builtin declared n) roles)"
      by (simp add: d fun_eq_iff)
    with 2(2) [OF Some name_loop_inv [OF 2(3)]] Some show ?thesis by simp
  qed
qed simp

text \<open>Findings are only ever appended, and there are none exactly when the lists are in order.\<close>

definition names_ok :: "secret_spec list \<Rightarrow> string set \<Rightarrow> string list \<Rightarrow> bool" where
  "names_ok builtin seen list \<longleftrightarrow> list_all (accepts builtin) list \<and> distinct list \<and> set list \<inter> seen = {}"

lemma accept_name_findings [simp]: "csFindings (accept_name r n st) = csFindings st"
  by (simp add: accept_name_def split: option.splits)

lemma name_loop_findings:
  "\<exists>new. csFindings (name_loop builtin role loc seen list st) = csFindings st @ new \<and>
     (new = [] \<longleftrightarrow> names_ok builtin seen list)"
proof (induction list arbitrary: seen st)
  case (Cons name rest)
  show ?case
  proof (cases "accepts builtin name \<and> name \<notin> seen")
    case True
    have "names_ok builtin seen (name # rest) \<longleftrightarrow> names_ok builtin (insert name seen) rest"
      using True by (auto simp: names_ok_def)
    with True Cons [of "insert name seen" "accept_name role name st"] show ?thesis
      by (simp add: name_loop_accept del: name_loop.simps)
  next
    case False
    obtain msg where eq: "name_loop builtin role loc seen (name # rest) st =
        name_loop builtin role loc seen rest (add_finding loc msg st)"
      using name_loop_reject [OF False] by blast
    obtain new where "csFindings (name_loop builtin role loc seen rest (add_finding loc msg st))
        = csFindings (add_finding loc msg st) @ new" using Cons by blast
    moreover have "\<not> names_ok builtin seen (name # rest)" using False by (auto simp: names_ok_def)
    ultimately show ?thesis unfolding eq by (simp add: add_finding_def)
  qed
qed (simp add: names_ok_def)

definition lists_ok :: "secret_spec list \<Rightarrow> (string \<Rightarrow> string list option) \<Rightarrow> role list \<Rightarrow> bool" where
  "lists_ok builtin declared roles \<longleftrightarrow>
     (\<forall>r \<in> set roles. \<forall>l. declared (role_name r) = Some l \<longrightarrow> list_all (accepts builtin) l \<and> distinct l)"

lemma role_loop_findings:
  "\<exists>new. csFindings (role_loop builtin declared roles st) = csFindings st @ new \<and>
     (new = [] \<longleftrightarrow> lists_ok builtin declared roles)"
proof (induction builtin declared roles st rule: role_loop.induct)
  case (2 builtin declared role roles st)
  show ?case
  proof (cases "declared (role_name role)")
    case None
    with 2(1) show ?thesis by (simp add: lists_ok_def)
  next
    case (Some l)
    let ?loc = "''zones.'' @ role_name role @ ''.secrets''"
    obtain new1 where 1: "csFindings (name_loop builtin role ?loc {} l st) = csFindings st @ new1"
      "new1 = [] \<longleftrightarrow> names_ok builtin {} l" using name_loop_findings by blast
    obtain new2 where 2: "csFindings (role_loop builtin declared (role # roles) st) = csFindings st @ new1 @ new2"
      "new2 = [] \<longleftrightarrow> lists_ok builtin declared roles" using 2(2) [OF Some] 1(1) Some by auto
    have "lists_ok builtin declared (role # roles) \<longleftrightarrow> names_ok builtin {} l \<and> lists_ok builtin declared roles"
      using Some by (auto simp: lists_ok_def names_ok_def)
    with 1 2 show ?thesis by auto
  qed
qed (simp add: lists_ok_def)

lemma cat_inv_start:
  assumes "distinct (map sName builtin)"
  shows "cat_inv builtin (\<lambda>n. []) \<lparr>csEntries = builtin, csByName = index_entries 0 builtin Map.empty, csFindings = []\<rparr>"
  using index_entries_spec [of builtin Map.empty 0] assms
  by (intro cat_invI [where ns = "[]"]) simp_all

text \<open>
  The catalogue as a set: the built-in entries and one user entry for every
  acceptable name some zone declares.
\<close>

lemma NewCatalogue_spec:
  assumes dist: "distinct (map sName builtin)" and new: "NewCatalogue builtin declared = (c, fs)"
  shows "set c = set builtin \<union> {user_spec n (zones_of builtin declared n) | n. zones_of builtin declared n \<noteq> []}"
    and "sorted (map sName c)" and "distinct (map sName c)"
    and "fs = [] \<longleftrightarrow> lists_ok builtin declared Roles"
proof -
  let ?init = "\<lparr>csEntries = builtin, csByName = index_entries 0 builtin Map.empty, csFindings = []\<rparr>"
  let ?st = "role_loop builtin declared Roles ?init"
  have c: "c = sort_key sName (csEntries ?st)" and fs: "fs = csFindings ?st"
    using new by (simp_all add: NewCatalogue_def Let_def)
  have inv: "cat_inv builtin (zones_of builtin declared) ?st"
    using role_loop_inv [OF cat_inv_start [OF dist]] by (simp add: zones_of_def [abs_def])
  then obtain ns where ns: "csEntries ?st = builtin @ map (\<lambda>n. user_spec n (zones_of builtin declared n)) ns"
    "distinct (map sName (csEntries ?st))" "\<And>n. n \<in> set ns \<longleftrightarrow> zones_of builtin declared n \<noteq> []"
    unfolding cat_inv_def by blast
  show "set c = set builtin \<union> {user_spec n (zones_of builtin declared n) | n. zones_of builtin declared n \<noteq> []}"
    by (auto simp: c ns(1) ns(3))
  show "sorted (map sName c)" by (simp add: c)
  have "mset (map sName c) = mset (map sName (csEntries ?st))" by (simp add: c)
  then show "distinct (map sName c)" using ns(2) mset_eq_imp_distinct_iff by blast
  show "fs = [] \<longleftrightarrow> lists_ok builtin declared Roles"
    using role_loop_findings [of builtin declared Roles ?init] by (auto simp del: role_loop.simps simp: fs)
qed

lemma distinct_builtin: "distinct (map sName BuiltinSecrets)"
  by (simp add: BuiltinSecrets_def)

lemma builtin_user: "spec \<in> set BuiltinSecrets \<Longrightarrow> sSource spec \<noteq> User"
  by (auto simp: BuiltinSecrets_def)

lemma zones_of_set: "r \<in> set (zones_of builtin declared n) \<longleftrightarrow> declares builtin declared n r"
  by (simp add: zones_of_def)

lemma declares_zones: "declares builtin declared n r \<Longrightarrow> zones_of builtin declared n \<noteq> []"
  by (metis empty_iff empty_set zones_of_set)

text \<open>
  C39: the catalogue is sorted by name without repetitions; it holds exactly the
  built-in entries and, for every acceptable name that some zone declares, one
  user entry with the zones that declare it in zone order; there are no findings
  exactly when every declared list is free of malformed, built-in and repeated
  names.
\<close>

theorem catalogue_contents:
  assumes "NewCatalogue BuiltinSecrets declared = (c, fs)"
  shows "sorted (map sName c) \<and> distinct (map sName c) \<and>
    (\<forall>e. e \<in> set c \<longleftrightarrow> e \<in> set BuiltinSecrets \<or>
       (\<exists>n zs. e = user_spec n zs \<and> zs \<noteq> [] \<and> dns_label n \<and> n \<notin> sName ` set BuiltinSecrets \<and>
         zs = filter (\<lambda>r. \<exists>l. declared (role_name r) = Some l \<and> n \<in> set l) Roles)) \<and>
    (fs = [] \<longleftrightarrow> (\<forall>r l. declared (role_name r) = Some l \<longrightarrow>
       distinct l \<and> (\<forall>n \<in> set l. dns_label n \<and> n \<notin> sName ` set BuiltinSecrets)))"
proof (intro conjI allI)
  note spec = NewCatalogue_spec [OF distinct_builtin assms]
  show "sorted (map sName c)" "distinct (map sName c)" by (rule spec)+
  show "e \<in> set c \<longleftrightarrow> e \<in> set BuiltinSecrets \<or>
       (\<exists>n zs. e = user_spec n zs \<and> zs \<noteq> [] \<and> dns_label n \<and> n \<notin> sName ` set BuiltinSecrets \<and>
         zs = filter (\<lambda>r. \<exists>l. declared (role_name r) = Some l \<and> n \<in> set l) Roles)" for e
  proof -
    have z: "zones_of BuiltinSecrets declared n =
        (if accepts BuiltinSecrets n then filter (\<lambda>r. \<exists>l. declared (role_name r) = Some l \<and> n \<in> set l) Roles else [])" for n
      by (auto simp: zones_of_def declares_def intro: filter_cong)
    show ?thesis unfolding spec(1) z by (auto simp: accepts_def)
  qed
  show "fs = [] \<longleftrightarrow> (\<forall>r l. declared (role_name r) = Some l \<longrightarrow>
       distinct l \<and> (\<forall>n \<in> set l. dns_label n \<and> n \<notin> sName ` set BuiltinSecrets))"
    unfolding spec(4) lists_ok_def by (auto simp: list_all_iff accepts_def)
qed

definition example_declared :: "string \<Rightarrow> string list option" where
  "example_declared = [''services'' \<mapsto> [''openai-key'', ''litellm-salt-key''], ''agent'' \<mapsto> [''openai-key'']]"

theorem catalogue_contents_witness:
  "user_spec ''openai-key'' [Services, Agent] \<in> set (fst (NewCatalogue BuiltinSecrets example_declared)) \<and>
   snd (NewCatalogue BuiltinSecrets example_declared) \<noteq> []"
proof -
  obtain c fs where new: "NewCatalogue BuiltinSecrets example_declared = (c, fs)" by (rule prod.exhaust)
  have ok: "dns_label ''openai-key''" "''openai-key'' \<notin> sName ` set BuiltinSecrets"
    by (simp_all add: dns_label_def is_lower_def is_digit_def BuiltinSecrets_def)
  have zs: "filter (\<lambda>r. \<exists>l. example_declared (role_name r) = Some l \<and> ''openai-key'' \<in> set l) Roles = [Services, Agent]"
    by (simp add: example_declared_def Roles_def)
  have bad: "example_declared (role_name Services) = Some [''openai-key'', ''litellm-salt-key'']"
    "''litellm-salt-key'' \<in> sName ` set BuiltinSecrets"
    by (simp_all add: example_declared_def BuiltinSecrets_def)
  note contents = catalogue_contents [OF new]
  have "user_spec ''openai-key'' [Services, Agent] \<in> set c" using contents ok zs by fastforce
  moreover have "fs \<noteq> []" using contents bad by fastforce
  ultimately show ?thesis by (simp add: new)
qed

text \<open>What a zone consumes, once there are no findings.\<close>

lemma ForZone_names:
  assumes new: "NewCatalogue BuiltinSecrets declared = (c, [])"
  shows "sName ` set (ForZone c r) =
    {sName b | b. b \<in> set BuiltinSecrets \<and> r \<in> set (sZones b)} \<union>
    (case declared (role_name r) of None \<Rightarrow> {} | Some l \<Rightarrow> set l)"
proof -
  note spec = NewCatalogue_spec [OF distinct_builtin new]
  have ok: "declared (role_name r) = Some l \<Longrightarrow> n \<in> set l \<Longrightarrow> accepts BuiltinSecrets n" for l n
    using spec(4) by (auto simp: lists_ok_def list_all_iff)
  have "set (ForZone c r) = {b \<in> set BuiltinSecrets. r \<in> set (sZones b)} \<union>
      {user_spec n (zones_of BuiltinSecrets declared n) | n. declares BuiltinSecrets declared n r}"
    unfolding ForZone_filter set_filter UsedBy_iff spec(1)
    by (auto simp: zones_of_set dest: declares_zones)
  then have "sName ` set (ForZone c r) = {sName b | b. b \<in> set BuiltinSecrets \<and> r \<in> set (sZones b)} \<union>
      {n. declares BuiltinSecrets declared n r}"
    by (simp add: image_Un setcompr_eq_image image_image)
  moreover have "{n. declares BuiltinSecrets declared n r} =
      (case declared (role_name r) of None \<Rightarrow> {} | Some l \<Rightarrow> set l)"
    using ok by (auto simp: declares_def split: option.splits)
  ultimately show ?thesis by simp
qed

end
