(* ===== verification/Topologies.thy ===== *)
theory Topologies
  imports Catalogues
begin

text \<open>
  \<open>internal/domain/topology.go\<close>: what \<open>lclaw.toml\<close> describes, the networks a
  workload joins, and the validation that reports every problem. A Go map is an
  association list with distinct keys: the code never depends on its order.
\<close>

section \<open>Data\<close>

definition PlaybookFile :: string where "PlaybookFile = ''machine/playbook.yaml''"
definition Schema :: int where "Schema = 2"
definition DefaultKeychainPath :: string where
  "DefaultKeychainPath = ''~/Library/Keychains/lclaw.keychain-db''"
definition Providers :: "string list" where "Providers = [''libkrun'', ''applehv'']"

type_synonym workload = string

record machine_spec =
  msCPUs :: int
  msMemoryMiB :: int
  msDiskGiB :: int
  msVolumes :: "string list"

record zone_spec =
  zName :: string
  zInternal :: bool
  zWorkloads :: "workload list"
  zSecrets :: "string list"
  zBridges :: "(workload \<times> string list) list"

record topology =
  tSchema :: int
  tProvider :: string
  tKeychainPath :: string
  tMachine :: machine_spec
  tZones :: "zone_spec list"

definition go_map :: "('k \<times> 'v) list \<Rightarrow> bool" where
  "go_map m \<longleftrightarrow> distinct (map fst m)"

text \<open>Reading a map of slices: an absent key gives the nil slice.\<close>

definition map_slice :: "('k \<times> 'v list) list \<Rightarrow> 'k \<Rightarrow> 'v list" where
  "map_slice m k = (case map_of m k of None \<Rightarrow> [] | Some v \<Rightarrow> v)"

definition workload_dir :: "workload \<Rightarrow> string" where
  "workload_dir w = ''workloads/'' @ w"

definition PodFile :: "workload \<Rightarrow> string" where
  "PodFile w = workload_dir w @ ''/pod.yaml''"

definition ImageTag :: "workload \<Rightarrow> string" where
  "ImageTag w = ''localhost/lclaw/'' @ w @ '':latest''"

definition RequiredFiles :: "workload \<Rightarrow> string list" where
  "RequiredFiles w = [workload_dir w @ ''/Containerfile'', PodFile w, workload_dir w @ ''/.containerignore'']"

definition Workloads :: "topology \<Rightarrow> workload list" where
  "Workloads t = concat (map zWorkloads (tZones t))"

definition Zone :: "topology \<Rightarrow> role \<Rightarrow> zone_spec option" where
  "Zone t r = find (\<lambda>z. zName z = role_name r) (tZones t)"

text \<open>
  \<open>Networks\<close>: the zone's own network, then the bridged ones by the rank of their
  role. Ranks are distinct on the targets validation lets through, so the sort
  that is not stable has one possible result there.
\<close>

definition Networks :: "zone_spec \<Rightarrow> workload \<Rightarrow> string list" where
  "Networks z w =
     (''lclaw-'' @ zName z) # map (\<lambda>b. ''lclaw-'' @ b) (sort_key roleRank (map_slice (zBridges z) w))"

text \<open>A zone name that appears twice keeps the secrets of the last table, as the map write does.\<close>

fun declared_loop :: "zone_spec list \<Rightarrow> (string \<Rightarrow> string list option) \<Rightarrow> (string \<Rightarrow> string list option)" where
  "declared_loop [] m = m"
| "declared_loop (z # zs) m = declared_loop zs (m(zName z \<mapsto> zSecrets z))"

definition DeclaredSecrets :: "topology \<Rightarrow> (string \<Rightarrow> string list option)" where
  "DeclaredSecrets t = declared_loop (tZones t) Map.empty"

section \<open>Validation\<close>

fun valid_chars :: "nat \<Rightarrow> string \<Rightarrow> bool" where
  "valid_chars i [] = True"
| "valid_chars i (c # cs) =
     (if is_lower c \<or> is_digit c then valid_chars (Suc i) cs
      else if c = CHR ''-'' \<and> 0 < i then valid_chars (Suc i) cs
      else False)"

definition validWorkloadName :: "string \<Rightarrow> bool" where
  "validWorkloadName s \<longleftrightarrow> (if s = [] then False else valid_chars 0 s)"

text \<open>\<open>path.Base\<close>: the last element, after trailing slashes are removed.\<close>

definition path_base :: "string \<Rightarrow> string" where
  "path_base p =
     (if p = [] then ''.''
      else let q = dropWhile (\<lambda>c. c = CHR ''/'') (rev p)
           in if q = [] then ''/'' else rev (takeWhile (\<lambda>c. c \<noteq> CHR ''/'') q))"

record validation =
  vOut :: "finding list"
  vSeen :: "workload \<Rightarrow> string option"
  vCount :: "string \<Rightarrow> nat"
  vBridged :: "string set"

definition add :: "string \<Rightarrow> string \<Rightarrow> validation \<Rightarrow> validation" where
  "add loc msg v = v\<lparr>vOut := vOut v @ [\<lparr>fWhere = loc, fMessage = msg\<rparr>]\<rparr>"

definition add_if :: "bool \<Rightarrow> string \<Rightarrow> string \<Rightarrow> validation \<Rightarrow> validation" where
  "add_if b loc msg v = (if b then add loc msg v else v)"

definition check_schema :: "topology \<Rightarrow> validation \<Rightarrow> validation" where
  "check_schema t v =
     (if tSchema t = 1 then
        add ''schema'' (''schema 1 described three machines and is no longer supported; run `lclaw init --force` to write the schema '' @ itoa Schema @ '' file'') v
      else if tSchema t \<noteq> Schema then
        add ''schema'' (''must be '' @ itoa Schema @ '', got '' @ itoa (tSchema t)) v
      else v)"

definition check_provider :: "topology \<Rightarrow> validation \<Rightarrow> validation" where
  "check_provider t v =
     add_if (tProvider t \<notin> set Providers) ''provider''
       (''must be one of '' @ join_with '', '' Providers @ '', got '' @ quote (tProvider t)) v"

definition check_machine :: "machine_spec \<Rightarrow> validation \<Rightarrow> validation" where
  "check_machine m v =
     (let pos = (\<lambda>n. ''must be positive, got '' @ itoa n);
          v = add_if (msCPUs m \<le> 0) ''machine.cpus'' (pos (msCPUs m)) v;
          v = add_if (msMemoryMiB m \<le> 0) ''machine.memory-mib'' (pos (msMemoryMiB m)) v
      in add_if (msDiskGiB m \<le> 0) ''machine.disk-gib'' (pos (msDiskGiB m)) v)"

definition volume_ok :: "string \<Rightarrow> bool" where
  "volume_ok s \<longleftrightarrow> (case cut_at CHR '':'' s of (host, guest, ok) \<Rightarrow> ok \<and> prefix ''/'' host \<and> prefix ''/'' guest)"

fun check_volumes :: "nat \<Rightarrow> string list \<Rightarrow> validation \<Rightarrow> validation" where
  "check_volumes i [] v = v"
| "check_volumes i (s # ss) v =
     check_volumes (Suc i) ss
       (add_if (\<not> volume_ok s) (''machine.volumes['' @ itoa (int i) @ '']'')
          (quote s @ '' must be two absolute paths joined by a colon'') v)"

fun missing_files :: "(string \<Rightarrow> bool) \<Rightarrow> string list \<Rightarrow> string list" where
  "missing_files ex [] = []"
| "missing_files ex (f # fs) = (if \<not> ex f then path_base f # missing_files ex fs else missing_files ex fs)"

text \<open>The loop over the workloads of the zone \<open>zn\<close>; \<open>own\<close> is the set the loop fills.\<close>

fun workload_loop ::
  "(string \<Rightarrow> bool) \<Rightarrow> string \<Rightarrow> workload list \<Rightarrow> workload set \<Rightarrow> validation \<Rightarrow> workload set \<times> validation" where
  "workload_loop ex zn [] own v = (own, v)"
| "workload_loop ex zn (w # ws) own v =
     (let ww = ''zones.'' @ zn @ ''.workloads'' in
      if \<not> validWorkloadName w then
        workload_loop ex zn ws own
          (add ww (quote w @ '' is not a valid workload name; use lowercase letters, digits and hyphens'') v)
      else case vSeen v w of
        Some first \<Rightarrow>
          workload_loop ex zn ws own
            (if first = zn then add ww (quote w @ '' is listed twice'') v
             else add ww (quote w @ '' is also listed under zones.'' @ first) v)
      | None \<Rightarrow>
          (let missing = missing_files ex (RequiredFiles w)
           in workload_loop ex zn ws (insert w own)
                (add_if (missing \<noteq> []) ww (workload_dir w @ '' is missing '' @ join_with '', '' missing)
                   (v\<lparr>vSeen := (vSeen v)(w \<mapsto> zn)\<rparr>))))"

fun target_loop :: "string \<Rightarrow> string \<Rightarrow> string list \<Rightarrow> string set \<Rightarrow> validation \<Rightarrow> validation" where
  "target_loop zn bw [] targets v = v"
| "target_loop zn bw (t # ts) targets v =
     (if \<not> isRole t then
        target_loop zn bw ts targets (add bw (''unknown zone '' @ quote t @ ''; the zones are '' @ roleNames) v)
      else if t = zn then
        target_loop zn bw ts targets (add bw ''a workload already joins its own zone'' v)
      else if t \<in> targets then
        target_loop zn bw ts targets (add bw (quote t @ '' is listed twice'') v)
      else target_loop zn bw ts (insert t targets) (v\<lparr>vBridged := insert t (vBridged v)\<rparr>))"

fun bridge_loop :: "zone_spec \<Rightarrow> workload set \<Rightarrow> workload list \<Rightarrow> validation \<Rightarrow> validation" where
  "bridge_loop z own [] v = v"
| "bridge_loop z own (name # names) v =
     (let bw = ''zones.'' @ zName z @ ''.bridges.'' @ name in
      if name \<notin> own then
        bridge_loop z own names (add bw (quote name @ '' is not a workload of this zone'') v)
      else if zInternal z then
        bridge_loop z own names (add bw ''an internal zone bridges nothing out'' v)
      else bridge_loop z own names (target_loop (zName z) bw (map_slice (zBridges z) name) {} v))"

fun zone_loop :: "(string \<Rightarrow> bool) \<Rightarrow> zone_spec list \<Rightarrow> validation \<Rightarrow> validation" where
  "zone_loop ex [] v = v"
| "zone_loop ex (z # zs) v =
     (let v = v\<lparr>vCount := (vCount v)(zName z := Suc (vCount v (zName z)))\<rparr>;
          v = add_if (\<not> isRole (zName z)) (''zones.'' @ zName z) (''unknown zone; the zones are '' @ roleNames) v;
          (own, v) = workload_loop ex (zName z) (zWorkloads z) {} v
      in zone_loop ex zs (bridge_loop z own (sort (map fst (zBridges z))) v))"

fun count_check :: "role list \<Rightarrow> validation \<Rightarrow> validation" where
  "count_check [] v = v"
| "count_check (r # rs) v =
     (let n = vCount v (role_name r) in
      count_check rs
        (if n = 0 then add ''zones'' (''zones.'' @ role_name r @ '' is missing'') v
         else if 1 < n then
           add ''zones'' (''zones.'' @ role_name r @ '' appears '' @ itoa (int n) @ '' times'') v
         else v))"

fun internal_check :: "zone_spec list \<Rightarrow> validation \<Rightarrow> validation" where
  "internal_check [] v = v"
| "internal_check (z # zs) v =
     internal_check zs
       (add_if (zInternal z \<and> isRole (zName z) \<and> vCount v (zName z) = 1 \<and> zName z \<notin> vBridged v)
          (''zones.'' @ zName z @ ''.internal'')
          ''an internal zone must be the target of at least one bridge, or nothing can reach it'' v)"

definition Validate :: "topology \<Rightarrow> (string \<Rightarrow> bool) \<Rightarrow> finding list" where
  "Validate t exists =
     (let v = \<lparr>vOut = [], vSeen = Map.empty, vCount = (\<lambda>_. 0), vBridged = {}\<rparr>;
          v = check_schema t v;
          v = check_provider t v;
          v = check_machine (tMachine t) v;
          v = check_volumes 0 (msVolumes (tMachine t)) v;
          v = zone_loop exists (tZones t) v;
          v = count_check Roles v;
          v = internal_check (tZones t) v
      in vOut v @ snd (NewCatalogue BuiltinSecrets (DeclaredSecrets t)))"

section \<open>Each stage reports nothing exactly when its condition holds\<close>

text \<open>
  \<open>stage v v' C u\<close>: \<open>v'\<close> comes from \<open>v\<close> by appending findings, none exactly when
  \<open>C\<close> holds, and then \<open>v'\<close> is \<open>u\<close>. Stages compose.
\<close>

definition stage :: "validation \<Rightarrow> validation \<Rightarrow> bool \<Rightarrow> validation \<Rightarrow> bool" where
  "stage v v' C u \<longleftrightarrow> (\<exists>new. vOut v' = vOut v @ new \<and> (new = [] \<longleftrightarrow> C)) \<and> (C \<longrightarrow> v' = u)"

lemma stage_refl: "stage v v True v"
  by (simp add: stage_def)

lemma stage_add: "stage v (add loc msg v) False u"
  by (simp add: stage_def add_def)

lemma stage_add_if: "stage v (add_if b loc msg v) (\<not> b) v"
  by (auto simp: stage_def add_def add_if_def)

lemma stage_set:
  "vOut u = vOut v \<Longrightarrow> stage v u True u"
  by (simp add: stage_def)

lemma stage_trans: "stage v v1 C u1 \<Longrightarrow> stage v1 v2 D u2 \<Longrightarrow> stage v v2 (C \<and> D) u2"
  unfolding stage_def by (metis append.assoc append_is_Nil_conv)

lemma stage_cong:
  "stage v v' C u \<Longrightarrow> (C \<longleftrightarrow> C') \<Longrightarrow> (C' \<Longrightarrow> u = u') \<Longrightarrow> stage v v' C' u'"
  by (auto simp: stage_def)

lemma stage_eq: "stage v v' C u \<Longrightarrow> C \<Longrightarrow> v' = u"
  by (simp add: stage_def)

lemma stage_Nil_iff: "stage v v' C u \<Longrightarrow> vOut v = [] \<Longrightarrow> vOut v' = [] \<longleftrightarrow> C"
  by (auto simp: stage_def)

lemma missing_files_Nil [simp]: "missing_files ex fs = [] \<longleftrightarrow> list_all ex fs"
  by (induction fs) auto

lemma valid_chars_Suc: "valid_chars (Suc i) cs \<longleftrightarrow> list_all (\<lambda>c. is_lower c \<or> is_digit c \<or> c = CHR ''-'') cs"
  by (induction cs arbitrary: i) auto

lemma validWorkloadName_iff:
  "validWorkloadName s \<longleftrightarrow> s \<noteq> [] \<and> (\<forall>c \<in> set s. is_lower c \<or> is_digit c \<or> c = CHR ''-'') \<and> hd s \<noteq> CHR ''-''"
  by (cases s) (auto simp: validWorkloadName_def valid_chars_Suc list_all_iff is_lower_def is_digit_def)

lemma volume_ok_iff:
  "volume_ok s \<longleftrightarrow> (\<exists>host guest. s = host @ CHR '':'' # guest \<and> CHR '':'' \<notin> set host \<and>
     prefix ''/'' host \<and> prefix ''/'' guest)"
proof
  assume "volume_ok s"
  then obtain h g where "cut_at CHR '':'' s = (h, g, True)" "prefix ''/'' h" "prefix ''/'' g"
    by (auto simp: volume_ok_def split: prod.splits)
  then show "\<exists>host guest. s = host @ CHR '':'' # guest \<and> CHR '':'' \<notin> set host \<and>
      prefix ''/'' host \<and> prefix ''/'' guest" using cut_at_found by blast
qed (auto simp: volume_ok_def cut_at_append)

lemma stage_schema: "stage v (check_schema t v) (tSchema t = 2) v"
  by (simp add: check_schema_def Schema_def stage_add stage_refl)

lemma stage_provider: "stage v (check_provider t v) (tProvider t \<in> set Providers) v"
  using stage_add_if [of v "tProvider t \<notin> set Providers"] by (simp add: check_provider_def)

lemma stage_machine:
  "stage v (check_machine m v) (0 < msCPUs m \<and> 0 < msMemoryMiB m \<and> 0 < msDiskGiB m) v"
proof -
  let ?pos = "\<lambda>n. ''must be positive, got '' @ itoa n"
  let ?v1 = "add_if (msCPUs m \<le> 0) ''machine.cpus'' (?pos (msCPUs m)) v"
  let ?v2 = "add_if (msMemoryMiB m \<le> 0) ''machine.memory-mib'' (?pos (msMemoryMiB m)) ?v1"
  have 1: "stage v ?v1 (\<not> msCPUs m \<le> 0) v" by (rule stage_add_if)
  have 2: "stage ?v1 ?v2 (\<not> msMemoryMiB m \<le> 0) ?v1" by (rule stage_add_if)
  have 3: "stage ?v2 (check_machine m v) (\<not> msDiskGiB m \<le> 0) ?v2"
    unfolding check_machine_def Let_def by (rule stage_add_if)
  show ?thesis
    by (rule stage_cong [OF stage_trans [OF stage_trans [OF 1 2] 3]]) (auto simp: add_if_def)
qed

lemma stage_volumes: "stage v (check_volumes i ss v) (list_all volume_ok ss) v"
proof (induction ss arbitrary: i v)
  case (Cons s ss)
  let ?v1 = "add_if (\<not> volume_ok s) (''machine.volumes['' @ itoa (int i) @ '']'')
          (quote s @ '' must be two absolute paths joined by a colon'') v"
  have 1: "stage v ?v1 (\<not> \<not> volume_ok s) v" by (rule stage_add_if)
  have 2: "stage ?v1 (check_volumes i (s # ss) v) (list_all volume_ok ss) ?v1"
    using Cons by simp
  show ?case by (rule stage_cong [OF stage_trans [OF 1 2]]) (auto simp: add_if_def)
qed (simp add: stage_refl)

text \<open>The workloads of one zone.\<close>

definition workloads_ok :: "(string \<Rightarrow> bool) \<Rightarrow> workload list \<Rightarrow> workload set \<Rightarrow> bool" where
  "workloads_ok ex ws taken \<longleftrightarrow>
     list_all validWorkloadName ws \<and> distinct ws \<and> set ws \<inter> taken = {} \<and>
     (\<forall>w \<in> set ws. list_all ex (RequiredFiles w))"

fun see_all :: "string \<Rightarrow> workload list \<Rightarrow> (workload \<Rightarrow> string option) \<Rightarrow> (workload \<Rightarrow> string option)" where
  "see_all zn [] m = m"
| "see_all zn (w # ws) m = see_all zn ws (m(w \<mapsto> zn))"

lemma dom_see_all [simp]: "dom (see_all zn ws m) = dom m \<union> set ws"
  by (induction ws arbitrary: m) auto

lemma stage_workloads:
  "stage v (snd (workload_loop ex zn ws own v)) (workloads_ok ex ws (dom (vSeen v)))
      (v\<lparr>vSeen := see_all zn ws (vSeen v)\<rparr>) \<and>
   (workloads_ok ex ws (dom (vSeen v)) \<longrightarrow> fst (workload_loop ex zn ws own v) = own \<union> set ws)"
proof (induction ws arbitrary: own v)
  case Nil
  then show ?case by (simp add: workloads_ok_def stage_refl)
next
  case (Cons w ws)
  let ?ww = "''zones.'' @ zn @ ''.workloads''"
  show ?case
  proof (cases "validWorkloadName w \<and> vSeen v w = None")
    case False
    obtain msg where eq: "workload_loop ex zn (w # ws) own v = workload_loop ex zn ws own (add ?ww msg v)"
    proof (cases "validWorkloadName w")
      case True
      with False obtain a where a: "vSeen v w = Some a" by auto
      show thesis by (cases "a = zn") (rule that, simp add: True a Let_def)+
    qed (rule that, simp add: Let_def)
    have bad: "\<not> workloads_ok ex (w # ws) (dom (vSeen v))"
      using False by (auto simp: workloads_ok_def)
    from Cons [of "add ?ww msg v" own] have
      "stage (add ?ww msg v) (snd (workload_loop ex zn (w # ws) own v))
        (workloads_ok ex ws (dom (vSeen (add ?ww msg v))))
        ((add ?ww msg v)\<lparr>vSeen := see_all zn ws (vSeen (add ?ww msg v))\<rparr>)"
      unfolding eq by blast
    from stage_trans [OF stage_add this] bad show ?thesis by (auto intro: stage_cong)
  next
    case True
    let ?v0 = "v\<lparr>vSeen := (vSeen v)(w \<mapsto> zn)\<rparr>"
    let ?m = "missing_files ex (RequiredFiles w)"
    let ?v1 = "add_if (?m \<noteq> []) ?ww (workload_dir w @ '' is missing '' @ join_with '', '' ?m) ?v0"
    have eq: "workload_loop ex zn (w # ws) own v = workload_loop ex zn ws (insert w own) ?v1"
      using True by (simp add: Let_def)
    have 1: "stage v ?v0 True ?v0" by (rule stage_set) simp
    have 2: "stage ?v0 ?v1 (\<not> ?m \<noteq> []) ?v0" by (rule stage_add_if)
    have seen: "vSeen ?v1 = (vSeen v)(w \<mapsto> zn)" by (simp add: add_if_def add_def)
    have d: "dom ((vSeen v)(w \<mapsto> zn)) = insert w (dom (vSeen v))" by simp
    note IH = Cons [of ?v1 "insert w own", folded eq, unfolded seen d]
    have ok: "workloads_ok ex (w # ws) (dom (vSeen v)) \<longleftrightarrow>
        list_all ex (RequiredFiles w) \<and> workloads_ok ex ws (insert w (dom (vSeen v)))"
      using True by (auto simp: workloads_ok_def)
    show ?thesis
    proof
      show "stage v (snd (workload_loop ex zn (w # ws) own v)) (workloads_ok ex (w # ws) (dom (vSeen v)))
          (v\<lparr>vSeen := see_all zn (w # ws) (vSeen v)\<rparr>)"
        by (rule stage_cong [OF stage_trans [OF stage_trans [OF 1 2] IH [THEN conjunct1]]])
          (simp_all add: ok add_if_def del: fun_upd_apply)
      show "workloads_ok ex (w # ws) (dom (vSeen v)) \<longrightarrow>
          fst (workload_loop ex zn (w # ws) own v) = own \<union> set (w # ws)"
        using IH ok by auto
    qed
  qed
qed

text \<open>The targets of one bridge, the bridges of one zone.\<close>

definition targets_ok :: "string \<Rightarrow> string list \<Rightarrow> string set \<Rightarrow> bool" where
  "targets_ok zn ts taken \<longleftrightarrow> distinct ts \<and> set ts \<inter> taken = {} \<and> (\<forall>t \<in> set ts. isRole t \<and> t \<noteq> zn)"

lemma stage_targets:
  "stage v (target_loop zn bw ts targets v) (targets_ok zn ts targets)
     (v\<lparr>vBridged := vBridged v \<union> set ts\<rparr>)"
proof (induction ts arbitrary: targets v)
  case Nil
  then show ?case by (simp add: targets_ok_def stage_refl)
next
  case (Cons t ts)
  show ?case
  proof (cases "isRole t \<and> t \<noteq> zn \<and> t \<notin> targets")
    case False
    obtain msg where eq: "target_loop zn bw (t # ts) targets v = target_loop zn bw ts targets (add bw msg v)"
    proof (cases "\<not> isRole t \<or> t = zn")
      case True
      then show thesis using that by (cases "isRole t") auto
    qed (use False that in auto)
    have "\<not> targets_ok zn (t # ts) targets" using False by (auto simp: targets_ok_def)
    then show ?thesis
      unfolding eq by (intro stage_cong [OF stage_trans [OF stage_add Cons]]) auto
  next
    case True
    let ?v0 = "v\<lparr>vBridged := insert t (vBridged v)\<rparr>"
    have 1: "stage v ?v0 True ?v0" by (rule stage_set) simp
    have ok: "targets_ok zn (t # ts) targets \<longleftrightarrow> targets_ok zn ts (insert t targets)"
      using True by (auto simp: targets_ok_def)
    show ?thesis
      using stage_cong [OF stage_trans [OF 1 Cons [of ?v0 "insert t targets"]]] True ok by simp
  qed
qed

definition bridges_ok :: "zone_spec \<Rightarrow> workload set \<Rightarrow> workload list \<Rightarrow> bool" where
  "bridges_ok z own names \<longleftrightarrow>
     (\<forall>n \<in> set names. n \<in> own \<and> \<not> zInternal z \<and> targets_ok (zName z) (map_slice (zBridges z) n) {})"

definition targets_of :: "zone_spec \<Rightarrow> workload list \<Rightarrow> string set" where
  "targets_of z names = (\<Union>n \<in> set names. set (map_slice (zBridges z) n))"

lemma stage_bridges:
  "stage v (bridge_loop z own names v) (bridges_ok z own names)
     (v\<lparr>vBridged := vBridged v \<union> targets_of z names\<rparr>)"
proof (induction names arbitrary: v)
  case Nil
  then show ?case by (simp add: bridges_ok_def targets_of_def stage_refl)
next
  case (Cons n names)
  let ?bw = "''zones.'' @ zName z @ ''.bridges.'' @ n"
  show ?case
  proof (cases "n \<in> own \<and> \<not> zInternal z")
    case False
    obtain msg where eq: "bridge_loop z own (n # names) v = bridge_loop z own names (add ?bw msg v)"
      using False that by (cases "n \<in> own") (auto simp: Let_def)
    have "\<not> bridges_ok z own (n # names)" using False by (auto simp: bridges_ok_def)
    then show ?thesis
      unfolding eq by (intro stage_cong [OF stage_trans [OF stage_add Cons]]) auto
  next
    case True
    let ?ts = "map_slice (zBridges z) n"
    have ok: "bridges_ok z own (n # names) \<longleftrightarrow> targets_ok (zName z) ?ts {} \<and> bridges_ok z own names"
      using True by (auto simp: bridges_ok_def)
    let ?v1 = "target_loop (zName z) ?bw ?ts {} v"
    have eq: "bridge_loop z own (n # names) v = bridge_loop z own names ?v1"
      using True by (simp add: Let_def)
    note 1 = stage_targets [of v "zName z" ?bw ?ts "{}"] and 2 = Cons [of ?v1]
    show ?thesis unfolding eq
    proof (rule stage_cong [OF stage_trans [OF 1 2]])
      assume "bridges_ok z own (n # names)"
      then have "?v1 = v\<lparr>vBridged := vBridged v \<union> set ?ts\<rparr>"
        using stage_eq [OF 1] ok by simp
      then show "?v1\<lparr>vBridged := vBridged ?v1 \<union> targets_of z names\<rparr> =
          v\<lparr>vBridged := vBridged v \<union> targets_of z (n # names)\<rparr>"
        by (simp add: targets_of_def Un_assoc)
    qed (simp add: ok)
  qed
qed

text \<open>One zone after the other.\<close>

definition zone_ok :: "(string \<Rightarrow> bool) \<Rightarrow> zone_spec \<Rightarrow> workload set \<Rightarrow> bool" where
  "zone_ok ex z taken \<longleftrightarrow> isRole (zName z) \<and> workloads_ok ex (zWorkloads z) taken \<and>
     bridges_ok z (set (zWorkloads z)) (map fst (zBridges z))"

fun zones_ok :: "(string \<Rightarrow> bool) \<Rightarrow> zone_spec list \<Rightarrow> workload set \<Rightarrow> bool" where
  "zones_ok ex [] taken = True"
| "zones_ok ex (z # zs) taken = (zone_ok ex z taken \<and> zones_ok ex zs (taken \<union> set (zWorkloads z)))"

definition zone_effect :: "zone_spec \<Rightarrow> validation \<Rightarrow> validation" where
  "zone_effect z v =
     v\<lparr>vSeen := see_all (zName z) (zWorkloads z) (vSeen v),
       vCount := (vCount v)(zName z := Suc (vCount v (zName z))),
       vBridged := vBridged v \<union> targets_of z (map fst (zBridges z))\<rparr>"

definition zone_step :: "(string \<Rightarrow> bool) \<Rightarrow> zone_spec \<Rightarrow> validation \<Rightarrow> validation" where
  "zone_step ex z v =
     (let v = v\<lparr>vCount := (vCount v)(zName z := Suc (vCount v (zName z)))\<rparr>;
          v = add_if (\<not> isRole (zName z)) (''zones.'' @ zName z) (''unknown zone; the zones are '' @ roleNames) v;
          (own, v) = workload_loop ex (zName z) (zWorkloads z) {} v
      in bridge_loop z own (sort (map fst (zBridges z))) v)"

lemma zone_loop_step: "zone_loop ex (z # zs) v = zone_loop ex zs (zone_step ex z v)"
  by (simp add: zone_step_def Let_def split: prod.splits)

lemma bridges_ok_cong: "set ns = set ms \<Longrightarrow> bridges_ok z own ns = bridges_ok z own ms"
  by (simp add: bridges_ok_def)

lemma targets_of_cong: "set ns = set ms \<Longrightarrow> targets_of z ns = targets_of z ms"
  by (simp add: targets_of_def)

lemma stage_zone: "stage v (zone_step ex z v) (zone_ok ex z (dom (vSeen v))) (zone_effect z v)"
proof -
  let ?v0 = "v\<lparr>vCount := (vCount v)(zName z := Suc (vCount v (zName z)))\<rparr>"
  let ?v1 = "add_if (\<not> isRole (zName z)) (''zones.'' @ zName z) (''unknown zone; the zones are '' @ roleNames) ?v0"
  let ?w = "workload_loop ex (zName z) (zWorkloads z) {} ?v1"
  let ?names = "sort (map fst (zBridges z))"
  have 0: "stage v ?v0 True ?v0" by (rule stage_set) simp
  have 1: "stage ?v0 ?v1 (\<not> \<not> isRole (zName z)) ?v0" by (rule stage_add_if)
  have seen: "vSeen ?v1 = vSeen v" by (simp add: add_if_def add_def)
  note wl = stage_workloads [of ?v1 ex "zName z" "zWorkloads z" "{}", unfolded seen]
  have 3: "stage (snd ?w) (zone_step ex z v) (bridges_ok z (fst ?w) ?names)
      (snd ?w\<lparr>vBridged := vBridged (snd ?w) \<union> targets_of z ?names\<rparr>)"
    using stage_bridges [of "snd ?w" z "fst ?w" ?names] by (simp add: zone_step_def Let_def case_prod_beta)
  have s: "set ?names = set (map fst (zBridges z))" by simp
  show ?thesis
  proof (rule stage_cong [OF stage_trans [OF stage_trans [OF stage_trans [OF 0 1] wl [THEN conjunct1]] 3]])
    show "((True \<and> \<not> \<not> isRole (zName z)) \<and> workloads_ok ex (zWorkloads z) (dom (vSeen v))) \<and>
        bridges_ok z (fst ?w) ?names \<longleftrightarrow> zone_ok ex z (dom (vSeen v))"
      using wl bridges_ok_cong [OF s] by (auto simp: zone_ok_def)
    assume ok: "zone_ok ex z (dom (vSeen v))"
    then have "snd ?w = ?v1\<lparr>vSeen := see_all (zName z) (zWorkloads z) (vSeen v)\<rparr>" "?v1 = ?v0"
      using stage_eq [OF wl [THEN conjunct1]] by (simp_all add: zone_ok_def add_if_def)
    then show "snd ?w\<lparr>vBridged := vBridged (snd ?w) \<union> targets_of z ?names\<rparr> = zone_effect z v"
      by (simp add: zone_effect_def targets_of_cong [OF s])
  qed
qed

lemma stage_zones:
  "stage v (zone_loop ex zs v) (zones_ok ex zs (dom (vSeen v))) (fold zone_effect zs v)"
proof (induction zs arbitrary: v)
  case (Cons z zs)
  have "zone_step ex z v = zone_effect z v" if "zone_ok ex z (dom (vSeen v))"
    using stage_eq [OF stage_zone that] .
  moreover have "dom (vSeen (zone_effect z v)) = dom (vSeen v) \<union> set (zWorkloads z)"
    by (simp add: zone_effect_def)
  ultimately show ?case
    unfolding zone_loop_step
    by (intro stage_cong [OF stage_trans [OF stage_zone Cons]]) auto
qed (simp add: stage_refl)

lemma fold_zone_effect:
  "vCount (fold zone_effect zs v) n = vCount v n + count_list (map zName zs) n"
  "vBridged (fold zone_effect zs v) = vBridged v \<union> (\<Union>z \<in> set zs. targets_of z (map fst (zBridges z)))"
  by (induction zs arbitrary: v) (auto simp: zone_effect_def)

lemma stage_counts: "stage v (count_check rs v) (\<forall>r \<in> set rs. vCount v (role_name r) = 1) v"
proof (induction rs arbitrary: v)
  case (Cons r rs)
  let ?n = "vCount v (role_name r)"
  let ?v1 = "if ?n = 0 then add ''zones'' (''zones.'' @ role_name r @ '' is missing'') v
         else if 1 < ?n then add ''zones'' (''zones.'' @ role_name r @ '' appears '' @ itoa (int ?n) @ '' times'') v
         else v"
  have 1: "stage v ?v1 (?n = 1) v" by (auto intro: stage_add stage_refl)
  have 2: "stage ?v1 (count_check (r # rs) v) (\<forall>r \<in> set rs. vCount ?v1 (role_name r) = 1) ?v1"
    using Cons [of ?v1] by (simp only: count_check.simps Let_def)
  have c: "vCount ?v1 = vCount v" by (simp add: add_def)
  show ?case
    by (rule stage_cong [OF stage_trans [OF 1 2]]) (auto simp: c)
qed (simp add: stage_refl)

definition reachable_internal :: "validation \<Rightarrow> zone_spec \<Rightarrow> bool" where
  "reachable_internal v z \<longleftrightarrow>
     (zInternal z \<and> isRole (zName z) \<and> vCount v (zName z) = 1 \<longrightarrow> zName z \<in> vBridged v)"

lemma stage_internal: "stage v (internal_check zs v) (\<forall>z \<in> set zs. reachable_internal v z) v"
proof (induction zs arbitrary: v)
  case (Cons z zs)
  let ?v1 = "add_if (zInternal z \<and> isRole (zName z) \<and> vCount v (zName z) = 1 \<and> zName z \<notin> vBridged v)
          (''zones.'' @ zName z @ ''.internal'')
          ''an internal zone must be the target of at least one bridge, or nothing can reach it'' v"
  have 1: "stage v ?v1 (\<not> (zInternal z \<and> isRole (zName z) \<and> vCount v (zName z) = 1 \<and> zName z \<notin> vBridged v)) v"
    by (rule stage_add_if)
  have 2: "stage ?v1 (internal_check (z # zs) v) (\<forall>z \<in> set zs. reachable_internal ?v1 z) ?v1"
    using Cons [of ?v1] by (simp only: internal_check.simps)
  have c: "reachable_internal ?v1 = reachable_internal v"
    by (auto simp: reachable_internal_def add_if_def add_def)
  show ?case
    by (rule stage_cong [OF stage_trans [OF 1 2]]) (auto simp: c reachable_internal_def [of v z] add_if_def)
qed (simp add: stage_refl)

section \<open>Validation decides well-formedness\<close>

text \<open>
  The design's rules, stated over the topology alone: no counters, no sets filled
  by loops, no order of checks.
\<close>

definition bridge_ok :: "zone_spec \<Rightarrow> workload \<times> string list \<Rightarrow> bool" where
  "bridge_ok z b \<longleftrightarrow> fst b \<in> set (zWorkloads z) \<and> \<not> zInternal z \<and> distinct (snd b) \<and>
     (\<forall>t \<in> set (snd b). t \<in> range role_name \<and> t \<noteq> zName z)"

definition settings_ok :: "topology \<Rightarrow> bool" where
  "settings_ok t \<longleftrightarrow>
     tSchema t = 2 \<and> tProvider t \<in> {''libkrun'', ''applehv''} \<and>
     0 < msCPUs (tMachine t) \<and> 0 < msMemoryMiB (tMachine t) \<and> 0 < msDiskGiB (tMachine t) \<and>
     (\<forall>s \<in> set (msVolumes (tMachine t)). \<exists>host guest. s = host @ CHR '':'' # guest \<and>
        CHR '':'' \<notin> set host \<and> prefix ''/'' host \<and> prefix ''/'' guest)"

definition internal_reached :: "topology \<Rightarrow> bool" where
  "internal_reached t \<longleftrightarrow> (\<forall>z \<in> set (tZones t). zInternal z \<longrightarrow>
     (\<exists>y \<in> set (tZones t). \<exists>b \<in> set (zBridges y). zName z \<in> set (snd b)))"

definition secrets_ok :: "topology \<Rightarrow> bool" where
  "secrets_ok t \<longleftrightarrow> (\<forall>z \<in> set (tZones t). distinct (zSecrets z) \<and>
     (\<forall>n \<in> set (zSecrets z). dns_label n \<and> n \<notin> sName ` set BuiltinSecrets))"

definition topology_ok :: "topology \<Rightarrow> (string \<Rightarrow> bool) \<Rightarrow> bool" where
  "topology_ok t ex \<longleftrightarrow>
     settings_ok t \<and>
     distinct (map zName (tZones t)) \<and> set (map zName (tZones t)) = range role_name \<and>
     distinct (Workloads t) \<and>
     (\<forall>w \<in> set (Workloads t). validWorkloadName w \<and> (\<forall>f \<in> set (RequiredFiles w). ex f)) \<and>
     (\<forall>z \<in> set (tZones t). \<forall>b \<in> set (zBridges z). bridge_ok z b) \<and>
     internal_reached t \<and> secrets_ok t"

definition go_topology :: "topology \<Rightarrow> bool" where
  "go_topology t \<longleftrightarrow> (\<forall>z \<in> set (tZones t). go_map (zBridges z))"

lemma map_slice_in: "go_map m \<Longrightarrow> (k, v) \<in> set m \<Longrightarrow> map_slice m k = v"
  by (simp add: map_slice_def go_map_def)

lemma map_slice_cases: "map_slice m k = [] \<or> (k, map_slice m k) \<in> set m"
  by (auto simp: map_slice_def split: option.splits dest: map_of_SomeD)

lemma bridges_ok_iff:
  assumes "go_map (zBridges z)"
  shows "bridges_ok z (set (zWorkloads z)) (map fst (zBridges z)) \<longleftrightarrow> (\<forall>b \<in> set (zBridges z). bridge_ok z b)"
  using map_slice_in [OF assms]
  by (force simp: bridges_ok_def bridge_ok_def targets_ok_def isRole_iff)

lemma targets_of_iff:
  assumes "go_map (zBridges z)"
  shows "targets_of z (map fst (zBridges z)) = (\<Union>b \<in> set (zBridges z). set (snd b))"
  using map_slice_in [OF assms] by (force simp: targets_of_def)

lemma zones_ok_iff:
  assumes "\<forall>z \<in> set zs. go_map (zBridges z)"
  shows "zones_ok ex zs taken \<longleftrightarrow>
    (\<forall>z \<in> set zs. isRole (zName z) \<and> (\<forall>b \<in> set (zBridges z). bridge_ok z b)) \<and>
    workloads_ok ex (concat (map zWorkloads zs)) taken"
  using assms
proof (induction zs arbitrary: taken)
  case (Cons z zs)
  define ws rest where "ws = zWorkloads z" and "rest = concat (map zWorkloads zs)"
  have split: "workloads_ok ex (ws @ rest) taken \<longleftrightarrow>
      workloads_ok ex ws taken \<and> workloads_ok ex rest (taken \<union> set ws)"
    by (auto simp: workloads_ok_def)
  have "bridges_ok z (set (zWorkloads z)) (map fst (zBridges z)) \<longleftrightarrow> (\<forall>b \<in> set (zBridges z). bridge_ok z b)"
    using Cons.prems by (intro bridges_ok_iff) simp
  note b = this [folded ws_def]
  have IH: "zones_ok ex zs (taken \<union> set ws) \<longleftrightarrow>
    (\<forall>z \<in> set zs. isRole (zName z) \<and> (\<forall>b \<in> set (zBridges z). bridge_ok z b)) \<and>
    workloads_ok ex rest (taken \<union> set ws)"
    unfolding rest_def by (rule Cons.IH) (use Cons.prems in simp)
  have c: "concat (map zWorkloads (z # zs)) = ws @ rest" by (simp add: ws_def rest_def)
  show ?case
    unfolding zones_ok.simps zone_ok_def c split ws_def [symmetric] b IH by auto
qed (simp add: workloads_ok_def)

lemma declared_loop_in:
  "distinct (map zName zs) \<Longrightarrow> declared_loop zs m n =
     (case find (\<lambda>z. zName z = n) zs of None \<Rightarrow> m n | Some z \<Rightarrow> Some (zSecrets z))"
proof (induction zs arbitrary: m)
  case (Cons z zs)
  then have "n = zName z \<Longrightarrow> find (\<lambda>y. zName y = n) zs = None"
    by (force simp: find_None_iff image_iff)
  with Cons show ?case by (auto split: option.splits)
qed simp

lemma DeclaredSecrets_iff:
  assumes "distinct (map zName (tZones t))"
  shows "DeclaredSecrets t n = Some l \<longleftrightarrow> (\<exists>z \<in> set (tZones t). zName z = n \<and> zSecrets z = l)"
proof (cases "find (\<lambda>z. zName z = n) (tZones t)")
  case None
  then have "DeclaredSecrets t n = None" using assms by (simp add: DeclaredSecrets_def declared_loop_in)
  with None show ?thesis by (auto simp: find_None_iff)
next
  case (Some y)
  then have "y \<in> set (tZones t)" "zName y = n" by (auto simp: find_Some_iff)
  with assms Some show ?thesis
    by (auto simp: DeclaredSecrets_def declared_loop_in distinct_map inj_on_def)
qed

lemma distinct_count_one: "distinct ns \<longleftrightarrow> (\<forall>n \<in> set ns. count_list ns n = 1)"
  by (induction ns) (auto simp: count_list_0_iff)

lemma count_one_roles:
  assumes "\<forall>n \<in> set ns. isRole n"
  shows "(\<forall>r \<in> set Roles. count_list ns (role_name r) = 1) \<longleftrightarrow> distinct ns \<and> set ns = range role_name"
proof
  assume c: "\<forall>r \<in> set Roles. count_list ns (role_name r) = 1"
  then have "role_name r \<in> set ns" for r using count_notin [of "role_name r" ns] by force
  moreover have "n \<in> range role_name" if "n \<in> set ns" for n using assms that by (auto simp: isRole_iff)
  ultimately have "set ns = range role_name" by auto
  with c show "distinct ns \<and> set ns = range role_name" by (auto simp: distinct_count_one)
qed (auto simp: distinct_count_one)

text \<open>All the stages but the secrets.\<close>

definition start_validation :: validation where
  "start_validation = \<lparr>vOut = [], vSeen = Map.empty, vCount = (\<lambda>_. 0), vBridged = {}\<rparr>"

definition check_settings :: "topology \<Rightarrow> validation \<Rightarrow> validation" where
  "check_settings t v =
     check_volumes 0 (msVolumes (tMachine t)) (check_machine (tMachine t) (check_provider t (check_schema t v)))"

lemma stage_settings: "stage v (check_settings t v) (settings_ok t) v"
proof -
  note st = stage_trans [OF stage_trans [OF stage_trans [OF stage_schema stage_provider] stage_machine] stage_volumes]
  show ?thesis unfolding check_settings_def
  proof (rule stage_cong [OF st])
    show "((tSchema t = 2 \<and> tProvider t \<in> set Providers) \<and>
        0 < msCPUs (tMachine t) \<and> 0 < msMemoryMiB (tMachine t) \<and> 0 < msDiskGiB (tMachine t)) \<and>
        list_all volume_ok (msVolumes (tMachine t)) \<longleftrightarrow> settings_ok t"
      by (simp add: settings_ok_def Providers_def list_all_iff volume_ok_iff)
    assume ok: "settings_ok t"
    then have "check_schema t v = v" "check_provider t v = v" "check_machine (tMachine t) v = v"
      by (simp_all add: settings_ok_def check_schema_def Schema_def check_provider_def Providers_def
          check_machine_def add_if_def)
    then show "check_machine (tMachine t) (check_provider t (check_schema t v)) = v" by simp
  qed
qed

lemma Validate_stages:
  obtains v :: validation where "Validate t ex = vOut v @ snd (NewCatalogue BuiltinSecrets (DeclaredSecrets t))"
    and "vOut v = [] \<longleftrightarrow> settings_ok t \<and> zones_ok ex (tZones t) {} \<and>
       (\<forall>r \<in> set Roles. count_list (map zName (tZones t)) (role_name r) = 1) \<and>
       (\<forall>z \<in> set (tZones t). reachable_internal (fold zone_effect (tZones t) start_validation) z)"
proof -
  let ?v0 = start_validation and ?f = "fold zone_effect (tZones t) start_validation"
  let ?v4 = "check_settings t ?v0"
  let ?v5 = "zone_loop ex (tZones t) ?v4"
  let ?v6 = "count_check Roles ?v5"
  let ?v7 = "internal_check (tZones t) ?v6"
  have V: "Validate t ex = vOut ?v7 @ snd (NewCatalogue BuiltinSecrets (DeclaredSecrets t))"
    by (simp add: Validate_def start_validation_def check_settings_def Let_def)
  note 4 = stage_settings [of ?v0 t] and 5 = stage_zones [of ?v4 ex "tZones t"]
    and 6 = stage_counts [of ?v5 Roles] and 7 = stage_internal [of ?v6 "tZones t"]
  have d: "dom (vSeen ?v0) = {}" and out0: "vOut ?v0 = []" by (simp_all add: start_validation_def)
  have cnt: "vCount ?f n = count_list (map zName (tZones t)) n" for n
    by (simp add: fold_zone_effect start_validation_def)
  have out: "vOut ?v7 = [] \<longleftrightarrow> settings_ok t \<and> zones_ok ex (tZones t) (dom (vSeen ?v4)) \<and>
      (\<forall>r \<in> set Roles. vCount ?v5 (role_name r) = 1) \<and> (\<forall>z \<in> set (tZones t). reachable_internal ?v6 z)"
    using stage_Nil_iff [OF stage_trans [OF stage_trans [OF stage_trans [OF 4 5] 6] 7] out0] by simp
  have e4: "settings_ok t \<Longrightarrow> ?v4 = ?v0" by (rule stage_eq [OF 4])
  have e5: "?v4 = ?v0 \<Longrightarrow> zones_ok ex (tZones t) {} \<Longrightarrow> ?v5 = ?f" using stage_eq [OF 5] d by simp
  have e6: "\<forall>r \<in> set Roles. vCount ?v5 (role_name r) = 1 \<Longrightarrow> ?v6 = ?v5" by (rule stage_eq [OF 6])
  show thesis
    by (rule that [OF V], unfold out) (use e4 e5 e6 d cnt in \<open>metis (no_types, lifting)\<close>)
qed

lemma conj_chain:
  assumes "Z \<Longrightarrow> C = N" "Z \<Longrightarrow> N \<Longrightarrow> R = I" "N \<Longrightarrow> F = S"
  shows "((A \<and> Z \<and> C \<and> R) \<and> F) = (A \<and> Z \<and> N \<and> I \<and> S)"
  using assms by blast

definition zone_names_once :: "topology \<Rightarrow> bool" where
  "zone_names_once t \<longleftrightarrow> distinct (map zName (tZones t)) \<and> set (map zName (tZones t)) = range role_name"

lemma internal_stage_iff:
  assumes t: "go_topology t" and n: "zone_names_once t" and r: "\<forall>z \<in> set (tZones t). isRole (zName z)"
  shows "(\<forall>z \<in> set (tZones t). reachable_internal (fold zone_effect (tZones t) start_validation) z) \<longleftrightarrow>
    internal_reached t"
proof -
  let ?f = "fold zone_effect (tZones t) start_validation"
  have "vCount ?f (zName z) = 1" if "z \<in> set (tZones t)" for z
    using n that unfolding zone_names_once_def distinct_count_one
    by (auto simp: fold_zone_effect start_validation_def)
  moreover have "vBridged ?f = (\<Union>z \<in> set (tZones t). \<Union>b \<in> set (zBridges z). set (snd b))"
    using t by (auto simp: go_topology_def fold_zone_effect start_validation_def targets_of_iff)
  ultimately show ?thesis using r by (auto simp: reachable_internal_def internal_reached_def)
qed

lemma secret_findings_iff:
  assumes n: "zone_names_once t"
  shows "snd (NewCatalogue BuiltinSecrets (DeclaredSecrets t)) = [] \<longleftrightarrow> secrets_ok t"
proof -
  obtain c fs where new: "NewCatalogue BuiltinSecrets (DeclaredSecrets t) = (c, fs)" by fastforce
  have "(\<forall>r l. DeclaredSecrets t (role_name r) = Some l \<longrightarrow> P l) \<longleftrightarrow> (\<forall>z \<in> set (tZones t). P (zSecrets z))" for P
    using n by (auto simp: zone_names_once_def DeclaredSecrets_iff)
  then show ?thesis
    using NewCatalogue_spec(4) [OF distinct_builtin new]
    by (simp add: new lists_ok_def secrets_ok_def list_all_iff accepts_def conj_commute)
qed

lemma Validate_nil_iff:
  assumes "go_topology t"
  shows "Validate t exists = [] \<longleftrightarrow> topology_ok t exists"
proof -
  define Z where "Z \<longleftrightarrow> (\<forall>z \<in> set (tZones t). isRole (zName z) \<and> (\<forall>b \<in> set (zBridges z). bridge_ok z b)) \<and>
    workloads_ok exists (Workloads t) {}"
  have Z: "zones_ok exists (tZones t) {} \<longleftrightarrow> Z"
    unfolding Z_def Workloads_def using assms by (intro zones_ok_iff) (simp add: go_topology_def)
  have cnt: "(\<forall>r \<in> set Roles. count_list (map zName (tZones t)) (role_name r) = 1) \<longleftrightarrow> zone_names_once t"
    if Z unfolding zone_names_once_def by (rule count_one_roles) (use that in \<open>auto simp: Z_def\<close>)
  obtain v :: validation where V: "Validate t exists = vOut v @ snd (NewCatalogue BuiltinSecrets (DeclaredSecrets t))"
    and out: "vOut v = [] \<longleftrightarrow> settings_ok t \<and> zones_ok exists (tZones t) {} \<and>
       (\<forall>r \<in> set Roles. count_list (map zName (tZones t)) (role_name r) = 1) \<and>
       (\<forall>z \<in> set (tZones t). reachable_internal (fold zone_effect (tZones t) start_validation) z)"
    by (rule Validate_stages)
  have "Validate t exists = [] \<longleftrightarrow> settings_ok t \<and> Z \<and> zone_names_once t \<and> internal_reached t \<and> secrets_ok t"
    unfolding V append_is_Nil_conv out Z
    by (rule conj_chain [OF cnt internal_stage_iff [OF assms] secret_findings_iff]) (simp_all add: Z_def)
  also have "\<dots> \<longleftrightarrow> topology_ok t exists"
    by (auto simp: topology_ok_def zone_names_once_def Z_def workloads_ok_def list_all_iff isRole_iff)
  finally show ?thesis .
qed

text \<open>
  C8: \<open>Validate\<close> decides the design's rules. It reports nothing exactly when the
  topology is well formed: schema and provider supported, positive sizes, volumes
  of two absolute paths, each zone present once, workload names valid, unique
  across zones and their files present, bridges only from a zone's own workloads
  to other existing zones and never out of an internal one, every internal zone
  the target of a bridge, and the secret lists free of bad names.
\<close>

theorem Validate_decides:
  "go_topology t \<Longrightarrow> Validate t exists = [] \<longleftrightarrow> topology_ok t exists"
  by (rule Validate_nil_iff)

section \<open>The default topology\<close>

text \<open>
  The \<open>lclaw.toml\<close> that \<open>lclaw init\<close> writes, as the loader decodes it. The keychain path
  is the loader's, for the home directory \<open>/Users/me\<close>.
\<close>

definition default_zones :: "zone_spec list" where
  "default_zones =
     [\<lparr>zName = ''infra'', zInternal = False, zWorkloads = [''kuma-cp'', ''gateway''], zSecrets = [],
       zBridges = [(''kuma-cp'', [''services'', ''agent''])]\<rparr>,
      \<lparr>zName = ''services'', zInternal = False, zWorkloads = [''litellm-db'', ''litellm'', ''agentgateway''],
       zSecrets = [''anthropic-api-key''], zBridges = [(''agentgateway'', [''agent''])]\<rparr>,
      \<lparr>zName = ''agent'', zInternal = True, zWorkloads = [''openclaw''], zSecrets = [], zBridges = []\<rparr>]"

definition default_topology :: topology where
  "default_topology =
     \<lparr>tSchema = 2, tProvider = ''libkrun'', tKeychainPath = ''/Users/me/Library/Keychains/lclaw.keychain-db'',
      tMachine = \<lparr>msCPUs = 4, msMemoryMiB = 8192, msDiskGiB = 60, msVolumes = []\<rparr>, tZones = default_zones\<rparr>"

lemma go_default: "go_topology default_topology"
  by (simp add: go_topology_def default_topology_def default_zones_def go_map_def)

lemma UNIV_role: "UNIV = {Infra, Services, Agent}"
  using role.exhaust by auto

lemma default_ok: "topology_ok default_topology (\<lambda>_. True)"
proof -
  have names: "set (map zName default_zones) = range role_name"
    by (auto simp: default_zones_def UNIV_role)
  have roles: "''services'' \<in> range role_name" "''agent'' \<in> range role_name"
    by (simp_all add: UNIV_role)
  have wl: "\<forall>w \<in> set (Workloads default_topology). validWorkloadName w"
    by (simp add: Workloads_def default_topology_def default_zones_def validWorkloadName_def is_lower_def is_digit_def)
  have sec: "dns_label ''anthropic-api-key''" "''anthropic-api-key'' \<notin> sName ` set BuiltinSecrets"
    by (simp_all add: dns_label_def is_lower_def is_digit_def BuiltinSecrets_def)
  show ?thesis
    using names roles wl sec
    by (simp add: topology_ok_def settings_ok_def internal_reached_def secrets_ok_def bridge_ok_def
        default_topology_def default_zones_def Workloads_def)
qed

theorem Validate_decides_witness: "Validate default_topology (\<lambda>_. True) = []"
  using Validate_decides [OF go_default] default_ok by blast

section \<open>Isolation\<close>

lemma sort_key_rank_distinct:
  "distinct bs \<Longrightarrow> distinct (sort_key roleRank bs)"
  by simp

text \<open>
  C38: in a topology that validates, a workload joins its own zone's network first
  and then each bridged zone's network once, in role order; every network it joins
  is a zone network, and a workload of an internal zone joins no other network
  than its own.
\<close>

theorem network_isolation:
  assumes "go_topology t" and "Validate t exists = []"
    and z: "z \<in> set (tZones t)" and w: "w \<in> set (zWorkloads z)"
  shows "\<exists>own rs. Networks z w = NetworkName own # map NetworkName rs \<and> role_name own = zName z \<and>
    distinct (own # rs) \<and> sorted rs \<and> (zInternal z \<longrightarrow> rs = []) \<and>
    (\<forall>r. r \<in> set rs \<longleftrightarrow> role_name r \<in> set (map_slice (zBridges z) w))"
proof -
  have ok: "topology_ok t exists" using Validate_nil_iff assms(1,2) by blast
  have maps: "go_map (zBridges z)" using assms(1) z by (simp add: go_topology_def)
  obtain own where own: "role_name own = zName z"
    using ok z unfolding topology_ok_def by (metis imageE image_eqI list.set_map)
  let ?bs = "map_slice (zBridges z) w"
  have b: "?bs = [] \<or> bridge_ok z (w, ?bs)"
    using map_slice_cases [of "zBridges z" w] ok z unfolding topology_ok_def by blast
  then have dist: "distinct ?bs" and roles: "\<forall>b \<in> set ?bs. \<exists>r. b = role_name r \<and> r \<noteq> own"
    and int: "zInternal z \<Longrightarrow> ?bs = []"
    using own by (auto simp: bridge_ok_def)
  define rs where "rs = map (\<lambda>b. the (ParseRole b)) (sort_key roleRank ?bs)"
  have bs: "sort_key roleRank ?bs = map role_name rs"
    unfolding rs_def map_map by (rule sym, rule map_idI) (use roles in auto)
  have names: "set (map role_name rs) = set ?bs" and dn: "distinct (map role_name rs)"
    using dist by (simp_all flip: bs)
  have "sorted (map roleRank (map role_name rs))" by (simp flip: bs)
  then have "sorted rs" by (simp add: sorted_map o_def less_eq_role_def [abs_def])
  moreover have "own \<notin> set rs"
  proof
    assume "own \<in> set rs"
    then have "role_name own \<in> set ?bs" using names by auto
    with roles show False by auto
  qed
  then have "distinct (own # rs)" using dn by (simp add: distinct_map)
  moreover have "r \<in> set rs \<longleftrightarrow> role_name r \<in> set ?bs" for r
    using names by (metis image_eqI list.set_map imageE rolec.name_inj)
  moreover have "Networks z w = NetworkName own # map NetworkName rs"
    by (simp add: Networks_def bs own NetworkName_def)
  moreover have "zInternal z \<Longrightarrow> rs = []" using int by (simp add: rs_def)
  ultimately show ?thesis using own by blast
qed

theorem network_isolation_witness:
  "Networks (default_zones ! 2) ''openclaw'' = [''lclaw-agent''] \<and>
   Networks (default_zones ! 0) ''kuma-cp'' = [''lclaw-infra'', ''lclaw-services'', ''lclaw-agent'']"
proof
  have V: "Validate default_topology (\<lambda>_. True) = []"
    using Validate_nil_iff [OF go_default] default_ok by blast
  have z: "default_zones ! 2 \<in> set (tZones default_topology)" "''openclaw'' \<in> set (zWorkloads (default_zones ! 2))"
    by (simp_all add: default_topology_def default_zones_def)
  obtain own where "role_name own = ''agent''" "Networks (default_zones ! 2) ''openclaw'' = [NetworkName own]"
    using network_isolation [OF go_default V z] by (auto simp: default_zones_def)
  then show "Networks (default_zones ! 2) ''openclaw'' = [''lclaw-agent'']"
    by (cases own) (simp_all add: NetworkName_def)
  show "Networks (default_zones ! 0) ''kuma-cp'' = [''lclaw-infra'', ''lclaw-services'', ''lclaw-agent'']"
    by (simp add: Networks_def default_zones_def map_slice_def roleRank_def Roles_def)
qed

end
