(* ===== verification/MachineStatus.thy ===== *)
theory MachineStatus
  imports Topologies
begin

text \<open>
  \<open>internal/domain/status.go\<close>: what the runtime reports, turned into checks: the
  machine, one check per zone network, one per workload's pod.
\<close>

record container =
  ctName :: string
  ctState :: string

record pod =
  pName :: string
  pContainers :: "container list"

fun all_running :: "container list \<Rightarrow> bool" where
  "all_running [] = True"
| "all_running (c # cs) = (if ctState c \<noteq> ''running'' then False else all_running cs)"

definition Running :: "pod \<Rightarrow> bool" where
  "Running p \<longleftrightarrow> (if length (pContainers p) = 0 then False else all_running (pContainers p))"

definition up_hint :: "role \<Rightarrow> string" where
  "up_hint r = ''run `lclaw up '' @ role_name r @ ''`''"

fun EvaluateMachine :: "machine list \<Rightarrow> check \<times> bool" where
  "EvaluateMachine [] = (mkCheck ''machine'' Warn ''not created'' ''run `lclaw up`'', False)"
| "EvaluateMachine (m # ms) =
     (if mName m \<noteq> MachineName then EvaluateMachine ms
      else if mRunning m then (mkCheck ''machine'' Pass ''running'' [], True)
      else (mkCheck ''machine'' Pass ''stopped'' ''run `lclaw up`'', False))"

text \<open>\<open>z, _ := t.Zone(r)\<close>: the zero zone when there is none.\<close>

definition zero_zone :: zone_spec where
  "zero_zone = \<lparr>zName = [], zInternal = False, zWorkloads = [], zSecrets = [], zBridges = []\<rparr>"

definition zone_or_zero :: "topology \<Rightarrow> role \<Rightarrow> zone_spec" where
  "zone_or_zero t r = (case Zone t r of None \<Rightarrow> zero_zone | Some z \<Rightarrow> z)"

definition network_check :: "topology \<Rightarrow> (string \<Rightarrow> bool) \<Rightarrow> role \<Rightarrow> check" where
  "network_check t present r =
     (let name = ''network/'' @ role_name r; z = zone_or_zero t r in
      if present (NetworkName r)
      then mkCheck name Pass (if zInternal z then ''present'' @ '' (internal)'' else ''present'') []
      else mkCheck name Warn ''missing'' (up_hint r))"

definition EvaluateNetworks :: "topology \<Rightarrow> role list \<Rightarrow> (string \<Rightarrow> bool) \<Rightarrow> check list" where
  "EvaluateNetworks t roles present = map (network_check t present) roles"

fun degraded_loop :: "string \<Rightarrow> container list \<Rightarrow> string" where
  "degraded_loop out [] = out"
| "degraded_loop out (c # cs) =
     (if ctState c = ''running'' then degraded_loop out cs
      else degraded_loop ((if out \<noteq> [] then out @ '', '' else out)
             @ ''container '' @ ctName c @ '' '' @ ctState c) cs)"

definition degraded :: "pod \<Rightarrow> string" where
  "degraded p = (if length (pContainers p) = 0 then ''no containers'' else degraded_loop [] (pContainers p))"

fun pods_by_name :: "pod list \<Rightarrow> (string \<Rightarrow> pod option) \<Rightarrow> (string \<Rightarrow> pod option)" where
  "pods_by_name [] m = m"
| "pods_by_name (p # ps) m = pods_by_name ps (m(pName p \<mapsto> p))"

definition workload_check :: "(string \<Rightarrow> pod option) \<Rightarrow> role \<Rightarrow> workload \<Rightarrow> check" where
  "workload_check byName r w =
     (let name = role_name r @ ''/'' @ w in
      case byName w of
        None \<Rightarrow> mkCheck name Warn ''absent'' (up_hint r)
      | Some p \<Rightarrow>
          if Running p then mkCheck name Pass ''running'' []
          else mkCheck name Fail (''degraded: '' @ degraded p)
                 (''podman --connection '' @ MachineName @ '' pod logs '' @ pName p))"

definition EvaluateWorkloads :: "topology \<Rightarrow> role list \<Rightarrow> pod list \<Rightarrow> check list" where
  "EvaluateWorkloads t roles pods =
     (let byName = pods_by_name pods Map.empty in
      concat (map (\<lambda>r. case Zone t r of
                         None \<Rightarrow> []
                       | Some z \<Rightarrow> map (workload_check byName r) (zWorkloads z)) roles))"

lemma Running_iff: "Running p \<longleftrightarrow> pContainers p \<noteq> [] \<and> (\<forall>c \<in> set (pContainers p). ctState c = ''running'')"
proof -
  have "all_running cs \<longleftrightarrow> (\<forall>c \<in> set cs. ctState c = ''running'')" for cs
    by (induction cs) auto
  then show ?thesis by (simp add: Running_def)
qed

lemma pods_by_name_distinct:
  "distinct (map pName ps) \<Longrightarrow> pods_by_name ps m n = (case find (\<lambda>p. pName p = n) ps of None \<Rightarrow> m n | Some p \<Rightarrow> Some p)"
proof (induction ps arbitrary: m)
  case (Cons p ps)
  then have "n = pName p \<Longrightarrow> find (\<lambda>q. pName q = n) ps = None"
    by (force simp: find_None_iff image_iff)
  with Cons show ?case by (auto split: option.splits)
qed simp

text \<open>A pod that is degraded always names a container, in the form the hint relies on.\<close>

lemma degraded_loop_ne: "out \<noteq> [] \<Longrightarrow> degraded_loop out cs \<noteq> []"
  by (induction cs arbitrary: out) auto

lemma degraded_names:
  assumes "\<not> Running p" shows "degraded p \<noteq> []"
proof (cases "pContainers p = []")
  case False
  have "degraded_loop [] cs \<noteq> []" if "\<exists>c \<in> set cs. ctState c \<noteq> ''running''" for cs
    using that by (induction cs) (auto simp: degraded_loop_ne)
  with assms False show ?thesis by (auto simp: degraded_def Running_iff)
qed (simp add: degraded_def)

definition pod_status :: "pod list \<Rightarrow> workload \<Rightarrow> status" where
  "pod_status pods w =
     (case find (\<lambda>p. pName p = w) pods of
        None \<Rightarrow> Warn
      | Some p \<Rightarrow> if pContainers p \<noteq> [] \<and> (\<forall>c \<in> set (pContainers p). ctState c = ''running'') then Pass else Fail)"

lemma workload_check_name [simp]: "cName (workload_check m r w) = role_name r @ ''/'' @ w"
  by (simp add: workload_check_def Let_def split: option.splits)

lemma workload_check_status:
  "distinct (map pName pods) \<Longrightarrow> cStatus (workload_check (pods_by_name pods Map.empty) r w) = pod_status pods w"
  by (simp add: workload_check_def Let_def pod_status_def pods_by_name_distinct Running_iff split: option.splits)

lemma EvaluateMachine_spec:
  "EvaluateMachine ms =
     (case find (\<lambda>m. mName m = MachineName) ms of
        None \<Rightarrow> (mkCheck ''machine'' Warn ''not created'' ''run `lclaw up`'', False)
      | Some m \<Rightarrow> (mkCheck ''machine'' Pass (if mRunning m then ''running'' else ''stopped'')
                     (if mRunning m then [] else ''run `lclaw up`''), mRunning m))"
  by (induction ms) auto

text \<open>
  The workload checks are one per workload, in zone order and then in the order
  of the file; each is Pass when the workload's pod has containers and all of them
  run, Fail when there is a pod but not all run, Warn when there is none.
\<close>

theorem workload_checks:
  assumes "distinct (map pName pods)"
  shows "map (\<lambda>c. (cName c, cStatus c)) (EvaluateWorkloads t roles pods) =
    concat (map (\<lambda>r. case Zone t r of None \<Rightarrow> []
       | Some z \<Rightarrow> map (\<lambda>w. (role_name r @ ''/'' @ w, pod_status pods w)) (zWorkloads z)) roles)"
proof (induction roles)
  case (Cons r roles)
  have "map (\<lambda>c. (cName c, cStatus c)) (map (workload_check (pods_by_name pods Map.empty) r) ws)
      = map (\<lambda>w. (role_name r @ ''/'' @ w, pod_status pods w)) ws" for ws
    using assms by (simp add: workload_check_status)
  with Cons show ?case by (simp add: EvaluateWorkloads_def Let_def split: option.splits)
qed (simp add: EvaluateWorkloads_def)

definition example_pods :: "pod list" where
  "example_pods =
     [\<lparr>pName = ''litellm'', pContainers = [\<lparr>ctName = ''litellm-litellm'', ctState = ''exited''\<rparr>]\<rparr>,
      \<lparr>pName = ''agentgateway'', pContainers = [\<lparr>ctName = ''agentgateway-gw'', ctState = ''running''\<rparr>]\<rparr>]"

theorem workload_checks_witness:
  "map (\<lambda>c. (cName c, cStatus c)) (EvaluateWorkloads default_topology [Services] example_pods) =
     [(''services/litellm-db'', Warn), (''services/litellm'', Fail), (''services/agentgateway'', Pass)]"
proof -
  have d: "distinct (map pName example_pods)" by (simp add: example_pods_def)
  have z: "Zone default_topology Services = Some (default_zones ! 1)"
    by (simp add: Zone_def default_topology_def default_zones_def)
  show ?thesis
    unfolding workload_checks [OF d]
    by (simp add: z) (simp add: default_zones_def pod_status_def example_pods_def)
qed

end
