(* ===== verification/ZoneSelection.thy ===== *)
theory ZoneSelection
  imports GoErrors
begin

text \<open>
  \<open>SelectRoles\<close> of \<open>internal/domain/role.go\<close>: zone names from the command line
  become roles in the fixed zone order; an unknown or repeated name is an error
  that names it.
\<close>

fun select_seen :: "role set \<Rightarrow> string list \<Rightarrow> go_error + role set" where
  "select_seen seen [] = Inr seen"
| "select_seen seen (n # ns) =
     (case ParseRole n of
        None \<Rightarrow> Inl (UnknownZoneError n False)
      | Some r \<Rightarrow>
          if r \<in> seen then Inl (UnknownZoneError n True)
          else select_seen (insert r seen) ns)"

definition SelectRoles :: "string list \<Rightarrow> go_error + role list" where
  "SelectRoles names =
     (if names = [] then Inr Roles
      else case select_seen {} names of
             Inl e \<Rightarrow> Inl e
           | Inr seen \<Rightarrow> Inr (filter (\<lambda>r. r \<in> seen) Roles))"

definition zone_names_ok :: "string list \<Rightarrow> bool" where
  "zone_names_ok ns \<longleftrightarrow> distinct ns \<and> list_all isRole ns"

lemma select_seen_Inr:
  "select_seen seen ns = Inr out \<longleftrightarrow>
     zone_names_ok ns \<and> set ns \<inter> role_name ` seen = {} \<and> out = seen \<union> {r. role_name r \<in> set ns}"
proof (induction ns arbitrary: seen)
  case (Cons n ns)
  show ?case
  proof (cases "ParseRole n")
    case None
    then show ?thesis by (simp add: zone_names_ok_def isRole_def)
  next
    case (Some r)
    then have n: "n = role_name r" by (simp add: rolec.parse_Some_iff)
    have "select_seen seen (n # ns) = Inr out \<longleftrightarrow>
        r \<notin> seen \<and> select_seen (insert r seen) ns = Inr out"
      by (simp add: n)
    also have "\<dots> \<longleftrightarrow> r \<notin> seen \<and> zone_names_ok ns \<and> set ns \<inter> role_name ` insert r seen = {} \<and>
        out = insert r seen \<union> {r. role_name r \<in> set ns}"
      by (simp only: Cons.IH)
    also have "\<dots> \<longleftrightarrow> zone_names_ok (n # ns) \<and> set (n # ns) \<inter> role_name ` seen = {} \<and>
        out = seen \<union> {r. role_name r \<in> set (n # ns)}"
      unfolding n zone_names_ok_def by auto
    finally show ?thesis .
  qed
qed (auto simp: zone_names_ok_def)

lemma select_seen_Inl:
  "select_seen seen ns = Inl e \<Longrightarrow>
     \<exists>pre n post. ns = pre @ n # post \<and> zone_names_ok pre \<and> set pre \<inter> role_name ` seen = {} \<and>
       e = UnknownZoneError n (isRole n) \<and> (isRole n \<longrightarrow> n \<in> set pre \<union> role_name ` seen)"
proof (induction ns arbitrary: seen)
  case (Cons n ns)
  show ?case
  proof (cases "ParseRole n")
    case None
    then have "\<not> isRole n" by (simp add: isRole_def)
    moreover have "e = UnknownZoneError n False" using Cons.prems None by simp
    ultimately show ?thesis
      by (intro exI [of _ "[]"] exI [of _ n] exI [of _ ns]) (simp add: zone_names_ok_def)
  next
    case (Some r)
    then have n: "n = role_name r" by (simp add: rolec.parse_Some_iff)
    show ?thesis
    proof (cases "r \<in> seen")
      case True
      then have "e = UnknownZoneError n True" using Cons.prems Some by simp
      with True n show ?thesis
        by (intro exI [of _ "[]"] exI [of _ n] exI [of _ ns]) (simp add: zone_names_ok_def)
    next
      case False
      with Cons.prems Some have "select_seen (insert r seen) ns = Inl e" by simp
      then obtain pre m post where
        "ns = pre @ m # post" "zone_names_ok pre" "set pre \<inter> role_name ` insert r seen = {}"
        "e = UnknownZoneError m (isRole m)" "isRole m \<longrightarrow> m \<in> set pre \<union> role_name ` insert r seen"
        using Cons.IH by blast
      with False n show ?thesis
        by (intro exI [of _ "n # pre"] exI [of _ m] exI [of _ post])
          (auto simp: zone_names_ok_def rolec.name_inj image_iff)
    qed
  qed
qed simp

text \<open>
  Zone selection. It succeeds exactly on distinct zone names and returns each
  named zone once, in the fixed order, every zone when no name is given. Otherwise
  the error blames the first name that is not a zone or repeats an earlier one.
\<close>

theorem SelectRoles_spec:
  "case SelectRoles names of
     Inr rs \<Rightarrow> zone_names_ok names \<and> sorted rs \<and> distinct rs \<and>
       (\<forall>r. r \<in> set rs \<longleftrightarrow> names = [] \<or> role_name r \<in> set names)
   | Inl e \<Rightarrow> \<exists>pre n post. names = pre @ n # post \<and> zone_names_ok pre \<and>
       e = UnknownZoneError n (isRole n) \<and> (isRole n \<longrightarrow> n \<in> set pre)"
proof (cases "select_seen {} names")
  case (Inl e)
  then have "names \<noteq> []" by auto
  then show ?thesis using select_seen_Inl [OF Inl] Inl by (simp add: SelectRoles_def)
next
  case (Inr seen)
  then have seen: "zone_names_ok names" "seen = {r. role_name r \<in> set names}"
    by (simp_all add: select_seen_Inr)
  have "sorted (filter P Roles)" for P
    using sorted_filter [of id Roles P] sorted_Roles by simp
  moreover have "distinct (filter P Roles)" for P by (simp add: Roles_def)
  ultimately show ?thesis using seen Inr sorted_Roles by (auto simp: SelectRoles_def zone_names_ok_def)
qed

theorem SelectRoles_spec_witness:
  "SelectRoles [''agent'', ''infra'', ''agent''] = Inl (UnknownZoneError ''agent'' True) \<and>
   (\<exists>pre n post. [''agent'', ''infra'', ''agent''] = pre @ n # post \<and> n \<in> set pre)"
proof
  let ?names = "[''agent'', ''infra'', ''agent'']"
  show run: "SelectRoles ?names = Inl (UnknownZoneError ''agent'' True)"
    by (simp add: SelectRoles_def ParseRole_def Roles_def)
  show "\<exists>pre n post. ?names = pre @ n # post \<and> n \<in> set pre"
    using SelectRoles_spec [of ?names] unfolding run by auto
qed

end
