(* ===== verification/Versions.thy ===== *)
theory Versions
  imports Reports "HOL-Library.Product_Lexorder"
begin

text \<open>
  \<open>internal/domain/version.go\<close> and \<open>requirement.go\<close>: semantic versions, the tools the
  host needs and the verdict on a tool.
\<close>

section \<open>Versions\<close>

record version =
  vMajor :: int
  vMinor :: int
  vPatch :: int
  vRaw :: string

definition zero_version :: version where
  "zero_version = \<lparr>vMajor = 0, vMinor = 0, vPatch = 0, vRaw = []\<rparr>"

text \<open>The write \<open>*dst[i] = n\<close> through the array of pointers to the three components.\<close>

fun set_component :: "nat \<Rightarrow> int \<Rightarrow> version \<Rightarrow> version" where
  "set_component 0 n v = v\<lparr>vMajor := n\<rparr>"
| "set_component (Suc 0) n v = v\<lparr>vMinor := n\<rparr>"
| "set_component (Suc (Suc _)) n v = v\<lparr>vPatch := n\<rparr>"

definition version_error :: "string \<Rightarrow> string \<Rightarrow> go_error" where
  "version_error raw what = Plain (''parse version '' @ quote raw @ '': '' @ what)"

fun parse_components :: "string \<Rightarrow> nat \<Rightarrow> string list \<Rightarrow> version \<Rightarrow> go_error + version" where
  "parse_components raw i [] v = Inr v"
| "parse_components raw i (p # ps) v =
     (case atoi p of
        None \<Rightarrow> Inl (version_error raw (quote p @ '' is not a non-negative integer''))
      | Some n \<Rightarrow>
          if n < 0 \<or> prefix ''+'' p
          then Inl (version_error raw (quote p @ '' is not a non-negative integer''))
          else parse_components raw (Suc i) ps (set_component i n v))"

definition ParseVersion :: "string \<Rightarrow> go_error + version" where
  "ParseVersion s =
     (let raw = trim_space s;
          core = takeWhile (\<lambda>c. c \<noteq> CHR ''-'' \<and> c \<noteq> CHR ''+'') raw;
          parts = split_on CHR ''.'' core
      in if core = [] then Inl (version_error raw ''empty'')
         else if 3 < length parts then Inl (version_error raw ''more than three components'')
         else parse_components raw 0 parts (zero_version\<lparr>vRaw := raw\<rparr>))"

definition AtLeast :: "version \<Rightarrow> version \<Rightarrow> bool" where
  "AtLeast v mn =
     (if vMajor v \<noteq> vMajor mn then vMajor mn < vMajor v
      else if vMinor v \<noteq> vMinor mn then vMinor mn < vMinor v
      else vPatch mn \<le> vPatch v)"

definition version_string :: "version \<Rightarrow> string" where
  "version_string v = itoa (vMajor v) @ ''.'' @ itoa (vMinor v) @ ''.'' @ itoa (vPatch v)"

definition version_ok :: "version \<Rightarrow> bool" where
  "version_ok v \<longleftrightarrow> (\<forall>n \<in> {vMajor v, vMinor v, vPatch v}. 0 \<le> n \<and> n \<le> max_int)"

lemma parse_components_ok:
  "parse_components raw i ps v = Inr v' \<Longrightarrow> version_ok v \<Longrightarrow> version_ok v' \<and> vRaw v' = vRaw v"
proof (induction raw i ps v rule: parse_components.induct)
  case (2 raw i p ps v)
  then obtain n where n: "atoi p = Some n" "0 \<le> n"
    and step: "parse_components raw (Suc i) ps (set_component i n v) = Inr v'"
    by (auto split: option.splits if_splits)
  have "n \<le> max_int" using n by (auto simp: atoi_def Let_def split: if_splits prod.splits)
  with n 2(3) have "version_ok (set_component i n v)" "vRaw (set_component i n v) = vRaw v"
    by (cases "(i, n, v)" rule: set_component.cases; auto simp: version_ok_def)+
  with 2(1) [OF n(1) _ step] n(2) show ?case using 2(2) n by (auto split: if_splits)
qed simp

lemma itoa_nonneg:
  assumes "0 \<le> n"
  shows "list_all is_digit (itoa n)" "itoa n \<noteq> []" "CHR ''.'' \<notin> set (itoa n)"
    "\<not> prefix ''+'' (itoa n)"
proof -
  show d: "list_all is_digit (itoa n)" using assms dec_digits_digits by (simp add: itoa_def)
  show "itoa n \<noteq> []" using assms by (simp add: itoa_def)
  show "CHR ''.'' \<notin> set (itoa n)" using d by (auto simp: list_all_iff is_digit_of_char)
  show "\<not> prefix ''+'' (itoa n)" using d by (cases "itoa n") (auto simp: is_digit_of_char)
qed

lemma parse_components_itoa:
  assumes "0 \<le> n" "n \<le> max_int"
  shows "parse_components raw i (itoa n # ps) v = parse_components raw (Suc i) ps (set_component i n v)"
  using assms itoa_nonneg [of n] by (simp add: atoi_itoa min_int_def)

lemma split_version_string:
  assumes "version_ok v"
  shows "split_on CHR ''.'' (version_string v) = [itoa (vMajor v), itoa (vMinor v), itoa (vPatch v)]"
  using assms itoa_nonneg(3) by (simp add: version_string_def version_ok_def split_on_append_sep split_on_single)

lemma version_string_chars:
  assumes "version_ok v" and "c \<in> set (version_string v)"
  shows "is_digit c \<or> c = CHR ''.''"
  using assms itoa_nonneg(1) by (auto simp: version_string_def version_ok_def list_all_iff)

text \<open>
  Parsing what \<open>String\<close> renders, followed by nothing or by a pre-release or build
  suffix (\<open>-\<close> or \<open>+\<close> and anything that does not end in white space), gives back the
  three components, with \<open>Raw\<close> the text that was read.
\<close>

theorem ParseVersion_String:
  assumes ok: "version_ok v"
    and suf: "suf = [] \<or> (hd suf \<in> {CHR ''-'', CHR ''+''} \<and> \<not> is_space (last suf))"
  shows "ParseVersion (version_string v @ suf) = Inr (v\<lparr>vRaw := version_string v @ suf\<rparr>)"
proof -
  let ?s = "version_string v"
  have chars: "\<And>c. c \<in> set ?s \<Longrightarrow> is_digit c \<or> c = CHR ''.''"
    using version_string_chars [OF ok] by blast
  have ne: "?s \<noteq> []" by (simp add: version_string_def)
  have nsp: "\<not> is_space c" if "c \<in> set ?s" for c
    using chars [OF that] by (auto simp: is_space_def is_digit_of_char)
  have trim: "trim_space (?s @ suf) = ?s @ suf"
  proof (rule trim_space_id)
    have "\<not> is_space (hd (?s @ suf))" using ne nsp [of "hd ?s"] by simp
    moreover have "\<not> is_space (last (?s @ suf))" using ne nsp [of "last ?s"] suf by (cases "suf = []") auto
    ultimately show "?s @ suf = [] \<or> \<not> is_space (hd (?s @ suf)) \<and> \<not> is_space (last (?s @ suf))" by simp
  qed
  have nsep: "c \<noteq> CHR ''-'' \<and> c \<noteq> CHR ''+''" if "c \<in> set ?s" for c
    using chars [OF that] by (auto simp: is_digit_of_char)
  have "takeWhile (\<lambda>c. c \<noteq> CHR ''-'' \<and> c \<noteq> CHR ''+'') suf = []" using suf by (cases suf) auto
  then have core: "takeWhile (\<lambda>c. c \<noteq> CHR ''-'' \<and> c \<noteq> CHR ''+'') (?s @ suf) = ?s"
    using nsep by (subst takeWhile_append2) auto
  have "ParseVersion (?s @ suf) = parse_components (?s @ suf) 0
      [itoa (vMajor v), itoa (vMinor v), itoa (vPatch v)] (zero_version\<lparr>vRaw := ?s @ suf\<rparr>)"
    using ne by (simp add: ParseVersion_def trim core split_version_string [OF ok] Let_def)
  also have "\<dots> = Inr (v\<lparr>vRaw := ?s @ suf\<rparr>)"
    using ok by (simp add: version_ok_def parse_components_itoa zero_version_def del: parse_components.simps(2))
  finally show ?thesis .
qed

theorem ParseVersion_String_witness:
  "ParseVersion (version_string \<lparr>vMajor = 1, vMinor = 13, vPatch = 1, vRaw = []\<rparr> @ ''-g684cdfb'')
   = Inr \<lparr>vMajor = 1, vMinor = 13, vPatch = 1, vRaw = ''1.13.1-g684cdfb''\<rparr>"
proof -
  let ?v = "\<lparr>vMajor = 1, vMinor = 13, vPatch = 1, vRaw = []\<rparr>"
  have ok: "version_ok ?v" by (simp add: version_ok_def max_int_def)
  have s: "version_string ?v = ''1.13.1''" by code_simp
  show ?thesis
    using ParseVersion_String [OF ok, of "''-g684cdfb''"] by (simp add: s is_space_def)
qed

text \<open>
  The comparison of versions is the lexicographic order of (major, minor, patch);
  whatever the suffixes, it is a total preorder.
\<close>

theorem AtLeast_lexicographic:
  "AtLeast v mn \<longleftrightarrow> (vMajor mn, vMinor mn, vPatch mn) \<le> (vMajor v, vMinor v, vPatch v)"
  by (auto simp: AtLeast_def less_eq_prod_def)

section \<open>Tools\<close>

record requirement =
  rTool :: string
  rMin :: version
  rInstallHint :: string

definition PodmanRequirement :: requirement where
  "PodmanRequirement =
     \<lparr>rTool = ''podman'', rMin = zero_version\<lparr>vMajor := 5, vMinor := 8\<rparr>,
      rInstallHint = ''install Podman 5.8 or newer from https://podman.io/docs/installation''\<rparr>"

definition FloxRequirement :: requirement where
  "FloxRequirement =
     \<lparr>rTool = ''flox'', rMin = zero_version\<lparr>vMajor := 1\<rparr>,
      rInstallHint = ''install Flox from https://flox.dev/docs/install-flox/''\<rparr>"

definition EvaluateTool :: "requirement \<Rightarrow> version \<Rightarrow> go_error option \<Rightarrow> check" where
  "EvaluateTool req found err =
     (if opt_is err ErrToolNotFound then mkCheck (rTool req) Fail ''not found'' (rInstallHint req)
      else case err of
        Some e \<Rightarrow> mkCheck (rTool req) Fail (err_text e) []
      | None \<Rightarrow>
          if \<not> AtLeast found (rMin req)
          then mkCheck (rTool req) Fail
                 (version_string found @ '' is older than the minimum '' @ version_string (rMin req))
                 (rInstallHint req)
          else mkCheck (rTool req) Pass
                 (version_string found @ '' (minimum '' @ version_string (rMin req) @ '')'') [])"

lemma EvaluateTool_status:
  "cStatus (EvaluateTool req found err) =
     (if err = None \<and> AtLeast found (rMin req) then Pass else Fail)"
  by (auto simp: EvaluateTool_def split: option.splits)

lemma EvaluateTool_name [simp]: "cName (EvaluateTool req found err) = rTool req"
  by (auto simp: EvaluateTool_def split: option.splits)

end
