(* ===== verification/Ports.thy ===== *)
theory Ports
  imports MachineStatus ZoneSelection Versions
begin

text \<open>
  \<open>internal/app/ports.go\<close>: the interfaces the use cases consume, as records of
  operations on an arbitrary world, and the logged form of each interface, which
  records every call with its answer. \<open>ctx.Err()\<close> is one more operation: the world
  may cancel at any moment.
\<close>

section \<open>Data that crosses a port\<close>

record machine_init =
  miName :: string
  miProvider :: string
  miCPUs :: int
  miMemoryMiB :: int
  miDiskGiB :: int
  miVolumes :: "string list"
  miPlaybook :: string

text \<open>A moment as the keychain reports it, UTC. \<open>zero_time\<close> is Go's zero \<open>time.Time\<close>.\<close>

record gotime =
  gtYear :: int
  gtMonth :: int
  gtDay :: int
  gtHour :: int
  gtMinute :: int
  gtSecond :: int
  gtNano :: int

definition zero_time :: gotime where
  "zero_time = \<lparr>gtYear = 1, gtMonth = 1, gtDay = 1, gtHour = 0, gtMinute = 0, gtSecond = 0, gtNano = 0\<rparr>"

record secret_item =
  siName :: string
  siSource :: source
  siCreated :: gotime
  siModified :: gotime

text \<open>
  An opened scaffold directory, \<open>fs.FS\<close>: reading a file and \<open>fs.Stat\<close> without an
  error. One opening is one snapshot of the directory.
\<close>

record fsys =
  fsRead :: "string \<Rightarrow> go_error + string"
  fsStat :: "string \<Rightarrow> bool"

section \<open>The interfaces\<close>

type_synonym 'w ctx = "('w, go_error option) io"

text \<open>A context that ended stays ended, as \<open>context.Context\<close> documents.\<close>

definition sticky :: "'w ctx \<Rightarrow> bool" where
  "sticky ctx \<longleftrightarrow> (\<forall>w e w'. run_state ctx w = (Some e, w') \<longrightarrow> fst (run_state ctx w') \<noteq> None)"

lemma sticky_never: "sticky (ret None)"
  by (simp add: sticky_def State_Monad.return_def)

record 'w machine_runtime =
  rtVersion :: "('w, go_error + version) io"
  rtListMachines :: "('w, go_error + machine list) io"
  rtInitMachine :: "machine_init \<Rightarrow> ('w, go_error option) io"
  rtStartMachine :: "string \<Rightarrow> string \<Rightarrow> ('w, go_error option) io"
  rtStopMachine :: "string \<Rightarrow> string \<Rightarrow> ('w, go_error option) io"
  rtRemoveMachine :: "string \<Rightarrow> string \<Rightarrow> ('w, go_error option) io"

record 'w workload_runtime =
  wlNetworkExists :: "string \<Rightarrow> ('w, go_error + bool) io"
  wlCreateNetwork :: "string \<Rightarrow> bool \<Rightarrow> ('w, go_error option) io"
  wlRemoveNetwork :: "string \<Rightarrow> ('w, go_error option) io"
  wlBuild :: "string \<Rightarrow> string \<Rightarrow> ('w, go_error option) io"
  wlPlay :: "string \<Rightarrow> string list \<Rightarrow> string \<Rightarrow> ('w, go_error option) io"
  wlDown :: "string \<Rightarrow> ('w, go_error option) io"
  wlListPods :: "('w, go_error + pod list) io"

record 'w environment_manager =
  emVersion :: "('w, go_error + version) io"

record 'w file_writer =
  fwWriteFile :: "string \<Rightarrow> string \<Rightarrow> bool \<Rightarrow> ('w, go_error option) io"

record 'w dir_opener =
  doOpenDir :: "string \<Rightarrow> ('w, go_error + fsys) io"

record 'w topology_loader =
  tlLoad :: "fsys \<Rightarrow> ('w, go_error + topology) io"

record 'w keychain =
  kcExists :: "string \<Rightarrow> ('w, go_error + bool) io"
  kcCreate :: "string \<Rightarrow> ('w, go_error option) io"
  kcGet :: "string \<Rightarrow> string \<Rightarrow> ('w, go_error + string) io"
  kcDescribe :: "string \<Rightarrow> string \<Rightarrow> ('w, go_error + secret_item) io"
  kcPut :: "string \<Rightarrow> string \<Rightarrow> string \<Rightarrow> source \<Rightarrow> bool \<Rightarrow> ('w, go_error option) io"
  kcDelete :: "string \<Rightarrow> string \<Rightarrow> ('w, go_error option) io"

record 'w secret_target =
  tgMachineRunning :: "('w, go_error + bool) io"
  tgStoreSecret :: "string \<Rightarrow> string \<Rightarrow> ('w, go_error option) io"
  tgSecretExists :: "string \<Rightarrow> ('w, go_error + bool) io"
  tgRemoveSecret :: "string \<Rightarrow> ('w, go_error option) io"
  tgListSecrets :: "('w, go_error + string list) io"
  tgRemoveVolume :: "string \<Rightarrow> ('w, go_error option) io"

record 'w key_minter =
  kmReady :: "('w, go_error option) io"
  kmMint :: "string \<Rightarrow> ('w, go_error + string) io"
  kmRevoke :: "string \<Rightarrow> string \<Rightarrow> ('w, go_error option) io"

record 'w progress =
  pgStep :: "string \<Rightarrow> string \<Rightarrow> ('w, unit) io"

definition NoProgress :: "'w progress" where
  "NoProgress = \<lparr>pgStep = (\<lambda>_ _. ret ())\<rparr>"

definition UnavailableMinter :: "'w key_minter" where
  "UnavailableMinter =
     \<lparr>kmReady = ret (Some (Sentinel ErrMinterUnavailable)),
      kmMint = (\<lambda>_. ret (Inl (Sentinel ErrMinterUnavailable))),
      kmRevoke = (\<lambda>_ _. ret (Some (Sentinel ErrMinterUnavailable)))\<rparr>"

section \<open>Logged interfaces\<close>

datatype event =
    EvVersion "go_error + version"
  | EvListMachines "go_error + machine list"
  | EvInitMachine machine_init "go_error option"
  | EvStartMachine string string "go_error option"
  | EvStopMachine string string "go_error option"
  | EvRemoveMachine string string "go_error option"
  | EvNetworkExists string "go_error + bool"
  | EvCreateNetwork string bool "go_error option"
  | EvRemoveNetwork string "go_error option"
  | EvBuild string string "go_error option"
  | EvPlay string "string list" string "go_error option"
  | EvDown string "go_error option"
  | EvListPods "go_error + pod list"
  | EvEnvVersion "go_error + version"
  | EvWriteFile string string bool "go_error option"
  | EvOpenDir string "go_error + fsys"
  | EvLoad fsys "go_error + topology"
  | EvExists string "go_error + bool"
  | EvCreate string "go_error option"
  | EvGet string string "go_error + string"
  | EvDescribe string string "go_error + secret_item"
  | EvPut string string string source bool "go_error option"
  | EvDelete string string "go_error option"
  | EvRunning "go_error + bool"
  | EvStore string string "go_error option"
  | EvSecretExists string "go_error + bool"
  | EvRemoveSecret string "go_error option"
  | EvListSecrets "go_error + string list"
  | EvRemoveVolume string "go_error option"
  | EvReady "go_error option"
  | EvMint string "go_error + string"
  | EvRevoke string string "go_error option"

text \<open>
  The events that change something outside the program, and the ones that bring a
  stored secret's value into the program.
\<close>

fun writes_event :: "event \<Rightarrow> bool" where
  "writes_event (EvInitMachine _ _) = True"
| "writes_event (EvStartMachine _ _ _) = True"
| "writes_event (EvStopMachine _ _ _) = True"
| "writes_event (EvRemoveMachine _ _ _) = True"
| "writes_event (EvCreateNetwork _ _ _) = True"
| "writes_event (EvRemoveNetwork _ _) = True"
| "writes_event (EvBuild _ _ _) = True"
| "writes_event (EvPlay _ _ _ _) = True"
| "writes_event (EvDown _ _) = True"
| "writes_event (EvWriteFile _ _ _ _) = True"
| "writes_event (EvCreate _ _) = True"
| "writes_event (EvPut _ _ _ _ _ _) = True"
| "writes_event (EvDelete _ _ _) = True"
| "writes_event (EvStore _ _ _) = True"
| "writes_event (EvRemoveSecret _ _) = True"
| "writes_event (EvRemoveVolume _ _) = True"
| "writes_event (EvMint _ _) = True"
| "writes_event (EvRevoke _ _ _) = True"
| "writes_event _ = False"

fun reads_value :: "event \<Rightarrow> bool" where
  "reads_value (EvGet _ _ _) = True"
| "reads_value _ = False"

type_synonym 'w logged = "'w \<times> event list"

definition log_runtime :: "'w machine_runtime \<Rightarrow> 'w logged machine_runtime" where
  "log_runtime p =
     \<lparr>rtVersion = tap EvVersion (rtVersion p),
      rtListMachines = tap EvListMachines (rtListMachines p),
      rtInitMachine = (\<lambda>m. tap (EvInitMachine m) (rtInitMachine p m)),
      rtStartMachine = (\<lambda>v n. tap (EvStartMachine v n) (rtStartMachine p v n)),
      rtStopMachine = (\<lambda>v n. tap (EvStopMachine v n) (rtStopMachine p v n)),
      rtRemoveMachine = (\<lambda>v n. tap (EvRemoveMachine v n) (rtRemoveMachine p v n))\<rparr>"

definition log_workloads :: "'w workload_runtime \<Rightarrow> 'w logged workload_runtime" where
  "log_workloads p =
     \<lparr>wlNetworkExists = (\<lambda>n. tap (EvNetworkExists n) (wlNetworkExists p n)),
      wlCreateNetwork = (\<lambda>n i. tap (EvCreateNetwork n i) (wlCreateNetwork p n i)),
      wlRemoveNetwork = (\<lambda>n. tap (EvRemoveNetwork n) (wlRemoveNetwork p n)),
      wlBuild = (\<lambda>t c. tap (EvBuild t c) (wlBuild p t c)),
      wlPlay = (\<lambda>f ns u. tap (EvPlay f ns u) (wlPlay p f ns u)),
      wlDown = (\<lambda>f. tap (EvDown f) (wlDown p f)),
      wlListPods = tap EvListPods (wlListPods p)\<rparr>"

definition log_envs :: "'w environment_manager \<Rightarrow> 'w logged environment_manager" where
  "log_envs p = \<lparr>emVersion = tap EvEnvVersion (emVersion p)\<rparr>"

definition log_writer :: "'w file_writer \<Rightarrow> 'w logged file_writer" where
  "log_writer p = \<lparr>fwWriteFile = (\<lambda>f d ov. tap (EvWriteFile f d ov) (fwWriteFile p f d ov))\<rparr>"

definition log_opener :: "'w dir_opener \<Rightarrow> 'w logged dir_opener" where
  "log_opener p = \<lparr>doOpenDir = (\<lambda>d. tap (EvOpenDir d) (doOpenDir p d))\<rparr>"

definition log_loader :: "'w topology_loader \<Rightarrow> 'w logged topology_loader" where
  "log_loader p = \<lparr>tlLoad = (\<lambda>f. tap (EvLoad f) (tlLoad p f))\<rparr>"

definition log_keychain :: "'w keychain \<Rightarrow> 'w logged keychain" where
  "log_keychain p =
     \<lparr>kcExists = (\<lambda>f. tap (EvExists f) (kcExists p f)),
      kcCreate = (\<lambda>f. tap (EvCreate f) (kcCreate p f)),
      kcGet = (\<lambda>f n. tap (EvGet f n) (kcGet p f n)),
      kcDescribe = (\<lambda>f n. tap (EvDescribe f n) (kcDescribe p f n)),
      kcPut = (\<lambda>f n v s r. tap (EvPut f n v s r) (kcPut p f n v s r)),
      kcDelete = (\<lambda>f n. tap (EvDelete f n) (kcDelete p f n))\<rparr>"

definition log_target :: "'w secret_target \<Rightarrow> 'w logged secret_target" where
  "log_target p =
     \<lparr>tgMachineRunning = tap EvRunning (tgMachineRunning p),
      tgStoreSecret = (\<lambda>n v. tap (EvStore n v) (tgStoreSecret p n v)),
      tgSecretExists = (\<lambda>n. tap (EvSecretExists n) (tgSecretExists p n)),
      tgRemoveSecret = (\<lambda>n. tap (EvRemoveSecret n) (tgRemoveSecret p n)),
      tgListSecrets = tap EvListSecrets (tgListSecrets p),
      tgRemoveVolume = (\<lambda>n. tap (EvRemoveVolume n) (tgRemoveVolume p n))\<rparr>"

definition log_minter :: "'w key_minter \<Rightarrow> 'w logged key_minter" where
  "log_minter p =
     \<lparr>kmReady = tap EvReady (kmReady p),
      kmMint = (\<lambda>n. tap (EvMint n) (kmMint p n)),
      kmRevoke = (\<lambda>n v. tap (EvRevoke n v) (kmRevoke p n v))\<rparr>"

definition log_progress :: "'w progress \<Rightarrow> 'w logged progress" where
  "log_progress p = \<lparr>pgStep = (\<lambda>n d. untap (pgStep p n d))\<rparr>"

definition log_random :: "'w reader \<Rightarrow> 'w logged reader" where
  "log_random r n = untap (r n)"

lemmas logged_ports = log_runtime_def log_workloads_def log_envs_def log_writer_def
  log_opener_def log_loader_def log_keychain_def log_target_def log_minter_def
  log_progress_def log_random_def

lemma log_runtime_sel [simp]:
  "rtVersion (log_runtime p) = tap EvVersion (rtVersion p)"
  "rtListMachines (log_runtime p) = tap EvListMachines (rtListMachines p)"
  "rtInitMachine (log_runtime p) m = tap (EvInitMachine m) (rtInitMachine p m)"
  "rtStartMachine (log_runtime p) v n = tap (EvStartMachine v n) (rtStartMachine p v n)"
  "rtStopMachine (log_runtime p) v n = tap (EvStopMachine v n) (rtStopMachine p v n)"
  "rtRemoveMachine (log_runtime p) v n = tap (EvRemoveMachine v n) (rtRemoveMachine p v n)"
  by (simp_all add: log_runtime_def)

lemma log_workloads_sel [simp]:
  "wlNetworkExists (log_workloads q) n = tap (EvNetworkExists n) (wlNetworkExists q n)"
  "wlCreateNetwork (log_workloads q) n i = tap (EvCreateNetwork n i) (wlCreateNetwork q n i)"
  "wlRemoveNetwork (log_workloads q) n = tap (EvRemoveNetwork n) (wlRemoveNetwork q n)"
  "wlBuild (log_workloads q) t c = tap (EvBuild t c) (wlBuild q t c)"
  "wlPlay (log_workloads q) f ns u = tap (EvPlay f ns u) (wlPlay q f ns u)"
  "wlDown (log_workloads q) f = tap (EvDown f) (wlDown q f)"
  "wlListPods (log_workloads q) = tap EvListPods (wlListPods q)"
  by (simp_all add: log_workloads_def)

lemma log_files_sel [simp]:
  "emVersion (log_envs e) = tap EvEnvVersion (emVersion e)"
  "fwWriteFile (log_writer w) f d ov = tap (EvWriteFile f d ov) (fwWriteFile w f d ov)"
  "doOpenDir (log_opener p) dir = tap (EvOpenDir dir) (doOpenDir p dir)"
  "tlLoad (log_loader l) fs = tap (EvLoad fs) (tlLoad l fs)"
  "pgStep (log_progress g) n s = untap (pgStep g n s)"
  by (simp_all add: logged_ports)

lemma log_keychain_sel [simp]:
  "kcExists (log_keychain k) f = tap (EvExists f) (kcExists k f)"
  "kcCreate (log_keychain k) f = tap (EvCreate f) (kcCreate k f)"
  "kcGet (log_keychain k) f n = tap (EvGet f n) (kcGet k f n)"
  "kcDescribe (log_keychain k) f n = tap (EvDescribe f n) (kcDescribe k f n)"
  "kcPut (log_keychain k) f n v s r = tap (EvPut f n v s r) (kcPut k f n v s r)"
  "kcDelete (log_keychain k) f n = tap (EvDelete f n) (kcDelete k f n)"
  by (simp_all add: log_keychain_def)

lemma log_target_sel [simp]:
  "tgMachineRunning (log_target t) = tap EvRunning (tgMachineRunning t)"
  "tgStoreSecret (log_target t) n v = tap (EvStore n v) (tgStoreSecret t n v)"
  "tgSecretExists (log_target t) n = tap (EvSecretExists n) (tgSecretExists t n)"
  "tgRemoveSecret (log_target t) n = tap (EvRemoveSecret n) (tgRemoveSecret t n)"
  "tgListSecrets (log_target t) = tap EvListSecrets (tgListSecrets t)"
  "tgRemoveVolume (log_target t) n = tap (EvRemoveVolume n) (tgRemoveVolume t n)"
  by (simp_all add: log_target_def)

lemma log_minter_sel [simp]:
  "kmReady (log_minter m) = tap EvReady (kmReady m)"
  "kmMint (log_minter m) n = tap (EvMint n) (kmMint m n)"
  "kmRevoke (log_minter m) n v = tap (EvRevoke n v) (kmRevoke m n v)"
  by (simp_all add: log_minter_def)

lemma log_random_sel [simp]: "log_random r n = untap (r n)"
  by (simp add: log_random_def)

text \<open>Generating a value touches no port but the source of randomness.\<close>

lemma emits_Generate_nil: "emits (\<lambda>_ es. es = []) (Generate g (log_random rd))"
  by (simp add: Generate_def emits_ret emits_rules)

lemma emits_GenerateI: "(\<And>v. P v []) \<Longrightarrow> emits P (Generate g (log_random rd))"
  by (rule emits_conseq [OF emits_Generate_nil]) simp

lemma emits_Generate [emits_rules]:
  "(\<And>v. emits P (f v)) \<Longrightarrow> emits P (State_Monad.bind (Generate g (log_random rd)) f)"
  by (rule emits_bind [OF emits_Generate_nil]) simp

lemma logs_Generate [io_rules]: "logs A (Generate g (log_random rd))"
  unfolding Generate_def log_random_sel by (intro io_rules)

end
