(* ===== verification/Paths.thy ===== *)
theory Paths
  imports GoStrings
begin

text \<open>
  \<open>path/filepath\<close> on Unix, as far as the code uses it: \<open>Clean\<close> and \<open>Join\<close>. A slash is
  the separator, so \<open>FromSlash\<close> is the identity.
\<close>

definition slash :: char where "slash = CHR ''/''"

text \<open>One element of a path: empty and dot elements vanish, dot-dot undoes the element before it.\<close>

fun clean_step :: "bool \<Rightarrow> string list \<Rightarrow> string \<Rightarrow> string list" where
  "clean_step rooted out e =
     (if e = [] \<or> e = ''.'' then out
      else if e = ''..'' then
        (if out \<noteq> [] \<and> last out \<noteq> ''..'' then butlast out
         else if rooted then out
         else out @ [''..''])
      else out @ [e])"

definition clean_elems :: "bool \<Rightarrow> string list \<Rightarrow> string list" where
  "clean_elems rooted es = foldl (clean_step rooted) [] es"

definition rooted_path :: "string \<Rightarrow> bool" where
  "rooted_path p \<longleftrightarrow> p \<noteq> [] \<and> hd p = slash"

definition path_clean :: "string \<Rightarrow> string" where
  "path_clean p =
     (let es = clean_elems (rooted_path p) (split_on slash p) in
      if rooted_path p then slash # join_with [slash] es
      else if es = [] then ''.'' else join_with [slash] es)"

definition path_join :: "string \<Rightarrow> string \<Rightarrow> string" where
  "path_join dir p =
     (if dir \<noteq> [] then path_clean (dir @ [slash] @ p)
      else if p \<noteq> [] then path_clean p else [])"

text \<open>\<open>filepath.Dir\<close>: what is before the last slash, cleaned.\<close>

definition path_dir :: "string \<Rightarrow> string" where
  "path_dir p = path_clean (rev (dropWhile (\<lambda>c. c \<noteq> slash) (rev p)))"

text \<open>An element that cleaning leaves alone.\<close>

definition plain_elem :: "string \<Rightarrow> bool" where
  "plain_elem e \<longleftrightarrow> e \<noteq> [] \<and> e \<noteq> ''.'' \<and> e \<noteq> ''..'' \<and> slash \<notin> set e"

lemma split_on_sep: "split_on c (a @ c # b) = split_on c a @ split_on c b"
proof (induction a)
  case (Cons x a)
  then show ?case by (cases "split_on c a") (auto simp: split_on_ne)
qed simp

lemma clean_elems_append_plain:
  "list_all plain_elem ys \<Longrightarrow> clean_elems rooted (xs @ ys) = clean_elems rooted xs @ ys"
  by (induction ys rule: rev_induct) (auto simp: clean_elems_def plain_elem_def)

lemma split_plain:
  "list_all plain_elem ys \<Longrightarrow> ys \<noteq> [] \<Longrightarrow> split_on slash (join_with [slash] ys) = ys"
  by (rule split_join) (auto simp: list_all_iff plain_elem_def)

text \<open>The elements of a path once it is clean.\<close>

definition path_elems :: "string \<Rightarrow> string list" where
  "path_elems p = clean_elems (rooted_path p) (split_on slash p)"

lemma rooted_path_append [simp]: "p \<noteq> [] \<Longrightarrow> rooted_path (p @ q) = rooted_path p"
  by (simp add: rooted_path_def)

lemma path_clean_elems:
  "path_clean p = (if rooted_path p then slash # join_with [slash] (path_elems p)
     else if path_elems p = [] then ''.'' else join_with [slash] (path_elems p))"
  by (simp add: path_clean_def path_elems_def Let_def)

text \<open>Joining a relative path of plain elements goes down from the directory and nowhere else.\<close>

lemma path_join_below:
  assumes "dir \<noteq> []" and "list_all plain_elem ys" and "ys \<noteq> []"
  shows "path_join dir (join_with [slash] ys) =
    (if rooted_path dir then slash # join_with [slash] (path_elems dir @ ys)
     else join_with [slash] (path_elems dir @ ys))"
proof -
  let ?p = "dir @ slash # join_with [slash] ys"
  have r: "rooted_path ?p = rooted_path dir" using assms(1) by simp
  have "path_elems ?p = path_elems dir @ ys"
    using assms by (simp add: path_elems_def split_on_sep split_plain clean_elems_append_plain)
  then show ?thesis using assms by (simp add: path_join_def path_clean_elems r)
qed

end
