(* ===== verification/SecretsApp.thy ===== *)
theory SecretsApp
  imports Ports Paths
begin

text \<open>
  \<open>internal/app/secrets.go\<close>: the operations behind \<open>lclaw secrets\<close>. Where the code
  returns a partial \<open>Outcome\<close> together with an error, only the error is kept: the
  callers return it at once.
\<close>

section \<open>State\<close>

record 'w secrets_app =
  saScaffold :: "'w dir_opener"
  saTopology :: "'w topology_loader"
  saKeychain :: "'w keychain"
  saTarget :: "'w secret_target"
  saMinter :: "'w key_minter"
  saRandom :: "'w reader"

record secret_status =
  ssSpec :: secret_spec
  ssSource :: source
  ssSet :: bool

datatype store_state = StoreStored | StoreRemoved | StoreAbsent | StoreStopped | StoreFailed

fun store_state_name :: "store_state \<Rightarrow> string" where
  "store_state_name StoreStored = ''stored''"
| "store_state_name StoreRemoved = ''removed''"
| "store_state_name StoreAbsent = ''absent''"
| "store_state_name StoreStopped = ''stopped''"
| "store_state_name StoreFailed = ''failed''"

record store_outcome =
  soState :: store_state
  soErr :: "go_error option"

record secret_detail =
  sdStatus :: secret_status
  sdCreated :: gotime
  sdModified :: gotime
  sdStore :: store_outcome

record outcome =
  ouName :: string
  ouStore :: store_outcome
  ouWarning :: string

definition outcome_failed :: "outcome \<Rightarrow> bool" where
  "outcome_failed o' \<longleftrightarrow> soState (ouStore o') = StoreFailed"

section \<open>Shared steps\<close>

definition wrap_secrets :: "go_error \<Rightarrow> go_error" where
  "wrap_secrets e = Wrapf ''secrets: '' e []"

definition secrets_error :: "string \<Rightarrow> string \<Rightarrow> go_error \<Rightarrow> go_error" where
  "secrets_error verb name err = Wrapf (''secrets: '' @ verb @ '' '' @ name @ '': '') err []"

definition prepare :: "'w secrets_app \<Rightarrow> string \<Rightarrow> ('w, go_error + topology \<times> catalogue) io" where
  "prepare s dir =
     attempt wrap_secrets (doOpenDir (saScaffold s) dir) (\<lambda>fsys.
     attempt wrap_secrets (tlLoad (saTopology s) fsys) (\<lambda>topo.
       ret (case NewCatalogue BuiltinSecrets (DeclaredSecrets topo) of
              (cat, findings) \<Rightarrow>
                if findings \<noteq> [] then Inl (FindingsError findings) else Inr (topo, cat))))"

definition keychain_missing :: "string \<Rightarrow> go_error" where
  "keychain_missing path =
     Wrapf [] (Sentinel ErrKeychainMissing) ('' at '' @ path @ ''; run `lclaw init` to create it'')"

definition requireKeychain :: "'w keychain \<Rightarrow> string \<Rightarrow> ('w, go_error option) io" where
  "requireKeychain kc path = do {
     r \<leftarrow> kcExists kc path;
     ret (case r of
            Inl err \<Rightarrow> Some (wrap_secrets err)
          | Inr exists \<Rightarrow>
              if \<not> exists then Some (keychain_missing path) else None)
   }"

definition lookup :: "catalogue \<Rightarrow> string \<Rightarrow> string \<Rightarrow> go_error + secret_spec" where
  "lookup cat dir name =
     (case Lookup cat name of
        None \<Rightarrow> Inl (Wrapf [] (Sentinel ErrUnknownSecret)
          ('': '' @ quote name @ '' is not in the catalogue; declare it under zones.<role>.secrets in ''
            @ path_join dir TopologyFile))
      | Some spec \<Rightarrow> Inr spec)"

text \<open>What the machine's store holds for a name, and storing a value there.\<close>

definition inspect :: "'w secrets_app \<Rightarrow> string \<Rightarrow> ('w, store_outcome) io" where
  "inspect s name = do {
     running \<leftarrow> tgMachineRunning (saTarget s);
     case running of
       Inl err \<Rightarrow> ret \<lparr>soState = StoreFailed, soErr = Some err\<rparr>
     | Inr up \<Rightarrow>
         if \<not> up then ret \<lparr>soState = StoreStopped, soErr = None\<rparr>
         else do {
           r \<leftarrow> tgSecretExists (saTarget s) name;
           ret (case r of
                  Inl err \<Rightarrow> \<lparr>soState = StoreFailed, soErr = Some err\<rparr>
                | Inr exists \<Rightarrow>
                    if exists then \<lparr>soState = StoreStored, soErr = None\<rparr>
                    else \<lparr>soState = StoreAbsent, soErr = None\<rparr>)
         }
   }"

definition push :: "'w ctx \<Rightarrow> 'w secrets_app \<Rightarrow> secret_spec \<Rightarrow> string \<Rightarrow> ('w, go_error + outcome) io" where
  "push ctx s spec value =
     ensure id ctx (do {
       running \<leftarrow> tgMachineRunning (saTarget s);
       so \<leftarrow> (case running of
         Inl err \<Rightarrow> ret \<lparr>soState = StoreFailed, soErr = Some err\<rparr>
       | Inr up \<Rightarrow>
           if \<not> up then ret \<lparr>soState = StoreStopped, soErr = None\<rparr>
           else do {
             r \<leftarrow> tgStoreSecret (saTarget s) (sName spec) value;
             ret (case r of
                    Some err \<Rightarrow> \<lparr>soState = StoreFailed, soErr = Some err\<rparr>
                  | None \<Rightarrow> \<lparr>soState = StoreStored, soErr = None\<rparr>)
           });
       ret (Inr \<lparr>ouName = sName spec, ouStore = so, ouWarning = []\<rparr>)
     })"

definition produce :: "'w secrets_app \<Rightarrow> secret_spec \<Rightarrow> ('w, go_error + string) io" where
  "produce s spec =
     (if sSource spec = Minted then kmMint (saMinter s) (sName spec)
      else Generate (sGenerator spec) (saRandom s))"

section \<open>Reading operations\<close>

fun list_loop :: "'w ctx \<Rightarrow> 'w secrets_app \<Rightarrow> string \<Rightarrow> secret_spec list \<Rightarrow> secret_status list \<Rightarrow>
    ('w, go_error + secret_status list) io" where
  "list_loop ctx s path [] out = ret (Inr out)"
| "list_loop ctx s path (spec # specs) out =
     ensure id ctx (do {
       item \<leftarrow> kcDescribe (saKeychain s) path (sName spec);
       case item of
         Inl err \<Rightarrow>
           if errors_is err ErrSecretNotFound
           then list_loop ctx s path specs (out @ [\<lparr>ssSpec = spec, ssSource = sSource spec, ssSet = False\<rparr>])
           else ret (Inl (secrets_error ''describe'' (sName spec) err))
       | Inr it \<Rightarrow> list_loop ctx s path specs (out @ [\<lparr>ssSpec = spec, ssSource = siSource it, ssSet = True\<rparr>])
     })"

definition List :: "'w ctx \<Rightarrow> 'w secrets_app \<Rightarrow> string \<Rightarrow> ('w, go_error + secret_status list) io" where
  "List ctx s dir =
     attempt id (prepare s dir) (\<lambda>(topo, cat).
     ensure id (requireKeychain (saKeychain s) (tKeychainPath topo))
       (list_loop ctx s (tKeychainPath topo) (Entries cat) []))"

definition Describe :: "'w secrets_app \<Rightarrow> string \<Rightarrow> string \<Rightarrow> ('w, go_error + secret_detail) io" where
  "Describe s dir name =
     attempt id (prepare s dir) (\<lambda>(topo, cat).
     attempt id (ret (lookup cat dir name)) (\<lambda>spec.
     ensure id (requireKeychain (saKeychain s) (tKeychainPath topo)) (do {
       item \<leftarrow> kcDescribe (saKeychain s) (tKeychainPath topo) name;
       case item of
         Inl err \<Rightarrow>
           if errors_is err ErrSecretNotFound then do {
             so \<leftarrow> inspect s name;
             ret (Inr \<lparr>sdStatus = \<lparr>ssSpec = spec, ssSource = sSource spec, ssSet = False\<rparr>,
                       sdCreated = zero_time, sdModified = zero_time, sdStore = so\<rparr>)
           }
           else ret (Inl (secrets_error ''describe'' name err))
       | Inr it \<Rightarrow> do {
           so \<leftarrow> inspect s name;
           ret (Inr \<lparr>sdStatus = \<lparr>ssSpec = spec, ssSource = siSource it, ssSet = True\<rparr>,
                     sdCreated = siCreated it, sdModified = siModified it, sdStore = so\<rparr>)
         }
     })))"

definition not_set :: "string \<Rightarrow> string \<Rightarrow> go_error" where
  "not_set name rest = Wrapf [] (Sentinel ErrSecretNotFound) ('': '' @ quote name @ '' is not set'' @ rest)"

definition Get :: "'w secrets_app \<Rightarrow> string \<Rightarrow> string \<Rightarrow> ('w, go_error + string) io" where
  "Get s dir name =
     attempt id (prepare s dir) (\<lambda>(topo, cat).
     attempt id (ret (lookup cat dir name)) (\<lambda>spec.
     ensure id (requireKeychain (saKeychain s) (tKeychainPath topo))
       (attempt (\<lambda>err. if errors_is err ErrSecretNotFound then not_set name []
                       else secrets_error ''get'' name err)
          (kcGet (saKeychain s) (tKeychainPath topo) name) (\<lambda>value. ret (Inr value)))))"

section \<open>Writing operations\<close>

definition already_set :: "string \<Rightarrow> go_error" where
  "already_set name = Wrapf [] (Sentinel ErrSecretExists)
     ('': '' @ quote name @ ''; run `lclaw secrets update '' @ name @ ''` to replace it'')"

definition set_first :: "string \<Rightarrow> string" where
  "set_first name = ''; run `lclaw secrets set '' @ name @ ''` first''"

definition delete_warning :: "secret_spec \<Rightarrow> string \<Rightarrow> string" where
  "delete_warning spec name =
     (if \<not> sRotatable spec
      then name @ '' may not be rotated: the next `lclaw up` generates a new value and anything encrypted with the old one becomes unreadable''
      else [])"

definition Set :: "'w ctx \<Rightarrow> 'w secrets_app \<Rightarrow> string \<Rightarrow> string \<Rightarrow> string \<Rightarrow> ('w, go_error + outcome) io" where
  "Set ctx s dir name value =
     attempt id (prepare s dir) (\<lambda>(topo, cat).
     attempt id (ret (lookup cat dir name)) (\<lambda>spec.
     ensure id (ret (ValidateValue value))
     (ensure id (requireKeychain (saKeychain s) (tKeychainPath topo))
     (ensure (\<lambda>err. if errors_is err ErrSecretExists
                    then already_set name
                    else secrets_error ''set'' name err)
        (kcPut (saKeychain s) (tKeychainPath topo) name value User False)
        (push ctx s spec value)))))"

text \<open>The guard of \<open>update --generate\<close>, or the validation of the given value.\<close>

definition update_guard :: "secret_spec \<Rightarrow> string \<Rightarrow> string \<Rightarrow> bool \<Rightarrow> go_error option" where
  "update_guard spec name value generate =
     (if generate then
        (if sSource spec = User then
           Some (Wrapf [] (Sentinel ErrNotGeneratable)
             ('': '' @ quote name @ '' is user-supplied and has nothing to generate''))
         else if \<not> sRotatable spec then
           Some (Wrapf [] (Sentinel ErrNotGeneratable) ('': '' @ quote name @ '' may not be rotated''))
         else None)
      else ValidateValue value)"

definition Update :: "'w ctx \<Rightarrow> 'w secrets_app \<Rightarrow> string \<Rightarrow> string \<Rightarrow> string \<Rightarrow> bool \<Rightarrow>
    ('w, go_error + outcome) io" where
  "Update ctx s dir name value generate =
     attempt id (prepare s dir) (\<lambda>(topo, cat).
     attempt id (ret (lookup cat dir name)) (\<lambda>spec.
     let source = (if generate then sSource spec else User) in
     ensure id (ret (update_guard spec name value generate))
     (ensure id (requireKeychain (saKeychain s) (tKeychainPath topo))
     (attempt (\<lambda>err. if errors_is err ErrSecretNotFound
                     then not_set name (set_first name)
                     else secrets_error ''update'' name err)
        (kcDescribe (saKeychain s) (tKeychainPath topo) name) (\<lambda>_.
     attempt (secrets_error ''update'' name)
        (if generate then produce s spec else ret (Inr value)) (\<lambda>value.
     ensure (secrets_error ''update'' name)
        (kcPut (saKeychain s) (tKeychainPath topo) name value source True)
        (push ctx s spec value)))))))"

definition Delete :: "'w secrets_app \<Rightarrow> string \<Rightarrow> string \<Rightarrow> ('w, go_error + outcome) io" where
  "Delete s dir name =
     attempt id (prepare s dir) (\<lambda>(topo, cat).
     attempt id (ret (lookup cat dir name)) (\<lambda>spec.
     ensure id (requireKeychain (saKeychain s) (tKeychainPath topo))
     (ensure (\<lambda>err. if errors_is err ErrSecretNotFound then not_set name []
                    else secrets_error ''delete'' name err)
        (kcDelete (saKeychain s) (tKeychainPath topo) name)
     (do {
       so \<leftarrow> inspect s name;
       so \<leftarrow> (if soState so = StoreStored then do {
                r \<leftarrow> tgRemoveSecret (saTarget s) name;
                ret (case r of
                       Some err \<Rightarrow> \<lparr>soState = StoreFailed, soErr = Some err\<rparr>
                     | None \<Rightarrow> so\<lparr>soState := StoreRemoved\<rparr>)
              }
              else ret so);
       ret (Inr \<lparr>ouName = name, ouStore = so,
         ouWarning = delete_warning spec name\<rparr>)
     }))))"

section \<open>The calls an operation makes\<close>

definition log_secrets :: "'w secrets_app \<Rightarrow> 'w logged secrets_app" where
  "log_secrets s =
     \<lparr>saScaffold = log_opener (saScaffold s), saTopology = log_loader (saTopology s),
      saKeychain = log_keychain (saKeychain s), saTarget = log_target (saTarget s),
      saMinter = log_minter (saMinter s), saRandom = log_random (saRandom s)\<rparr>"

lemma log_secrets_sel [simp]:
  "saScaffold (log_secrets s) = log_opener (saScaffold s)"
  "saTopology (log_secrets s) = log_loader (saTopology s)"
  "saKeychain (log_secrets s) = log_keychain (saKeychain s)"
  "saTarget (log_secrets s) = log_target (saTarget s)"
  "saMinter (log_secrets s) = log_minter (saMinter s)"
  "saRandom (log_secrets s) = log_random (saRandom s)"
  by (simp_all add: log_secrets_def)

fun scaffold_event :: "event \<Rightarrow> bool" where
  "scaffold_event (EvOpenDir _ _) = True"
| "scaffold_event (EvLoad _ _) = True"
| "scaffold_event _ = False"

definition usable :: "event list \<Rightarrow> bool" where
  "usable es \<longleftrightarrow> (\<exists>fs topo cat. EvLoad fs (Inr topo) \<in> set es \<and>
     NewCatalogue BuiltinSecrets (DeclaredSecrets topo) = (cat, []))"

lemma emits_attempt_prepare [emits_rules]:
  assumes "\<And>e es. list_all scaffold_event es \<Longrightarrow> \<not> usable es \<Longrightarrow> P (Inl e) es"
    and "\<And>fs topo cat. NewCatalogue BuiltinSecrets (DeclaredSecrets topo) = (cat, []) \<Longrightarrow>
      emits (\<lambda>b es. P b (EvOpenDir dir (Inr fs) # EvLoad fs (Inr topo) # es)) (f (topo, cat))"
  shows "emits P (attempt id (prepare (log_secrets s) dir) f)"
proof -
  let ?Q = "\<lambda>r es. case r of
      Inl e \<Rightarrow> list_all scaffold_event es \<and> \<not> usable es
    | Inr (topo, cat) \<Rightarrow> NewCatalogue BuiltinSecrets (DeclaredSecrets topo) = (cat, []) \<and>
        (\<exists>fs. es = [EvOpenDir dir (Inr fs), EvLoad fs (Inr topo)])"
  have "emits ?Q (prepare (log_secrets s) dir)"
    unfolding prepare_def log_secrets_sel log_files_sel
    by (intro emits_rules emits_ret) (auto simp: usable_def split: sum.splits prod.splits)
  then show ?thesis
    by (rule emits_attempt) (use assms in auto)
qed

lemma emits_ensure_keychain [emits_rules]:
  assumes "\<And>e. P (Inl (wrap_secrets e)) [EvExists path (Inl e)]"
    and "P (Inl (keychain_missing path)) [EvExists path (Inr False)]"
    and "emits (\<lambda>b es. P b (EvExists path (Inr True) # es)) k"
  shows "emits P (ensure id (requireKeychain (log_keychain kc) path) k)"
  unfolding ensure_def requireKeychain_def
  by (auto intro!: emits_rules emits_ret assms split: sum.splits if_splits bool.splits)

text \<open>
  The trace discipline of the command group. Nothing is asked of the keychain, of
  the machine's store or of the minter before the keychain file was seen to exist;
  every call that names a keychain names that file.
\<close>

fun keychain_path :: "event \<Rightarrow> string option" where
  "keychain_path (EvCreate p _) = Some p"
| "keychain_path (EvGet p _ _) = Some p"
| "keychain_path (EvDescribe p _ _) = Some p"
| "keychain_path (EvPut p _ _ _ _ _) = Some p"
| "keychain_path (EvDelete p _ _) = Some p"
| "keychain_path _ = None"

fun machine_event :: "event \<Rightarrow> bool" where
  "machine_event (EvRunning _) = True"
| "machine_event (EvStore _ _ _) = True"
| "machine_event (EvSecretExists _ _) = True"
| "machine_event (EvRemoveSecret _ _) = True"
| "machine_event (EvMint _ _) = True"
| "machine_event e = False"

fun guarded :: "string set \<Rightarrow> event list \<Rightarrow> bool" where
  "guarded seen [] = True"
| "guarded seen (EvExists p (Inr True) # es) = guarded (insert p seen) es"
| "guarded seen (e # es) =
     ((case keychain_path e of Some p \<Rightarrow> p \<in> seen | None \<Rightarrow> machine_event e \<longrightarrow> seen \<noteq> {}) \<and>
      guarded seen es)"

definition opened :: "event list \<Rightarrow> bool" where
  "opened es \<longleftrightarrow> (\<exists>p. EvExists p (Inr True) \<in> set es)"

lemma opened_simps [simp]:
  "opened [] = False"
  "opened (e # es) = ((\<exists>p. e = EvExists p (Inr True)) \<or> opened es)"
  by (auto simp: opened_def)

definition is_Inl :: "'a + 'b \<Rightarrow> bool" where
  "is_Inl r = (case r of Inl _ \<Rightarrow> True | Inr _ \<Rightarrow> False)"

lemma is_Inl_simps [simp]: "is_Inl (Inl x) = True" "is_Inl (Inr y) = False"
  by (simp_all add: is_Inl_def)

definition disciplined :: "'e + 'a \<Rightarrow> event list \<Rightarrow> bool" where
  "disciplined r es \<longleftrightarrow> guarded {} es \<and> (opened es \<or> is_Inl r)"

lemma guarded_scaffold: "list_all scaffold_event es \<Longrightarrow> guarded seen es"
proof (induction es)
  case (Cons e es)
  then show ?case by (cases e) simp_all
qed simp

lemma disciplined_scaffold: "list_all scaffold_event es \<Longrightarrow> disciplined (Inl e) es"
  by (simp add: disciplined_def guarded_scaffold)

text \<open>What \<open>inspect\<close> asks, by its answer.\<close>

definition inspected :: "string \<Rightarrow> store_outcome \<Rightarrow> event list \<Rightarrow> bool" where
  "inspected name so es \<longleftrightarrow>
     (case soState so of
        StoreStored \<Rightarrow> es = [EvRunning (Inr True), EvSecretExists name (Inr True)]
      | StoreAbsent \<Rightarrow> es = [EvRunning (Inr True), EvSecretExists name (Inr False)]
      | StoreStopped \<Rightarrow> es = [EvRunning (Inr False)]
      | StoreFailed \<Rightarrow> (\<exists>e. es = [EvRunning (Inl e)] \<or>
          es = [EvRunning (Inr True), EvSecretExists name (Inl e)])
      | StoreRemoved \<Rightarrow> False)"

lemmas log_sels = log_secrets_sel log_files_sel log_keychain_sel log_target_sel log_minter_sel

lemma emits_inspect [emits_rules]:
  assumes "\<And>so es. inspected name so es \<Longrightarrow> emits (\<lambda>b fs. P b (es @ fs)) (f so)"
  shows "emits P (State_Monad.bind (inspect (log_secrets s) name) f)"
proof (rule emits_bind [OF _ assms])
  show "emits (inspected name) (inspect (log_secrets s) name)"
    unfolding inspect_def log_sels
    by (intro emits_rules emits_ret) (auto simp: inspected_def split: sum.splits)
qed simp

text \<open>What \<open>push\<close> does: at most one store of the given value, and the outcome says which.\<close>

definition pushed :: "secret_spec \<Rightarrow> string \<Rightarrow> go_error + outcome \<Rightarrow> event list \<Rightarrow> bool" where
  "pushed spec value r es \<longleftrightarrow>
     (case r of
        Inl _ \<Rightarrow> es = []
      | Inr out \<Rightarrow> ouName out = sName spec \<and>
          (case soState (ouStore out) of
             StoreStored \<Rightarrow> es = [EvRunning (Inr True), EvStore (sName spec) value None]
           | StoreStopped \<Rightarrow> es = [EvRunning (Inr False)]
           | StoreFailed \<Rightarrow> (\<exists>e. es = [EvRunning (Inl e)] \<or>
               es = [EvRunning (Inr True), EvStore (sName spec) value (Some e)])
           | _ \<Rightarrow> False))"

lemma emits_push: "emits (pushed spec value) (push (untap ctx) (log_secrets s) spec value)"
  unfolding push_def log_sels
  by (intro emits_rules emits_ret) (auto simp: pushed_def split: option.splits)

lemma emits_pushI [emits_rules]:
  "(\<And>r es. pushed spec value r es \<Longrightarrow> P r es) \<Longrightarrow> emits P (push (untap ctx) (log_secrets s) spec value)"
  using emits_push emits_conseq by blast

definition produced :: "secret_spec \<Rightarrow> go_error + string \<Rightarrow> event list \<Rightarrow> bool" where
  "produced spec r es \<longleftrightarrow> (if sSource spec = Minted then es = [EvMint (sName spec) r] else es = [])"

lemma emits_attempt_produce [emits_rules]:
  assumes "\<And>e es. produced spec (Inl e) es \<Longrightarrow> P (Inl (wrap e)) es"
    and "\<And>v es. produced spec (Inr v) es \<Longrightarrow> emits (\<lambda>b fs. P b (es @ fs)) (f v)"
  shows "emits P (attempt wrap (produce (log_secrets s) spec) f)"
proof (rule emits_attempt [OF _ assms])
  show "emits (produced spec) (produce (log_secrets s) spec)"
    unfolding produce_def log_sels produced_def
    by (intro emits_rules emits_tap emits_GenerateI) simp_all
qed

lemma guarded_tail:
  "seen \<noteq> {} \<Longrightarrow> \<forall>e \<in> set es. machine_event e \<Longrightarrow> guarded seen es"
proof (induction es)
  case (Cons e es)
  then show ?case by (cases e) simp_all
qed simp

lemma guarded_append_machine:
  "guarded seen es \<Longrightarrow> \<forall>e \<in> set es. machine_event e \<Longrightarrow> guarded seen fs \<Longrightarrow> guarded seen (es @ fs)"
proof (induction es)
  case (Cons e es)
  then show ?case by (cases e) simp_all
qed simp

lemma pushed_machine: "pushed spec value r es \<Longrightarrow> e \<in> set es \<Longrightarrow> machine_event e"
  by (auto simp: pushed_def split: sum.splits store_state.splits)

lemma inspect_machine: "inspected name so es \<Longrightarrow> e \<in> set es \<Longrightarrow> machine_event e"
  by (auto simp: inspected_def split: store_state.splits)

lemma produced_machine: "produced spec r es \<Longrightarrow> e \<in> set es \<Longrightarrow> machine_event e"
  by (auto simp: produced_def split: if_splits)

lemmas disciplined_simps = disciplined_def guarded_scaffold guarded_tail guarded_append_machine
  pushed_machine inspect_machine produced_machine

lemma emits_list_loop:
  "emits (\<lambda>_ es. set es \<subseteq> {e. \<exists>n a. e = EvDescribe path n a}) (list_loop (untap ctx) (log_secrets s) path specs out)"
proof (induction specs arbitrary: out)
  case (Cons spec specs)
  show ?case
    unfolding list_loop.simps log_sels
    by (intro emits_rules emits_ret) (simp_all add: Cons.IH)
qed (simp add: emits_ret)

lemma describes_guarded:
  "path \<in> seen \<Longrightarrow> \<forall>e \<in> set es. \<exists>n a. e = EvDescribe path n a \<Longrightarrow> guarded seen es"
  by (induction es) auto

lemma emits_list_loopI [emits_rules]:
  "(\<And>r es. set es \<subseteq> {e. \<exists>n a. e = EvDescribe path n a} \<Longrightarrow> P r es) \<Longrightarrow>
    emits P (list_loop (untap ctx) (log_secrets s) path specs out)"
  using emits_list_loop emits_conseq by blast

lemma disciplined_List: "emits disciplined (List (untap ctx) (log_secrets s) dir)"
  unfolding List_def log_sels
  by (intro emits_rules emits_ret)
    (auto simp: disciplined_simps describes_guarded subset_iff)

lemma disciplined_Describe: "emits disciplined (Describe (log_secrets s) dir name)"
  unfolding Describe_def log_sels
  by (intro emits_rules emits_ret) (simp_all add: disciplined_simps)

lemma disciplined_Get: "emits disciplined (Get (log_secrets s) dir name)"
  unfolding Get_def log_sels
  by (intro emits_rules emits_ret) (simp_all add: disciplined_simps)

lemma disciplined_Set: "emits disciplined (Set (untap ctx) (log_secrets s) dir name value)"
  unfolding Set_def log_sels
  by (intro emits_rules emits_ret) (simp_all add: disciplined_simps)

lemma disciplined_Update: "emits disciplined (Update (untap ctx) (log_secrets s) dir name value generate)"
  unfolding Update_def log_sels
  by (intro emits_rules emits_ret) (simp_all add: disciplined_simps)

lemma disciplined_Delete: "emits disciplined (Delete (log_secrets s) dir name)"
  unfolding Delete_def log_sels
  by (intro emits_rules emits_ret) (simp_all add: disciplined_simps)

text \<open>
  C7: the keychain is checked first. In every operation of \<open>lclaw secrets\<close>, whatever
  the outside world answers, no keychain item is touched, the machine's store is
  not asked and nothing is minted until the keychain file of the topology was seen
  to exist; an operation that never saw it returns an error.
\<close>

theorem secrets_guarded:
  "emits disciplined (List (untap ctx) (log_secrets s) dir) \<and>
   emits disciplined (Describe (log_secrets s) dir name) \<and>
   emits disciplined (Get (log_secrets s) dir name) \<and>
   emits disciplined (Set (untap ctx) (log_secrets s) dir name value) \<and>
   emits disciplined (Update (untap ctx) (log_secrets s) dir name value generate) \<and>
   emits disciplined (Delete (log_secrets s) dir name)"
  by (intro conjI disciplined_List disciplined_Describe disciplined_Get disciplined_Set
      disciplined_Update disciplined_Delete)

section \<open>Where values go\<close>

lemma logs_list_loop [io_rules]:
  "(\<And>n a. A (EvDescribe path n a)) \<Longrightarrow> logs A (list_loop (untap ctx) (log_secrets s) path specs out)"
proof (induction specs arbitrary: out)
  case (Cons spec specs)
  show ?case
    unfolding list_loop.simps log_sels
    by (intro io_rules Cons.IH Cons.prems)
qed (simp add: io_rules)

lemma logs_produce [io_rules]: "(\<And>n a. A (EvMint n a)) \<Longrightarrow> logs A (produce (log_secrets s) spec)"
  unfolding produce_def log_sels by (intro io_rules)

lemmas secrets_ops = List_def Describe_def Get_def Set_def Update_def Delete_def
  prepare_def requireKeychain_def inspect_def push_def

text \<open>
  C22: only \<open>secrets get\<close> reads a stored value. Listing and describing read no value
  and change nothing, getting changes nothing, and setting, updating and deleting
  never read a value back.
\<close>

theorem secrets_effects:
  "logs (\<lambda>e. \<not> reads_value e \<and> \<not> writes_event e) (List (untap ctx) (log_secrets s) dir) \<and>
   logs (\<lambda>e. \<not> reads_value e \<and> \<not> writes_event e) (Describe (log_secrets s) dir name) \<and>
   logs (\<lambda>e. \<not> writes_event e) (Get (log_secrets s) dir name) \<and>
   logs (\<lambda>e. \<not> reads_value e) (Set (untap ctx) (log_secrets s) dir name value) \<and>
   logs (\<lambda>e. \<not> reads_value e) (Update (untap ctx) (log_secrets s) dir name value generate) \<and>
   logs (\<lambda>e. \<not> reads_value e) (Delete (log_secrets s) dir name)"
  unfolding secrets_ops log_sels
  by (intro conjI io_rules; simp)

section \<open>What the writing operations write\<close>

definition is_err :: "go_error + 'a \<Rightarrow> sentinel \<Rightarrow> bool" where
  "is_err r s = (case r of Inl e \<Rightarrow> errors_is e s | Inr _ \<Rightarrow> False)"

lemma is_err_simps [simp]: "is_err (Inl e) s = errors_is e s" "is_err (Inr x) s = False"
  by (simp_all add: is_err_def)

lemma Lookup_Some_name: "Lookup cat name = Some spec \<Longrightarrow> sName spec = name"
  by (induction cat) (auto split: if_splits)


lemma lookup_Inl_None: "lookup cat dir name = Inl e \<Longrightarrow> Lookup cat name = None"
  by (auto simp: lookup_def split: option.splits)

lemma lookup_Inl: "lookup cat dir name = Inl e \<Longrightarrow> errors_is e ErrUnknownSecret"
  by (auto simp: lookup_def split: option.splits)

lemma errors_is_wraps [simp]:
  "errors_is (wrap_secrets e) t = errors_is e t"
  "errors_is (secrets_error verb name e) t = errors_is e t"
  "errors_is (not_set name rest) t = (t = ErrSecretNotFound)"
  "errors_is (already_set name) t = (t = ErrSecretExists)"
  "errors_is (keychain_missing path) t = (t = ErrKeychainMissing)"
  by (auto simp: wrap_secrets_def secrets_error_def not_set_def already_set_def keychain_missing_def)

text \<open>The keychain accepted \<open>v\<close> for \<open>n\<close>, with this source and replacement flag.\<close>

definition put_done :: "string \<Rightarrow> string \<Rightarrow> source \<Rightarrow> bool \<Rightarrow> event list \<Rightarrow> bool" where
  "put_done n v src repl es \<longleftrightarrow> (\<exists>path. EvPut path n v src repl None \<in> set es)"

text \<open>
  What the machine's store got and what the outcome says about it: only a value the
  keychain accepted under the same name, and \<open>stored\<close> exactly when the store took it.
\<close>

definition store_follows_keychain :: "go_error + outcome \<Rightarrow> source \<Rightarrow> bool \<Rightarrow> string \<Rightarrow> event list \<Rightarrow> bool" where
  "store_follows_keychain r src repl name es \<longleftrightarrow>
     (\<forall>n v a. EvStore n v a \<in> set es \<longrightarrow> n = name \<and> put_done name v src repl es) \<and>
     (\<forall>out. r = Inr out \<longrightarrow> ouName out = name \<and> (\<exists>v. put_done name v src repl es) \<and>
        (soState (ouStore out) = StoreStored \<longleftrightarrow> (\<exists>v. EvStore name v None \<in> set es)))"

lemma scaffold_no_port:
  assumes "list_all scaffold_event es"
  shows "EvPut p n v src repl a \<notin> set es" "EvStore n v b \<notin> set es" "EvDelete p n b \<notin> set es"
    "EvRemoveSecret n b \<notin> set es" "EvGet p n c \<notin> set es" "EvDescribe p n d \<notin> set es"
    "EvMint n c \<notin> set es" "EvExists p e \<notin> set es"
  using assms by (auto simp: list_all_iff)

definition set_contract :: "string \<Rightarrow> string \<Rightarrow> go_error + outcome \<Rightarrow> event list \<Rightarrow> bool" where
  "set_contract name value r es \<longleftrightarrow>
     (\<forall>p n v src repl a. EvPut p n v src repl a \<in> set es \<longrightarrow>
        n = name \<and> v = value \<and> src = User \<and> \<not> repl \<and> ValidateValue value = None \<and>
        (case a of Some e \<Rightarrow> errors_is e ErrSecretExists \<longrightarrow> is_err r ErrSecretExists | None \<Rightarrow> True)) \<and>
     store_follows_keychain r User False name es"

lemma set_contract_nil: "list_all scaffold_event es \<Longrightarrow> set_contract name value (Inl e) es"
  by (simp add: set_contract_def store_follows_keychain_def scaffold_no_port)

lemmas contract_simps = scaffold_no_port put_done_def pushed_def inspected_def produced_def


text \<open>The catalogue entry that a trace looked a name up in.\<close>

definition looked_up :: "string \<Rightarrow> secret_spec \<Rightarrow> event list \<Rightarrow> bool" where
  "looked_up name spec es \<longleftrightarrow>
     (\<exists>fs topo cat. EvLoad fs (Inr topo) \<in> set es \<and>
        NewCatalogue BuiltinSecrets (DeclaredSecrets topo) = (cat, []) \<and> Lookup cat name = Some spec)"

lemma lookup_Inr_Lookup: "lookup cat dir name = Inr spec \<Longrightarrow> Lookup cat name = Some spec \<and> sName spec = name"
  by (auto simp: lookup_def Lookup_Some_name split: option.splits)

definition refused_generate :: "secret_spec \<Rightarrow> bool" where
  "refused_generate spec \<longleftrightarrow> sSource spec = User \<or> \<not> sRotatable spec"

definition update_contract :: "string \<Rightarrow> string \<Rightarrow> bool \<Rightarrow> go_error + outcome \<Rightarrow> event list \<Rightarrow> bool" where
  "update_contract name value generate r es \<longleftrightarrow>
     (\<forall>p n v src repl a. EvPut p n v src repl a \<in> set es \<longrightarrow>
        n = name \<and> repl \<and> (\<exists>it. EvDescribe p name (Inr it) \<in> set es) \<and>
        (if generate
         then \<exists>spec. looked_up name spec es \<and> sSource spec \<noteq> User \<and> sRotatable spec \<and> src = sSource spec \<and>
           (src = Minted \<longrightarrow> EvMint name (Inr v) \<in> set es)
         else src = User \<and> v = value \<and> ValidateValue value = None)) \<and>
     (\<forall>p e. EvDescribe p name (Inl e) \<in> set es \<and> errors_is e ErrSecretNotFound \<longrightarrow> is_err r ErrSecretNotFound) \<and>
     (\<forall>spec. generate \<and> looked_up name spec es \<and> refused_generate spec \<longrightarrow>
        is_err r ErrNotGeneratable \<and> list_all scaffold_event es) \<and>
     (\<exists>src. store_follows_keychain r src True name es)"

lemma update_guard_generate:
  "update_guard spec name value True = None \<longleftrightarrow> \<not> refused_generate spec"
  "update_guard spec name value True = Some e \<Longrightarrow> errors_is e ErrNotGeneratable"
  "update_guard spec name value False = ValidateValue value"
  by (auto simp: update_guard_def refused_generate_def split: if_splits)

text \<open>
  C20: \<open>secrets update\<close>. The keychain is asked only to replace the named item, and
  only after it described that item; without \<open>--generate\<close> with the given, legal
  value and source user, with it with the entry's own source and a freshly minted
  or generated value, and then only for an entry that is not the user's and may be
  rotated; for any other entry \<open>--generate\<close> is refused before the keychain is
  asked anything. An unset item is an error of that class, and the machine's store follows
  the keychain.
\<close>

theorem Update_contract:
  "emits (update_contract name value generate) (Update (untap ctx) (log_secrets s) dir name value generate)"
  unfolding Update_def log_sels Let_def
  by (intro emits_rules emits_ret)
    (auto simp: update_contract_def store_follows_keychain_def contract_simps update_guard_generate
      refused_generate_def looked_up_def usable_def dest!: lookup_Inl_None lookup_Inr_Lookup update_guard_generate(2)
      split: sum.splits store_state.splits if_splits)


lemma delete_warning_nil [simp]: "delete_warning spec name = [] \<longleftrightarrow> sRotatable spec"
  by (simp add: delete_warning_def)


end
