(* ===== verification/LifecycleSecrets.thy ===== *)
theory LifecycleSecrets
  imports SecretsApp
begin

text \<open>
  \<open>internal/app/lifecycle_secrets.go\<close>: the secrets steps of \<open>up\<close> and \<open>down\<close>: resolving
  a zone's secrets from the keychain, injecting them into the machine's store, and
  purging the store.
\<close>

section \<open>Resolving\<close>

record resolved_secret =
  rvName :: string
  rvValue :: string

text \<open>The minter may be nil; calling it then is a panic, an error that carries its text.\<close>

record 'w resolve_secrets =
  rsKeychain :: "'w keychain"
  rsMinter :: "'w key_minter option"
  rsRandom :: "'w reader"

definition nil_dereference :: go_error where
  "nil_dereference = Plain ''runtime error: invalid memory address or nil pointer dereference''"

definition resolve_error :: "string \<Rightarrow> secret_spec \<Rightarrow> go_error \<Rightarrow> go_error" where
  "resolve_error verb spec err = Wrapf (''resolve secrets: '' @ verb @ sName spec @ '': '') err []"

definition unset_check :: "secret_spec \<Rightarrow> check" where
  "unset_check spec = mkCheck (sName spec) Fail ''unset'' (''run `lclaw secrets set '' @ sName spec @ ''`'')"

definition not_minted_check :: "secret_spec \<Rightarrow> go_error \<Rightarrow> check" where
  "not_minted_check spec err =
     mkCheck (sName spec) Fail (''not minted: '' @ err_text err) ''run `lclaw up services` first''"

fun resolve_loop :: "'w ctx \<Rightarrow> 'w resolve_secrets \<Rightarrow> string \<Rightarrow> secret_spec list \<Rightarrow>
    resolved_secret list \<Rightarrow> check list \<Rightarrow> ('w, go_error + resolved_secret list \<times> check list) io" where
  "resolve_loop ctx r path [] resolved findings = ret (Inr (resolved, findings))"
| "resolve_loop ctx r path (spec # specs) resolved findings =
     ensure id ctx (do {
       got \<leftarrow> kcGet (rsKeychain r) path (sName spec);
       case got of
         Inr value \<Rightarrow>
           resolve_loop ctx r path specs (resolved @ [\<lparr>rvName = sName spec, rvValue = value\<rparr>]) findings
       | Inl err \<Rightarrow>
           if \<not> errors_is err ErrSecretNotFound then ret (Inl (resolve_error [] spec err))
           else if sSource spec = User then
             resolve_loop ctx r path specs resolved (findings @ [unset_check spec])
           else if sSource spec = Minted then
             (case rsMinter r of
                None \<Rightarrow> ret (Inl nil_dereference)
              | Some minter \<Rightarrow> do {
                  minted \<leftarrow> kmMint minter (sName spec);
                  case minted of
                    Inl err \<Rightarrow> resolve_loop ctx r path specs resolved (findings @ [not_minted_check spec err])
                  | Inr value \<Rightarrow>
                      ensure (resolve_error ''store '' spec)
                        (kcPut (rsKeychain r) path (sName spec) value Minted False)
                        (resolve_loop ctx r path specs
                          (resolved @ [\<lparr>rvName = sName spec, rvValue = value\<rparr>]) findings)
                })
           else
             attempt (resolve_error [] spec) (Generate (sGenerator spec) (rsRandom r)) (\<lambda>value.
             ensure (resolve_error ''store '' spec)
               (kcPut (rsKeychain r) path (sName spec) value Generated False)
               (resolve_loop ctx r path specs
                 (resolved @ [\<lparr>rvName = sName spec, rvValue = value\<rparr>]) findings))
     })"

definition ResolveSecrets :: "'w ctx \<Rightarrow> 'w resolve_secrets \<Rightarrow> string \<Rightarrow> catalogue \<Rightarrow> role \<Rightarrow>
    ('w, go_error + resolved_secret list \<times> check list) io" where
  "ResolveSecrets ctx r path cat role =
     ensure id (requireKeychain (rsKeychain r) path)
       (resolve_loop ctx r path (ForZone cat role) [] [])"

section \<open>Injecting and purging\<close>

definition inject_error :: "string \<Rightarrow> go_error \<Rightarrow> go_error" where
  "inject_error name err = Wrapf (''inject secrets: '' @ name @ '': '') err []"

fun InjectSecrets :: "'w ctx \<Rightarrow> 'w secret_target \<Rightarrow> resolved_secret list \<Rightarrow> ('w, go_error option) io" where
  "InjectSecrets ctx target [] = ret None"
| "InjectSecrets ctx target (s # secrets) = do {
     cancelled \<leftarrow> ctx;
     case cancelled of
       Some err \<Rightarrow> ret (Some err)
     | None \<Rightarrow> do {
         stored \<leftarrow> tgStoreSecret target (rvName s) (rvValue s);
         case stored of
           Some err \<Rightarrow> ret (Some (inject_error (rvName s) err))
         | None \<Rightarrow> InjectSecrets ctx target secrets
       }
   }"

definition purge_error :: "string \<Rightarrow> go_error \<Rightarrow> go_error" where
  "purge_error what err = Wrapf (''purge secrets: '' @ what) err []"

fun purge_loop :: "'w ctx \<Rightarrow> 'w secret_target \<Rightarrow> string list \<Rightarrow> string list \<Rightarrow> ('w, go_error + string list) io" where
  "purge_loop ctx target all [] = ret (Inr all)"
| "purge_loop ctx target all (name # names) =
     ensure id ctx
     (ensure (purge_error (''remove '' @ name @ '': '')) (tgRemoveSecret target name)
     (ensure (purge_error (''remove volume '' @ name @ '': '')) (tgRemoveVolume target name)
       (purge_loop ctx target all names)))"

definition PurgeSecrets :: "'w ctx \<Rightarrow> 'w secret_target \<Rightarrow> ('w, go_error + string list) io" where
  "PurgeSecrets ctx target =
     attempt (purge_error []) (tgListSecrets target) (\<lambda>names. purge_loop ctx target names names)"

section \<open>What the steps do\<close>

definition log_resolve :: "'w resolve_secrets \<Rightarrow> 'w logged resolve_secrets" where
  "log_resolve r =
     \<lparr>rsKeychain = log_keychain (rsKeychain r), rsMinter = map_option log_minter (rsMinter r),
      rsRandom = log_random (rsRandom r)\<rparr>"

lemma log_resolve_sel [simp]:
  "rsKeychain (log_resolve r) = log_keychain (rsKeychain r)"
  "rsMinter (log_resolve r) = map_option log_minter (rsMinter r)"
  "rsRandom (log_resolve r) = log_random (rsRandom r)"
  by (simp_all add: log_resolve_def)

lemma emits_attempt_Generate [emits_rules]:
  assumes "\<And>e. P (Inl (wrap e)) []" and "\<And>v. emits P (f v)"
  shows "emits P (attempt wrap (Generate g (log_random rd)) f)"
  by (rule emits_attempt [OF emits_Generate_nil]) (simp_all add: assms)

text \<open>
  The events of resolving one entry whose outcome is a value, and those of one whose
  outcome is a finding.
\<close>

inductive entry_resolved :: "string \<Rightarrow> secret_spec \<Rightarrow> string \<Rightarrow> event list \<Rightarrow> bool"
  for path :: string and spec :: secret_spec and v :: string where
  stored: "entry_resolved path spec v [EvGet path (sName spec) (Inr v)]"
| minted: "errors_is e ErrSecretNotFound \<Longrightarrow> sSource spec = Minted \<Longrightarrow>
    entry_resolved path spec v
      [EvGet path (sName spec) (Inl e), EvMint (sName spec) (Inr v),
       EvPut path (sName spec) v Minted False None]"
| generated: "errors_is e ErrSecretNotFound \<Longrightarrow> sSource spec = Generated \<Longrightarrow>
    entry_resolved path spec v
      [EvGet path (sName spec) (Inl e), EvPut path (sName spec) v Generated False None]"

inductive entry_found :: "string \<Rightarrow> secret_spec \<Rightarrow> check \<Rightarrow> event list \<Rightarrow> bool"
  for path :: string and spec :: secret_spec where
  unset: "errors_is e ErrSecretNotFound \<Longrightarrow> sSource spec = User \<Longrightarrow>
    entry_found path spec (unset_check spec) [EvGet path (sName spec) (Inl e)]"
| not_minted: "errors_is e ErrSecretNotFound \<Longrightarrow> sSource spec = Minted \<Longrightarrow>
    entry_found path spec (not_minted_check spec e')
      [EvGet path (sName spec) (Inl e), EvMint (sName spec) (Inl e')]"

text \<open>The whole loop: every entry in order, with its value or its finding.\<close>

inductive resolves :: "string \<Rightarrow> secret_spec list \<Rightarrow> resolved_secret list \<Rightarrow> check list \<Rightarrow> event list \<Rightarrow> bool"
  for path :: string where
  resolves_end: "resolves path [] [] [] []"
| resolves_value: "entry_resolved path spec v es \<Longrightarrow> resolves path specs rs cs fs \<Longrightarrow>
    resolves path (spec # specs) (\<lparr>rvName = sName spec, rvValue = v\<rparr> # rs) cs (es @ fs)"
| resolves_finding: "entry_found path spec c es \<Longrightarrow> resolves path specs rs cs fs \<Longrightarrow>
    resolves path (spec # specs) rs (c # cs) (es @ fs)"

text \<open>What the loop does from any point on.\<close>

definition resolving :: "string \<Rightarrow> secret_spec list \<Rightarrow> resolved_secret list \<Rightarrow> check list \<Rightarrow>
    go_error + resolved_secret list \<times> check list \<Rightarrow> event list \<Rightarrow> bool" where
  "resolving path specs rs0 cs0 r es \<longleftrightarrow>
     (case r of
        Inl _ \<Rightarrow> True
      | Inr (rs, cs) \<Rightarrow> \<exists>rs' cs'. rs = rs0 @ rs' \<and> cs = cs0 @ cs' \<and> resolves path specs rs' cs' es)"

lemma resolving_Inl [simp]: "resolving path specs rs0 cs0 (Inl e) es"
  by (simp add: resolving_def)

lemma resolving_value:
  "entry_resolved path spec v es \<Longrightarrow>
    resolving path specs (rs0 @ [\<lparr>rvName = sName spec, rvValue = v\<rparr>]) cs0 r fs \<Longrightarrow>
    resolving path (spec # specs) rs0 cs0 r (es @ fs)"
  by (auto simp: resolving_def split: sum.splits) (metis resolves_value)

lemma resolving_finding:
  "entry_found path spec c es \<Longrightarrow> resolving path specs rs0 (cs0 @ [c]) r fs \<Longrightarrow>
    resolving path (spec # specs) rs0 cs0 r (es @ fs)"
  by (auto simp: resolving_def split: sum.splits) (metis resolves_finding)

lemmas resolving_steps =
  resolving_value [OF entry_resolved.stored] resolving_value [OF entry_resolved.minted]
  resolving_value [OF entry_resolved.generated] resolving_finding [OF entry_found.unset]
  resolving_finding [OF entry_found.not_minted]

lemma not_user_minted: "sSource spec \<noteq> User \<Longrightarrow> sSource spec \<noteq> Minted \<Longrightarrow> sSource spec = Generated"
  by (cases "sSource spec") auto

lemma emits_resolve_loop:
  "emits (resolving path specs rs0 cs0) (resolve_loop (untap ctx) (log_resolve r) path specs rs0 cs0)"
proof (induction specs arbitrary: rs0 cs0)
  case Nil
  show ?case by (auto intro!: emits_ret resolves_end simp: resolving_def)
next
  case (Cons spec specs)
  note IH = emits_conseq [OF Cons.IH] and steps = resolving_steps [simplified]
  show ?case
  proof (cases "rsMinter r")
    case None
    show ?thesis
      unfolding resolve_loop.simps log_resolve_sel log_keychain_sel None option.map option.case
      by (intro emits_rules emits_ret)
        (simp_all, (rule IH, rule steps; (assumption | (rule not_user_minted; assumption)))+)
  next
    case (Some minter)
    show ?thesis
      unfolding resolve_loop.simps log_resolve_sel log_keychain_sel Some option.map option.case log_minter_sel
      by (intro emits_rules emits_ret)
        (simp_all, (rule IH, rule steps; (assumption | (rule not_user_minted; assumption)))+)
  qed
qed

text \<open>No event steps outside the entries of the zone.\<close>

definition entry_of :: "secret_spec list \<Rightarrow> string \<Rightarrow> source \<Rightarrow> bool" where
  "entry_of specs n src \<longleftrightarrow> (\<exists>spec \<in> set specs. sName spec = n \<and> sSource spec = src)"

fun resolve_event :: "string \<Rightarrow> secret_spec list \<Rightarrow> event \<Rightarrow> bool" where
  "resolve_event path specs (EvExists p _) = (p = path)"
| "resolve_event path specs (EvGet p n _) = (p = path \<and> n \<in> sName ` set specs)"
| "resolve_event path specs (EvMint n _) = entry_of specs n Minted"
| "resolve_event path specs (EvPut p n v src repl _) =
     (p = path \<and> \<not> repl \<and> src \<noteq> User \<and> entry_of specs n src)"
| "resolve_event path specs _ = False"

lemma resolve_event_Cons: "resolve_event path specs e \<Longrightarrow> resolve_event path (spec # specs) e"
  by (cases e) (auto simp: entry_of_def)

lemma logs_resolve_loop:
  "logs (resolve_event path specs) (resolve_loop (untap ctx) (log_resolve r) path specs rs cs)"
proof (induction specs arbitrary: rs cs)
  case (Cons spec specs)
  note IH = logs_mono [OF Cons.IH resolve_event_Cons]
  have [simp]: "entry_of (spec # specs) (sName spec) (sSource spec)"
    by (simp add: entry_of_def)
  show ?case
  proof (cases "rsMinter r")
    case None
    show ?thesis
      unfolding resolve_loop.simps log_resolve_sel log_keychain_sel None option.map option.case
      by (intro io_rules IH) (auto dest: not_user_minted simp: entry_of_def)
  next
    case (Some minter)
    show ?thesis
      unfolding resolve_loop.simps log_resolve_sel log_keychain_sel Some option.map option.case log_minter_sel
      by (intro io_rules IH) (auto dest: not_user_minted simp: entry_of_def)
  qed
qed (simp add: io_rules)

lemma emits_and_logs: "emits P m \<Longrightarrow> logs A m \<Longrightarrow> emits (\<lambda>r es. P r es \<and> list_all A es) m"
  unfolding logs_def by (rule emits_conj)

lemma emits_resolve_loopI [emits_rules]:
  "(\<And>q es. resolving path specs rs cs q es \<Longrightarrow> list_all (resolve_event path specs) es \<Longrightarrow> P q es) \<Longrightarrow>
    emits P (resolve_loop (untap ctx) (log_resolve r) path specs rs cs)"
  by (rule emits_conseq [OF emits_and_logs [OF emits_resolve_loop logs_resolve_loop]]) auto

section \<open>The contract of resolving\<close>

text \<open>
  A run that succeeds resolves every entry of the zone in order, with its value or
  its finding; any run asks first whether the keychain exists, and then touches only
  the zone's entries and never replaces an item or stores one the user owns.
\<close>

definition resolve_contract :: "string \<Rightarrow> secret_spec list \<Rightarrow>
    go_error + resolved_secret list \<times> check list \<Rightarrow> event list \<Rightarrow> bool" where
  "resolve_contract path specs q es \<longleftrightarrow>
     list_all (resolve_event path specs) es \<and> guarded {} es \<and>
     (case q of
        Inl _ \<Rightarrow> True
      | Inr (rs, cs) \<Rightarrow> \<exists>es'. es = EvExists path (Inr True) # es' \<and> resolves path specs rs cs es')"

lemma resolve_events_guarded:
  "list_all (resolve_event path specs) es \<Longrightarrow> path \<in> seen \<Longrightarrow> guarded seen es"
proof (induction es arbitrary: seen)
  case (Cons e es)
  show ?case
  proof (cases e)
    case (EvExists p a)
    then show ?thesis
      using Cons by (cases a; cases "a = Inr False") auto
  qed (use Cons in auto)
qed simp

lemma emits_ResolveSecrets_spec:
  "emits (resolve_contract path (ForZone cat role)) (ResolveSecrets (untap ctx) (log_resolve r) path cat role)"
  unfolding ResolveSecrets_def log_resolve_sel
  by (intro emits_rules emits_ret)
    (auto simp: resolve_contract_def resolving_def split: sum.splits intro: resolve_events_guarded)

text \<open>
  Resolving a zone's secrets. The keychain file is checked first. Then only the
  zone's entries are touched: no item is replaced, none the user owns is written,
  and a mint is asked only for a minted entry. A successful run reads each entry in
  catalogue order, and each yields the stored value, or the value that was minted or
  generated and stored because it was missing, or the finding that it is unset or
  could not be minted.
\<close>

theorem Resolve_contract:
  "emits (resolve_contract path (ForZone cat role)) (ResolveSecrets (untap ctx) (log_resolve r) path cat role)"
  by (rule emits_ResolveSecrets_spec)

lemma resolves_partitioned:
  assumes "resolves path specs rs cs es"
  shows "map sName specs \<in> shuffles (map rvName rs) (map cName cs) \<and>
    (\<forall>c \<in> set cs. cStatus c = Fail \<and> (entry_of specs (cName c) User \<or> entry_of specs (cName c) Minted)) \<and>
    (\<forall>rv \<in> set rs. EvGet path (rvName rv) (Inr (rvValue rv)) \<in> set es \<or>
       (\<exists>src. EvPut path (rvName rv) (rvValue rv) src False None \<in> set es))"
  using assms
proof induction
  case resolves_end
  show ?case by simp
next
  case (resolves_value spec v es specs rs cs fs)
  then show ?case
    by (auto simp: entry_of_def Cons_in_shuffles_iff elim!: entry_resolved.cases)
next
  case (resolves_finding spec c es specs rs cs fs)
  then show ?case
    by (auto simp: entry_of_def Cons_in_shuffles_iff unset_check_def not_minted_check_def elim!: entry_found.cases)
qed

text \<open>
  The resolved names and the findings together are the zone's entries, each once and in
  order; every finding is a failed check about a user or a minted entry; every value
  handed on is one the keychain gave or accepted under that name.
\<close>

definition resolved_partition :: "string \<Rightarrow> secret_spec list \<Rightarrow>
    go_error + resolved_secret list \<times> check list \<Rightarrow> event list \<Rightarrow> bool" where
  "resolved_partition path specs q es \<longleftrightarrow>
     (\<forall>rs cs. q = Inr (rs, cs) \<longrightarrow>
        map sName specs \<in> shuffles (map rvName rs) (map cName cs) \<and>
        (\<forall>c \<in> set cs. cStatus c = Fail \<and> (entry_of specs (cName c) User \<or> entry_of specs (cName c) Minted)) \<and>
        (\<forall>rv \<in> set rs. EvGet path (rvName rv) (Inr (rvValue rv)) \<in> set es \<or>
           (\<exists>src. EvPut path (rvName rv) (rvValue rv) src False None \<in> set es)))"

text \<open>
  What a resolved zone looks like. When resolving succeeds, the resolved names and
  the findings partition the zone's entries, in order; a finding is a failed check about
  a user or a minted entry, and a value handed on is one the keychain gave or accepted
  under that name.
\<close>

theorem Resolve_partition:
  "emits (resolved_partition path (ForZone cat role)) (ResolveSecrets (untap ctx) (log_resolve r) path cat role)"
proof (rule emits_conseq [OF emits_ResolveSecrets_spec])
  fix q es
  assume "resolve_contract path (ForZone cat role) q es"
  then show "resolved_partition path (ForZone cat role) q es"
    unfolding resolve_contract_def resolved_partition_def
    using resolves_partitioned [of path "ForZone cat role"] by (fastforce split: sum.splits)
qed

section \<open>Injecting and purging\<close>

definition store_events :: "resolved_secret list \<Rightarrow> event list" where
  "store_events rs = map (\<lambda>s. EvStore (rvName s) (rvValue s) None) rs"

definition inject_contract :: "resolved_secret list \<Rightarrow> go_error option \<Rightarrow> event list \<Rightarrow> bool" where
  "inject_contract secrets q es \<longleftrightarrow>
     (case q of
        None \<Rightarrow> es = store_events secrets
      | Some err \<Rightarrow> \<exists>before s after. secrets = before @ s # after \<and>
          (es = store_events before \<or>
           (\<exists>e. es = store_events before @ [EvStore (rvName s) (rvValue s) (Some e)] \<and>
              err = inject_error (rvName s) e)))"

lemma inject_step:
  assumes "inject_contract secrets q es"
  shows "inject_contract (s # secrets) q (EvStore (rvName s) (rvValue s) None # es)"
proof (cases q)
  case (Some err)
  then obtain before u after where "secrets = before @ u # after"
    "es = store_events before \<or> (\<exists>e. es = store_events before @ [EvStore (rvName u) (rvValue u) (Some e)] \<and>
       err = inject_error (rvName u) e)"
    using assms by (auto simp: inject_contract_def)
  then show ?thesis
    unfolding inject_contract_def Some option.case
    by (intro exI [of _ "s # before"] exI [of _ u] exI [of _ after]) (simp add: store_events_def)
qed (use assms in \<open>simp add: inject_contract_def store_events_def\<close>)

lemma inject_stop:
  "es = [] \<or> (\<exists>e. es = [EvStore (rvName s) (rvValue s) (Some e)] \<and> err = inject_error (rvName s) e) \<Longrightarrow>
    inject_contract (s # secrets) (Some err) es"
  unfolding inject_contract_def store_events_def option.case
  by (intro exI [of _ "[]"] exI [of _ s] exI [of _ secrets]) simp

lemma emits_InjectSecrets_spec:
  "emits (inject_contract secrets) (InjectSecrets (untap ctx) (log_target target) secrets)"
proof (induction secrets)
  case Nil
  show ?case by (auto intro!: emits_ret simp: inject_contract_def store_events_def)
next
  case (Cons s secrets)
  show ?case
    unfolding InjectSecrets.simps log_target_sel
    by (intro emits_rules emits_ret emits_conseq [OF Cons.IH]) (simp_all add: inject_stop inject_step)
qed

text \<open>
  Injecting stores exactly the resolved values, in order, each once; a failure
  stops at the first secret that could not be stored and names it.
\<close>

theorem Inject_contract:
  "emits (inject_contract secrets) (InjectSecrets (untap ctx) (log_target target) secrets)"
  by (rule emits_InjectSecrets_spec)

definition purge_events :: "string list \<Rightarrow> event list" where
  "purge_events names = concat (map (\<lambda>n. [EvRemoveSecret n None, EvRemoveVolume n None]) names)"

definition purge_contract :: "go_error + string list \<Rightarrow> event list \<Rightarrow> bool" where
  "purge_contract q es \<longleftrightarrow>
     (case q of
        Inr names \<Rightarrow> es = EvListSecrets (Inr names) # purge_events names
      | Inl _ \<Rightarrow> (\<exists>e. es = [EvListSecrets (Inl e)]) \<or>
          (\<exists>before n after rest. es = EvListSecrets (Inr (before @ n # after)) # purge_events before @ rest \<and>
             (rest = [] \<or> (\<exists>e. rest = [EvRemoveSecret n (Some e)] \<or>
                rest = [EvRemoveSecret n None, EvRemoveVolume n (Some e)]))))"

definition purging :: "string list \<Rightarrow> string list \<Rightarrow> go_error + string list \<Rightarrow> event list \<Rightarrow> bool" where
  "purging all names q es \<longleftrightarrow>
     (case q of
        Inr out \<Rightarrow> out = all \<and> es = purge_events names
      | Inl _ \<Rightarrow> \<exists>before n after rest. names = before @ n # after \<and> es = purge_events before @ rest \<and>
             (rest = [] \<or> (\<exists>e. rest = [EvRemoveSecret n (Some e)] \<or>
                rest = [EvRemoveSecret n None, EvRemoveVolume n (Some e)])))"

lemma purge_events_Cons:
  "purge_events (n # ns) = EvRemoveSecret n None # EvRemoveVolume n None # purge_events ns"
  by (simp add: purge_events_def)

lemma purging_stop:
  "rest = [] \<or> (\<exists>e. rest = [EvRemoveSecret n (Some e)] \<or> rest = [EvRemoveSecret n None, EvRemoveVolume n (Some e)]) \<Longrightarrow>
    purging all (n # names) (Inl err) rest"
  unfolding purging_def sum.case
  by (intro exI [of _ "[]"] exI [of _ n] exI [of _ names] exI [of _ rest]) (simp add: purge_events_def)

lemma purging_step:
  assumes "purging all names q es"
  shows "purging all (n # names) q (EvRemoveSecret n None # EvRemoveVolume n None # es)"
proof (cases q)
  case (Inl err)
  then obtain before m after rest where "names = before @ m # after" "es = purge_events before @ rest"
    "rest = [] \<or> (\<exists>e. rest = [EvRemoveSecret m (Some e)] \<or> rest = [EvRemoveSecret m None, EvRemoveVolume m (Some e)])"
    using assms by (auto simp: purging_def)
  then show ?thesis
    unfolding purging_def Inl sum.case
    by (intro exI [of _ "n # before"] exI [of _ m] exI [of _ after] exI [of _ rest]) (simp add: purge_events_Cons)
qed (use assms in \<open>auto simp: purging_def purge_events_Cons\<close>)

lemma emits_purge_loop:
  "emits (purging all names) (purge_loop (untap ctx) (log_target target) all names)"
proof (induction names)
  case Nil
  show ?case by (auto intro!: emits_ret simp: purging_def purge_events_def)
next
  case (Cons n names)
  show ?case
    unfolding purge_loop.simps log_target_sel
    by (intro emits_rules emits_ret emits_conseq [OF Cons.IH])
      (auto intro: purging_stop purging_step)
qed

lemma emits_PurgeSecrets_spec:
  "emits purge_contract (PurgeSecrets (untap ctx) (log_target target))"
  unfolding PurgeSecrets_def log_target_sel
proof (intro emits_rules emits_ret emits_conseq [OF emits_purge_loop])
  show "purge_contract (Inl (purge_error [] e)) [EvListSecrets (Inl e)]" for e
    by (simp add: purge_contract_def)
  show "purge_contract q (EvListSecrets (Inr names) # es)" if "purging names names q es" for q names es
    using that unfolding purge_contract_def purging_def by (cases q) auto
qed

text \<open>
  Purging asks for the labelled secrets and removes each with the volume of its
  name, in order, and nothing else; when it succeeds every one is gone and the
  answer is that list, and when it fails nothing after the failure is removed.
\<close>

theorem Purge_contract:
  "emits purge_contract (PurgeSecrets (untap ctx) (log_target target))"
  by (rule emits_PurgeSecrets_spec)

end
