(* ===== verification/Lifecycle.thy ===== *)
theory Lifecycle
  imports LifecycleSecrets
begin

text \<open>
  \<open>internal/app/lifecycle.go\<close>: \<open>up\<close>, \<open>down\<close>, \<open>destroy\<close> and \<open>status\<close>, with
  \<open>networksPresent\<close> of \<open>doctor.go\<close>. A Go function that returns a report and an error
  returns the pair; a loop body that may return from the function is a \<open>flow\<close>.
\<close>

section \<open>State and shared steps\<close>

record 'w lifecycle =
  lcRuntime :: "'w machine_runtime"
  lcWorkloads :: "'w workload_runtime"
  lcScaffold :: "'w dir_opener"
  lcTopology :: "'w topology_loader"
  lcKeychain :: "'w keychain"
  lcTarget :: "'w secret_target"
  lcMinter :: "'w key_minter option"
  lcRandom :: "'w reader"
  lcProgress :: "'w progress option"

type_synonym reported = "report \<times> go_error option"

definition lc_progress :: "'w lifecycle \<Rightarrow> 'w progress" where
  "lc_progress l = (case lcProgress l of None \<Rightarrow> NoProgress | Some p \<Rightarrow> p)"

definition step :: "'w lifecycle \<Rightarrow> string \<Rightarrow> string \<Rightarrow> ('w, unit) io" where
  "step l name detail = pgStep (lc_progress l) name detail"

definition wrap_lifecycle :: "go_error \<Rightarrow> go_error" where
  "wrap_lifecycle e = Wrapf ''lifecycle: '' e []"

definition catalogue_of :: "topology \<Rightarrow> catalogue" where
  "catalogue_of topo = fst (NewCatalogue BuiltinSecrets (DeclaredSecrets topo))"

definition load :: "'w lifecycle \<Rightarrow> string \<Rightarrow> ('w, go_error + topology \<times> catalogue) io" where
  "load l dir =
     attempt wrap_lifecycle (doOpenDir (lcScaffold l) dir) (\<lambda>fsys.
     attempt wrap_lifecycle (tlLoad (lcTopology l) fsys) (\<lambda>topo.
       ret (let findings = Validate topo (fsStat fsys) in
            if findings \<noteq> [] then Inl (FindingsError findings)
            else Inr (topo, catalogue_of topo))))"

definition pass :: "string \<Rightarrow> string \<Rightarrow> check" where
  "pass name summary = mkCheck name Pass summary []"

definition warn :: "string \<Rightarrow> string \<Rightarrow> string \<Rightarrow> check" where
  "warn name summary hint = mkCheck name Warn summary hint"

definition fail_check :: "string \<Rightarrow> go_error \<Rightarrow> check" where
  "fail_check name err = mkCheck name Fail (err_text err) []"

text \<open>\<open>if err := ctx.Err(); err != nil { return r, err }\<close>.\<close>

definition check_ctx :: "'w ctx \<Rightarrow> report \<Rightarrow> ('w, (reported, 'a) flow) io \<Rightarrow> ('w, (reported, 'a) flow) io" where
  "check_ctx ctx r k = do {
     c \<leftarrow> ctx;
     case c of Some err \<Rightarrow> ret (Return (r, Some err)) | None \<Rightarrow> k
   }"

text \<open>\<open>if ctx.Err() != nil { return r, ctx.Err() }\<close>: the context is asked twice.\<close>

definition check_ctx2 :: "'w ctx \<Rightarrow> report \<Rightarrow> ('w, (reported, 'a) flow) io \<Rightarrow> ('w, (reported, 'a) flow) io" where
  "check_ctx2 ctx r k = do {
     c \<leftarrow> ctx;
     case c of Some _ \<Rightarrow> do { err \<leftarrow> ctx; ret (Return (r, err)) } | None \<Rightarrow> k
   }"

section \<open>Up: the user's secrets\<close>

fun user_spec_loop :: "'w ctx \<Rightarrow> 'w lifecycle \<Rightarrow> string \<Rightarrow> secret_spec list \<Rightarrow> nat \<Rightarrow> report \<Rightarrow>
    ('w, (reported, nat \<times> report) flow) io" where
  "user_spec_loop ctx l path [] missing r = ret (Next (missing, r))"
| "user_spec_loop ctx l path (spec # specs) missing r =
     (if sSource spec \<noteq> User then user_spec_loop ctx l path specs missing r
      else check_ctx ctx r (do {
        item \<leftarrow> kcDescribe (lcKeychain l) path (sName spec);
        case item of
          Inl err \<Rightarrow>
            if errors_is err ErrSecretNotFound
            then user_spec_loop ctx l path specs (Suc missing) (r @ [EvaluateSecret spec (Some err)])
            else ret (Return (r, Some (wrap_lifecycle err)))
        | Inr _ \<Rightarrow> user_spec_loop ctx l path specs missing r
      }))"

fun user_role_loop :: "'w ctx \<Rightarrow> 'w lifecycle \<Rightarrow> string \<Rightarrow> catalogue \<Rightarrow> role list \<Rightarrow> nat \<Rightarrow> report \<Rightarrow>
    ('w, (reported, nat \<times> report) flow) io" where
  "user_role_loop ctx l path cat [] missing r = ret (Next (missing, r))"
| "user_role_loop ctx l path cat (role # roles) missing r =
     chain (user_spec_loop ctx l path (ForZone cat role) missing r) (\<lambda>(missing, r).
       user_role_loop ctx l path cat roles missing r)"

section \<open>Up: the machine\<close>

definition machine_init_of :: "string \<Rightarrow> topology \<Rightarrow> machine_init" where
  "machine_init_of dir topo =
     \<lparr>miName = MachineName, miProvider = tProvider topo, miCPUs = msCPUs (tMachine topo),
      miMemoryMiB = msMemoryMiB (tMachine topo), miDiskGiB = msDiskGiB (tMachine topo),
      miVolumes = msVolumes (tMachine topo), miPlaybook = path_join dir PlaybookFile\<rparr>"

definition start_machine :: "'w lifecycle \<Rightarrow> topology \<Rightarrow> bool \<Rightarrow> ('w, check \<times> go_error option) io" where
  "start_machine l topo created = do {
     _ \<leftarrow> step l ''machine'' (''starting '' @ MachineName);
     started \<leftarrow> rtStartMachine (lcRuntime l) (tProvider topo) MachineName;
     ret (case started of
            Some err \<Rightarrow> (fail_check ''machine'' err, Some err)
          | None \<Rightarrow> (pass ''machine'' (if created then ''created and started'' else ''started''), None))
   }"

definition ensureMachine :: "'w lifecycle \<Rightarrow> string \<Rightarrow> topology \<Rightarrow> ('w, check \<times> go_error option) io" where
  "ensureMachine l dir topo = do {
     machines \<leftarrow> rtListMachines (lcRuntime l);
     case machines of
       Inl err \<Rightarrow> ret (fail_check ''machine'' err, Some err)
     | Inr ms \<Rightarrow>
         (case find (\<lambda>m. mName m = MachineName) ms of
            None \<Rightarrow> do {
              _ \<leftarrow> step l ''machine'' (''creating '' @ MachineName);
              inited \<leftarrow> rtInitMachine (lcRuntime l) (machine_init_of dir topo);
              case inited of
                Some err \<Rightarrow> ret (fail_check ''machine'' err, Some err)
              | None \<Rightarrow> start_machine l topo True
            }
          | Some found \<Rightarrow>
              if mRunning found then ret (pass ''machine'' ''running'', None)
              else start_machine l topo False)
   }"

section \<open>Up: the networks\<close>

definition network_name :: "role \<Rightarrow> string" where
  "network_name role = ''network/'' @ role_name role"

fun network_loop :: "'w ctx \<Rightarrow> 'w lifecycle \<Rightarrow> topology \<Rightarrow> role list \<Rightarrow> report \<Rightarrow>
    ('w, (reported, report) flow) io" where
  "network_loop ctx l topo [] r = ret (Next r)"
| "network_loop ctx l topo (role # roles) r =
     check_ctx ctx r (do {
       found \<leftarrow> wlNetworkExists (lcWorkloads l) (NetworkName role);
       case found of
         Inl err \<Rightarrow> ret (Return (r @ [fail_check (network_name role) err], None))
       | Inr exists \<Rightarrow>
           if exists then network_loop ctx l topo roles (r @ [pass (network_name role) ''present''])
           else do {
             _ \<leftarrow> step l (network_name role) (''creating '' @ NetworkName role);
             created \<leftarrow> wlCreateNetwork (lcWorkloads l) (NetworkName role) (zInternal (zone_or_zero topo role));
             case created of
               Some err \<Rightarrow> ret (Return (r @ [fail_check (network_name role) err], None))
             | None \<Rightarrow>
                 network_loop ctx l topo roles
                   (r @ [pass (network_name role)
                      (if zInternal (zone_or_zero topo role) then ''created'' @ '' (internal)'' else ''created'')])
           }
     })"

section \<open>Up: the zones\<close>

definition workload_name :: "role \<Rightarrow> workload \<Rightarrow> string" where
  "workload_name role w = role_name role @ ''/'' @ w"

text \<open>The loop over a zone's workloads: the name of the step that failed, or the empty string.\<close>

fun play_loop :: "'w ctx \<Rightarrow> 'w lifecycle \<Rightarrow> string \<Rightarrow> role \<Rightarrow> zone_spec \<Rightarrow> workload list \<Rightarrow> report \<Rightarrow>
    ('w, (reported, string \<times> report) flow) io" where
  "play_loop ctx l dir role z [] r = ret (Next ([], r))"
| "play_loop ctx l dir role z (w # ws) r =
     check_ctx ctx r (do {
       _ \<leftarrow> step l (workload_name role w) (''building '' @ ImageTag w);
       built \<leftarrow> wlBuild (lcWorkloads l) (ImageTag w) (path_join dir (workload_dir w));
       case built of
         Some err \<Rightarrow> check_ctx2 ctx r
           (ret (Next (workload_name role w, r @ [fail_check (workload_name role w) err])))
       | None \<Rightarrow> do {
           _ \<leftarrow> step l (workload_name role w) (''playing '' @ PodFile w);
           played \<leftarrow> wlPlay (lcWorkloads l) (path_join dir (PodFile w)) (Networks z w)
             (if zInternal z then ''auto'' else []);
           case played of
             Some err \<Rightarrow> check_ctx2 ctx r
               (ret (Next (workload_name role w, r @ [fail_check (workload_name role w) err])))
           | None \<Rightarrow> play_loop ctx l dir role z ws (r @ [pass (workload_name role w) ''built and playing''])
         }
     })"

definition secrets_name :: "role \<Rightarrow> string" where
  "secrets_name role = role_name role @ ''/secrets''"

definition ready_name :: "role \<Rightarrow> string" where
  "ready_name role = role_name role @ ''/ready''"

definition skipped :: "role \<Rightarrow> string \<Rightarrow> check" where
  "skipped role failed =
     warn (role_name role) (''skipped because '' @ failed @ '' failed'') ''fix it, then run `lclaw up` again''"

definition wait_ready :: "'w ctx \<Rightarrow> 'w lifecycle \<Rightarrow> role \<Rightarrow> report \<Rightarrow> ('w, (reported, string \<times> report) flow) io" where
  "wait_ready ctx l role r =
     (case lcMinter l of
        None \<Rightarrow> ret (Next ([], r))
      | Some minter \<Rightarrow>
          if role \<noteq> Services then ret (Next ([], r))
          else do {
            _ \<leftarrow> step l (ready_name role) ''waiting for LiteLLM'';
            ready \<leftarrow> kmReady minter;
            case ready of
              Some err \<Rightarrow> check_ctx2 ctx r (ret (Next (ready_name role, r @ [fail_check (ready_name role) err])))
            | None \<Rightarrow> ret (Next ([], r @ [pass (ready_name role) ''LiteLLM is ready'']))
          })"

text \<open>One zone that no earlier failure skips.\<close>

definition up_zone :: "'w ctx \<Rightarrow> 'w lifecycle \<Rightarrow> string \<Rightarrow> topology \<Rightarrow> catalogue \<Rightarrow> role \<Rightarrow> report \<Rightarrow>
    ('w, (reported, string \<times> report) flow) io" where
  "up_zone ctx l dir topo cat role r = do {
     _ \<leftarrow> step l (secrets_name role) ''resolving secrets'';
     resolved \<leftarrow> ResolveSecrets ctx
       \<lparr>rsKeychain = lcKeychain l, rsMinter = lcMinter l, rsRandom = lcRandom l\<rparr> (tKeychainPath topo) cat role;
     case resolved of
       Inl err \<Rightarrow> ret (Return (r, Some err))
     | Inr (secrets, findings) \<Rightarrow>
         if findings \<noteq> [] then ret (Next (secrets_name role, r @ findings))
         else do {
           injected \<leftarrow> InjectSecrets ctx (lcTarget l) secrets;
           case injected of
             Some err \<Rightarrow> check_ctx2 ctx r
               (ret (Next (secrets_name role, r @ [fail_check (secrets_name role) err])))
           | None \<Rightarrow>
               chain (play_loop ctx l dir role (zone_or_zero topo role) (zWorkloads (zone_or_zero topo role))
                 (r @ [pass (secrets_name role) (itoa (int (length secrets)) @ '' injected'')]))
               (\<lambda>(failed, r).
                 if failed \<noteq> [] then ret (Next (failed, r)) else wait_ready ctx l role r)
         }
   }"

fun zones_loop :: "'w ctx \<Rightarrow> 'w lifecycle \<Rightarrow> string \<Rightarrow> topology \<Rightarrow> catalogue \<Rightarrow> role list \<Rightarrow> string \<Rightarrow> report \<Rightarrow>
    ('w, reported) io" where
  "zones_loop ctx l dir topo cat [] failed r = ret (r, None)"
| "zones_loop ctx l dir topo cat (role # roles) failed r =
     proceed (check_ctx ctx r
       (if failed \<noteq> [] then ret (Next (failed, r @ [skipped role failed]))
        else up_zone ctx l dir topo cat role r))
     (\<lambda>(failed, r). zones_loop ctx l dir topo cat roles failed r)"

definition Up :: "'w ctx \<Rightarrow> 'w lifecycle \<Rightarrow> string \<Rightarrow> role list \<Rightarrow> ('w, reported) io" where
  "Up ctx l dir roles = do {
     loaded \<leftarrow> load l dir;
     case loaded of
       Inl err \<Rightarrow> ret ([], Some err)
     | Inr (topo, cat) \<Rightarrow> do {
         _ \<leftarrow> step l ''secrets'' ''checking the keychain'';
         missing_keychain \<leftarrow> requireKeychain (lcKeychain l) (tKeychainPath topo);
         case missing_keychain of
           Some err \<Rightarrow> ret ([], Some err)
         | None \<Rightarrow>
             proceed (user_role_loop ctx l (tKeychainPath topo) cat roles 0 []) (\<lambda>(missing, r).
               if 0 < missing then ret (r, None)
               else do {
                 _ \<leftarrow> step l ''machine'' (''inspecting '' @ MachineName);
                 ensured \<leftarrow> ensureMachine l dir topo;
                 case ensured of (machineCheck, failed) \<Rightarrow>
                   proceed (check_ctx ctx r (ret (Next ()))) (\<lambda>_.
                     if failed \<noteq> None then ret (r @ [machineCheck], None)
                     else proceed (network_loop ctx l topo roles (r @ [machineCheck])) (\<lambda>r.
                       zones_loop ctx l dir topo cat roles [] r))
               })
       }
   }"

section \<open>Destroy\<close>

fun forget_loop :: "'w ctx \<Rightarrow> 'w lifecycle \<Rightarrow> string \<Rightarrow> secret_spec list \<Rightarrow> report \<Rightarrow> ('w, reported) io" where
  "forget_loop ctx l path [] r = ret (r, None)"
| "forget_loop ctx l path (spec # specs) r =
     (if sSource spec \<noteq> Minted then forget_loop ctx l path specs r
      else proceed (check_ctx ctx r (ret (Next ()))) (\<lambda>_. do {
        item \<leftarrow> kcDescribe (lcKeychain l) path (sName spec);
        case item of
          Inl err \<Rightarrow>
            if errors_is err ErrSecretNotFound then forget_loop ctx l path specs r
            else forget_loop ctx l path specs (r @ [fail_check (''secrets/'' @ sName spec) err])
        | Inr _ \<Rightarrow> do {
            deleted \<leftarrow> kcDelete (lcKeychain l) path (sName spec);
            case deleted of
              Some err \<Rightarrow> forget_loop ctx l path specs (r @ [fail_check (''secrets/'' @ sName spec) err])
            | None \<Rightarrow> forget_loop ctx l path specs
                (r @ [pass (''secrets/'' @ sName spec) ''forgotten; minted again on the next up''])
          }
      }))"

definition destroy :: "'w ctx \<Rightarrow> 'w lifecycle \<Rightarrow> topology \<Rightarrow> catalogue \<Rightarrow> report \<Rightarrow> ('w, reported) io" where
  "destroy ctx l topo cat r = do {
     _ \<leftarrow> step l ''machine'' (''removing '' @ MachineName);
     removed \<leftarrow> rtRemoveMachine (lcRuntime l) (tProvider topo) MachineName;
     case removed of
       Some err \<Rightarrow>
         proceed (check_ctx2 ctx r (ret (Next ()))) (\<lambda>_. ret (r @ [fail_check ''destroy'' err], None))
     | None \<Rightarrow>
         forget_loop ctx l (tKeychainPath topo) (Entries cat)
           (r @ [pass ''destroy'' (MachineName @ '' removed with its images and volumes'')])
   }"

section \<open>Down\<close>

text \<open>
  The loop over a zone's workloads, last first. \<open>present\<close> holds the names of the pods
  that are up; the flag says that every pod of the zone could be stopped.
\<close>

fun down_loop :: "'w ctx \<Rightarrow> 'w lifecycle \<Rightarrow> string \<Rightarrow> role \<Rightarrow> workload list \<Rightarrow> string list \<Rightarrow> bool \<Rightarrow> report \<Rightarrow>
    ('w, (reported, string list \<times> bool \<times> report) flow) io" where
  "down_loop ctx l dir role [] present all_down r = ret (Next (present, all_down, r))"
| "down_loop ctx l dir role (w # ws) present all_down r =
     check_ctx ctx r
       (if w \<notin> set present
        then down_loop ctx l dir role ws present all_down (r @ [warn (workload_name role w) ''absent'' []])
        else do {
          _ \<leftarrow> step l (workload_name role w) (''kube down '' @ PodFile w);
          down \<leftarrow> wlDown (lcWorkloads l) (path_join dir (PodFile w));
          case down of
            Some err \<Rightarrow> check_ctx2 ctx r
              (down_loop ctx l dir role ws present False (r @ [fail_check (workload_name role w) err]))
          | None \<Rightarrow>
              down_loop ctx l dir role ws (filter (\<lambda>n. n \<noteq> w) present) all_down
                (r @ [pass (workload_name role w) ''stopped''])
        })"

definition down_network :: "'w ctx \<Rightarrow> 'w lifecycle \<Rightarrow> role \<Rightarrow> bool \<Rightarrow> report \<Rightarrow> ('w, (reported, report) flow) io" where
  "down_network ctx l role all_down r =
     (if \<not> all_down then ret (Next (r @ [warn (network_name role) ''kept because a pod could not be stopped'' []]))
      else do {
        found \<leftarrow> wlNetworkExists (lcWorkloads l) (NetworkName role);
        check_ctx2 ctx r
          (case found of
             Inl err \<Rightarrow> ret (Next (r @ [fail_check (network_name role) err]))
           | Inr exists \<Rightarrow>
               if \<not> exists then ret (Next (r @ [warn (network_name role) ''absent'' []]))
               else do {
                 _ \<leftarrow> step l (network_name role) (''removing '' @ NetworkName role);
                 removed \<leftarrow> wlRemoveNetwork (lcWorkloads l) (NetworkName role);
                 ret (Next (r @ [case removed of
                     Some err \<Rightarrow> fail_check (network_name role) err
                   | None \<Rightarrow> pass (network_name role) ''removed'']))
               })
      })"

fun down_zones :: "'w ctx \<Rightarrow> 'w lifecycle \<Rightarrow> string \<Rightarrow> topology \<Rightarrow> role list \<Rightarrow> string list \<Rightarrow> report \<Rightarrow>
    ('w, (reported, string list \<times> report) flow) io" where
  "down_zones ctx l dir topo [] present r = ret (Next (present, r))"
| "down_zones ctx l dir topo (role # roles) present r =
     chain (down_loop ctx l dir role (rev (zWorkloads (zone_or_zero topo role))) present True r)
       (\<lambda>(present, all_down, r).
     chain (down_network ctx l role all_down r) (\<lambda>r.
       down_zones ctx l dir topo roles present r))"

definition down_hint :: string where
  "down_hint = ''run `lclaw down` with no zone to stop the machine''"

text \<open>What \<open>Down\<close> does once no LocalClaw pod is left.\<close>

definition purge_and_stop :: "'w ctx \<Rightarrow> 'w lifecycle \<Rightarrow> topology \<Rightarrow> catalogue \<Rightarrow> bool \<Rightarrow> report \<Rightarrow> ('w, reported) io" where
  "purge_and_stop ctx l topo cat destroying r = do {
     _ \<leftarrow> step l ''secrets'' ''purging the secret store'';
     purged \<leftarrow> PurgeSecrets ctx (lcTarget l);
     proceed (check_ctx2 ctx r (ret (Next
         (r @ [case purged of
             Inl err \<Rightarrow> fail_check ''secrets'' err
           | Inr names \<Rightarrow> pass ''secrets'' (itoa (int (length names)) @ '' purged'')])))) (\<lambda>r. do {
       _ \<leftarrow> step l ''machine'' (''stopping '' @ MachineName);
       stopped \<leftarrow> rtStopMachine (lcRuntime l) (tProvider topo) MachineName;
       case stopped of
         Some err \<Rightarrow>
           proceed (check_ctx2 ctx r (ret (Next ()))) (\<lambda>_. ret (r @ [fail_check ''machine'' err], None))
       | None \<Rightarrow>
           if destroying then destroy ctx l topo cat (r @ [pass ''machine'' ''stopped''])
           else ret (r @ [pass ''machine'' ''stopped''], None)
     })
   }"

definition destroy_refused :: go_error where
  "destroy_refused = Plain ''lifecycle: --destroy applies to the whole machine; name no zone''"

text \<open>
  The machine, the zones and what is left. The loop over the machines does not stop at a
  match: the last one counts.
\<close>

definition down_machine :: "'w ctx \<Rightarrow> 'w lifecycle \<Rightarrow> string \<Rightarrow> topology \<Rightarrow> catalogue \<Rightarrow> role list \<Rightarrow> bool \<Rightarrow>
    ('w, reported) io" where
  "down_machine ctx l dir topo cat roles destroying = do {
     machines \<leftarrow> rtListMachines (lcRuntime l);
     case machines of
       Inl err \<Rightarrow> ret ([fail_check ''machine'' err], None)
     | Inr ms \<Rightarrow>
         (case find (\<lambda>m. mName m = MachineName) (rev ms) of
            None \<Rightarrow> ret ([warn ''machine'' ''not created'' ''nothing to take down''], None)
          | Some found \<Rightarrow>
              if \<not> mRunning found then
                (if destroying then destroy ctx l topo cat []
                 else ret ([warn ''machine'' ''stopped'' ''nothing to take down''], None))
              else do {
                listed \<leftarrow> wlListPods (lcWorkloads l);
                case listed of
                  Inl err \<Rightarrow> ret ([fail_check ''pods'' err], None)
                | Inr pods \<Rightarrow>
                    proceed (down_zones ctx l dir topo (rev roles) (remdups (map pName pods)) [])
                      (\<lambda>(present, r).
                        if present \<noteq> [] then
                          ret (r @ [warn ''secrets'' (''kept: '' @ itoa (int (length present)) @ '' pod(s) still running'') down_hint,
                                    warn ''machine'' ''running'' down_hint], None)
                        else purge_and_stop ctx l topo cat destroying r)
              })
   }"

definition Down :: "'w ctx \<Rightarrow> 'w lifecycle \<Rightarrow> string \<Rightarrow> role list \<Rightarrow> bool \<Rightarrow> ('w, reported) io" where
  "Down ctx l dir roles destroying = do {
     loaded \<leftarrow> load l dir;
     case loaded of
       Inl err \<Rightarrow> ret ([], Some err)
     | Inr (topo, cat) \<Rightarrow>
         if destroying \<and> length roles \<noteq> length Roles then ret ([], Some destroy_refused)
         else down_machine ctx l dir topo cat roles destroying
   }"

section \<open>Status\<close>

fun networksPresent :: "'w ctx \<Rightarrow> 'w workload_runtime \<Rightarrow> role list \<Rightarrow> (string \<Rightarrow> bool) \<Rightarrow>
    ('w, go_error + (string \<Rightarrow> bool)) io" where
  "networksPresent ctx w [] present = ret (Inr present)"
| "networksPresent ctx w (r # roles) present =
     ensure id ctx
     (attempt id (wlNetworkExists w (NetworkName r)) (\<lambda>ok.
       networksPresent ctx w roles (present(NetworkName r := ok))))"

text \<open>What \<open>Status\<close> reports once the topology is loaded.\<close>

definition status_checks :: "'w ctx \<Rightarrow> 'w lifecycle \<Rightarrow> topology \<Rightarrow> ('w, reported) io" where
  "status_checks ctx l topo = do {
     machines \<leftarrow> rtListMachines (lcRuntime l);
     case machines of
       Inl err \<Rightarrow> ret ([fail_check ''machine'' err], None)
     | Inr ms \<Rightarrow>
         (case EvaluateMachine ms of (machine, running) \<Rightarrow>
            if \<not> running then ret ([machine], None)
            else do {
              present \<leftarrow> networksPresent ctx (lcWorkloads l) Roles (\<lambda>_. False);
              proceed (check_ctx ctx [machine] (ret (Next ()))) (\<lambda>_.
                case present of
                  Inl err \<Rightarrow> ret ([machine, fail_check ''networks'' err], None)
                | Inr up \<Rightarrow> do {
                    listed \<leftarrow> wlListPods (lcWorkloads l);
                    proceed (check_ctx ctx (machine # EvaluateNetworks topo Roles up) (ret (Next ()))) (\<lambda>_.
                      ret (machine # EvaluateNetworks topo Roles up @
                           (case listed of
                              Inl err \<Rightarrow> [fail_check ''pods'' err]
                            | Inr pods \<Rightarrow> EvaluateWorkloads topo Roles pods), None))
                  })
            })
   }"

definition Status :: "'w ctx \<Rightarrow> 'w lifecycle \<Rightarrow> string \<Rightarrow> ('w, reported) io" where
  "Status ctx l dir = do {
     loaded \<leftarrow> load l dir;
     case loaded of
       Inl err \<Rightarrow> ret ([], Some err)
     | Inr (topo, _) \<Rightarrow> status_checks ctx l topo
   }"

end
