(* ===== verification/TestWorld.thy ===== *)
theory TestWorld
  imports Lifecycle
begin

text \<open>
  The test doubles of \<open>internal/app/fakes_test.go\<close> as one in-memory world: a keychain,
  the machine's store, machines, networks and pods, all healthy. They stand for the
  outside world in the examples.
\<close>

record test_world =
  twKeychain :: bool
  twItems :: "(string \<times> string \<times> source) list"
  twStore :: "(string \<times> string) list"
  twMachines :: "machine list"
  twNetworks :: "string list"
  twPods :: "string list"
  twSeq :: nat

type_synonym 'a test_io = "(test_world, 'a) io"

definition peek :: "(test_world \<Rightarrow> 'a) \<Rightarrow> 'a test_io" where
  "peek f = State (\<lambda>w. (f w, w))"

definition poke :: "(test_world \<Rightarrow> test_world) \<Rightarrow> go_error option test_io" where
  "poke f = State (\<lambda>w. (None, f w))"

definition absent :: "string \<Rightarrow> string \<Rightarrow> go_error" where
  "absent verb name = Wrapf (''keychain: '' @ verb @ '' '' @ name @ '': '') (Sentinel ErrSecretNotFound) []"

definition t0 :: gotime where
  "t0 = \<lparr>gtYear = 2026, gtMonth = 9, gtDay = 21, gtHour = 7, gtMinute = 3, gtSecond = 45, gtNano = 0\<rparr>"

definition t1 :: gotime where "t1 = t0\<lparr>gtMinute := 4\<rparr>"

definition without :: "string \<Rightarrow> (string \<times> 'a) list \<Rightarrow> (string \<times> 'a) list" where
  "without n xs = filter (\<lambda>x. fst x \<noteq> n) xs"

definition fakeKeychain :: "test_world keychain" where
  "fakeKeychain =
     \<lparr>kcExists = (\<lambda>_. peek (\<lambda>w. Inr (twKeychain w))),
      kcCreate = (\<lambda>_. poke (\<lambda>w. w\<lparr>twKeychain := True\<rparr>)),
      kcGet = (\<lambda>_ n. peek (\<lambda>w. case map_of (twItems w) n of
          None \<Rightarrow> Inl (absent ''get'' n) | Some (v, _) \<Rightarrow> Inr v)),
      kcDescribe = (\<lambda>_ n. peek (\<lambda>w. case map_of (twItems w) n of
          None \<Rightarrow> Inl (absent ''describe'' n)
        | Some (_, src) \<Rightarrow> Inr \<lparr>siName = n, siSource = src, siCreated = t0, siModified = t1\<rparr>)),
      kcPut = (\<lambda>_ n v src repl. State (\<lambda>w.
          if map_of (twItems w) n \<noteq> None \<and> \<not> repl
          then (Some (Wrapf (''keychain: put '' @ n @ '': '') (Sentinel ErrSecretExists) []), w)
          else (None, w\<lparr>twItems := (n, v, src) # without n (twItems w)\<rparr>))),
      kcDelete = (\<lambda>_ n. State (\<lambda>w.
          if map_of (twItems w) n = None then (Some (absent ''delete'' n), w)
          else (None, w\<lparr>twItems := without n (twItems w)\<rparr>)))\<rparr>"

definition machine_up :: "test_world \<Rightarrow> bool" where
  "machine_up w \<longleftrightarrow> list_ex (\<lambda>m. mName m = MachineName \<and> mRunning m) (twMachines w)"

definition fakeTarget :: "test_world secret_target" where
  "fakeTarget =
     \<lparr>tgMachineRunning = peek (\<lambda>w. Inr (machine_up w)),
      tgStoreSecret = (\<lambda>n v. poke (\<lambda>w. w\<lparr>twStore := (n, v) # without n (twStore w)\<rparr>)),
      tgSecretExists = (\<lambda>n. peek (\<lambda>w. Inr (n \<in> fst ` set (twStore w)))),
      tgRemoveSecret = (\<lambda>n. State (\<lambda>w.
          if n \<notin> fst ` set (twStore w) then (Some (Plain ''podman: remove secret: no such secret''), w)
          else (None, w\<lparr>twStore := without n (twStore w)\<rparr>))),
      tgListSecrets = peek (\<lambda>w. Inr (sort (map fst (twStore w)))),
      tgRemoveVolume = (\<lambda>_. ret None)\<rparr>"

definition set_running :: "bool \<Rightarrow> string \<Rightarrow> test_world \<Rightarrow> test_world" where
  "set_running b n w = w\<lparr>twMachines := map (\<lambda>m. if mName m = n then m\<lparr>mRunning := b\<rparr> else m) (twMachines w)\<rparr>"

definition fakeRuntime :: "test_world machine_runtime" where
  "fakeRuntime =
     \<lparr>rtVersion = ret (Inr \<lparr>vMajor = 5, vMinor = 6, vPatch = 0, vRaw = ''5.6.0''\<rparr>),
      rtListMachines = peek (\<lambda>w. Inr (twMachines w)),
      rtInitMachine = (\<lambda>m. poke (\<lambda>w. w\<lparr>twMachines := twMachines w @ [\<lparr>mName = miName m, mRunning = False\<rparr>]\<rparr>)),
      rtStartMachine = (\<lambda>_ n. poke (set_running True n)),
      rtStopMachine = (\<lambda>_ n. poke (set_running False n)),
      rtRemoveMachine = (\<lambda>_ n. poke (\<lambda>w. w\<lparr>twMachines := filter (\<lambda>m. mName m \<noteq> n) (twMachines w)\<rparr>))\<rparr>"

text \<open>\<open>podName\<close>: the workload name from \<open>.../workloads/<name>/pod.yaml\<close>.\<close>

definition podName :: "string \<Rightarrow> string" where
  "podName file =
     (let parts = filter (\<lambda>p. p \<noteq> []) (split_on slash file) in
      if length parts < 2 then file else parts ! (length parts - 2))"

definition fake_pod :: "string \<Rightarrow> pod" where
  "fake_pod n = \<lparr>pName = n, pContainers = [\<lparr>ctName = n @ ''-'' @ n, ctState = ''running''\<rparr>]\<rparr>"

definition fakeWorkloads :: "test_world workload_runtime" where
  "fakeWorkloads =
     \<lparr>wlNetworkExists = (\<lambda>n. peek (\<lambda>w. Inr (n \<in> set (twNetworks w)))),
      wlCreateNetwork = (\<lambda>n _. poke (\<lambda>w. w\<lparr>twNetworks := n # twNetworks w\<rparr>)),
      wlRemoveNetwork = (\<lambda>n. poke (\<lambda>w. w\<lparr>twNetworks := filter (\<lambda>m. m \<noteq> n) (twNetworks w)\<rparr>)),
      wlBuild = (\<lambda>_ _. ret None),
      wlPlay = (\<lambda>f _ _. poke (\<lambda>w. w\<lparr>twPods := podName f # filter (\<lambda>m. m \<noteq> podName f) (twPods w)\<rparr>)),
      wlDown = (\<lambda>f. poke (\<lambda>w. w\<lparr>twPods := filter (\<lambda>m. m \<noteq> podName f) (twPods w)\<rparr>)),
      wlListPods = peek (\<lambda>w. Inr (map fake_pod (sort (twPods w))))\<rparr>"

definition fakeMinter :: "test_world key_minter" where
  "fakeMinter =
     \<lparr>kmReady = ret None, kmMint = (\<lambda>_. ret (Inr ''sk-minted'')), kmRevoke = (\<lambda>_ _. ret None)\<rparr>"

text \<open>The reader hands out numbered bytes; what they are does not matter here.\<close>

definition seq_bytes :: "nat \<Rightarrow> nat \<Rightarrow> string" where
  "seq_bytes start n = map (\<lambda>k. char_of (start + k)) [0..<n]"

definition seqReader :: "test_world reader" where
  "seqReader n = State (\<lambda>w. (Inr (seq_bytes (twSeq w) n), w\<lparr>twSeq := twSeq w + n\<rparr>))"

definition fakeScaffold :: "test_world dir_opener" where
  "fakeScaffold = \<lparr>doOpenDir = (\<lambda>_. ret (Inr \<lparr>fsRead = (\<lambda>_. Inr []), fsStat = (\<lambda>_. True)\<rparr>))\<rparr>"

definition fakeLoader :: "test_world topology_loader" where
  "fakeLoader = \<lparr>tlLoad = (\<lambda>_. ret (Inr default_topology))\<rparr>"

definition test_lifecycle :: "test_world lifecycle" where
  "test_lifecycle =
     \<lparr>lcRuntime = fakeRuntime, lcWorkloads = fakeWorkloads, lcScaffold = fakeScaffold,
      lcTopology = fakeLoader, lcKeychain = fakeKeychain, lcTarget = fakeTarget,
      lcMinter = Some fakeMinter, lcRandom = seqReader, lcProgress = None\<rparr>"

definition test_secrets :: "test_world secrets_app" where
  "test_secrets =
     \<lparr>saScaffold = fakeScaffold, saTopology = fakeLoader, saKeychain = fakeKeychain,
      saTarget = fakeTarget, saMinter = fakeMinter, saRandom = seqReader\<rparr>"

definition empty_world :: test_world where
  "empty_world =
     \<lparr>twKeychain = True, twItems = [], twStore = [], twMachines = [], twNetworks = [], twPods = [], twSeq = 0\<rparr>"

definition ready_world :: test_world where
  "ready_world = empty_world\<lparr>twItems := [(''anthropic-api-key'', ''key'', User)]\<rparr>"

section \<open>The catalogue of the default topology\<close>

lemma default_valid: "Validate default_topology (\<lambda>_. True) = []"
  using Validate_nil_iff [OF go_default] default_ok by blast

definition default_catalogue :: catalogue where
  "default_catalogue =
     [user_spec ''anthropic-api-key'' [Services], BuiltinSecrets ! 2, BuiltinSecrets ! 0,
      BuiltinSecrets ! 1, BuiltinSecrets ! 3, BuiltinSecrets ! 4]"

lemma key_name_ok: "ValidateName ''anthropic-api-key'' = None"
  by (simp add: ValidateName_None_iff dns_label_def is_lower_def is_digit_def)

lemma default_new_catalogue:
  "NewCatalogue BuiltinSecrets (DeclaredSecrets default_topology) = (default_catalogue, [])"
  by (simp add: NewCatalogue_def DeclaredSecrets_def default_topology_def default_zones_def Roles_def
      BuiltinSecrets_def default_catalogue_def key_name_ok accept_name_def user_spec_def less_eq_char_def)

section \<open>Running the use cases in the test world\<close>

lemma run_peek [simp]: "run_state (peek f) w = (f w, w)"
  by (simp add: peek_def)

lemma run_poke [simp]: "run_state (poke f) w = (None, f w)"
  by (simp add: poke_def)

lemma run_return [simp]: "run_state (ret x) w = (x, w)"
  by (simp add: State_Monad.return_def)

lemma default_path [simp]:
  "tKeychainPath default_topology = ''/Users/me/Library/Keychains/lclaw.keychain-db''"
  by (simp add: default_topology_def)

lemma default_catalogue_of: "catalogue_of default_topology = default_catalogue"
  by (simp add: catalogue_of_def default_new_catalogue)

lemma test_lifecycle_sel [simp]:
  "lcRuntime test_lifecycle = fakeRuntime" "lcWorkloads test_lifecycle = fakeWorkloads"
  "lcKeychain test_lifecycle = fakeKeychain" "lcTarget test_lifecycle = fakeTarget"
  "lcMinter test_lifecycle = Some fakeMinter" "lcRandom test_lifecycle = seqReader"
  by (simp_all add: test_lifecycle_def)

lemma run_step [simp]: "run_state (step test_lifecycle n d) w = ((), w)"
  by (simp add: step_def lc_progress_def test_lifecycle_def NoProgress_def)

lemma run_load [simp]:
  "run_state (load test_lifecycle d) w = (Inr (default_topology, default_catalogue), w)"
  by (simp add: load_def test_lifecycle_def fakeScaffold_def fakeLoader_def attempt_def default_valid
      default_catalogue_of Let_def)

lemma default_entries [simp]:
  "ForZone default_catalogue Infra = []"
  "ForZone default_catalogue Services =
     [user_spec ''anthropic-api-key'' [Services], BuiltinSecrets ! 2, BuiltinSecrets ! 0, BuiltinSecrets ! 1]"
  "ForZone default_catalogue Agent = [BuiltinSecrets ! 3, BuiltinSecrets ! 4]"
  by (simp_all add: default_catalogue_def BuiltinSecrets_def UsedBy_iff)

lemma builtin_sel [simp]:
  "sName (BuiltinSecrets ! 0) = ''litellm-master-key''" "sSource (BuiltinSecrets ! 0) = Generated"
  "sName (BuiltinSecrets ! Suc 0) = ''litellm-salt-key''" "sSource (BuiltinSecrets ! Suc 0) = Generated"
  "sName (BuiltinSecrets ! 2) = ''litellm-db-password''" "sSource (BuiltinSecrets ! 2) = Generated"
  "sName (BuiltinSecrets ! 3) = ''openclaw-gateway-token''" "sSource (BuiltinSecrets ! 3) = Generated"
  "sName (BuiltinSecrets ! 4) = ''openclaw-litellm-key''" "sSource (BuiltinSecrets ! 4) = Minted"
  by (simp_all add: BuiltinSecrets_def)

lemma default_zone [simp]:
  "zone_or_zero default_topology Infra = default_zones ! 0"
  "zone_or_zero default_topology Services = default_zones ! 1"
  "zone_or_zero default_topology Agent = default_zones ! 2"
  by (simp_all add: zone_or_zero_def Zone_def default_topology_def default_zones_def)

lemma default_zone_sel [simp]:
  "zWorkloads (default_zones ! 0) = [''kuma-cp'', ''gateway'']" "\<not> zInternal (default_zones ! 0)"
  "zWorkloads (default_zones ! Suc 0) = [''litellm-db'', ''litellm'', ''agentgateway'']" "\<not> zInternal (default_zones ! Suc 0)"
  "zWorkloads (default_zones ! 2) = [''openclaw'']" "zInternal (default_zones ! 2)"
  by (simp_all add: default_zones_def)

lemma pod_names [simp]:
  "podName (path_join ''/s'' (PodFile w)) = w" if "w \<in> {''kuma-cp'', ''gateway'', ''litellm-db'', ''litellm'', ''agentgateway'', ''openclaw''}"
  using that by (auto simp: podName_def PodFile_def workload_dir_def path_join_def path_clean_def clean_elems_def
      rooted_path_def slash_def Let_def)

lemmas run_ops = requireKeychain_def fakeKeychain_def fakeTarget_def fakeRuntime_def fakeWorkloads_def fakeMinter_def
  proceed_def chain_def attempt_def ensure_def check_ctx_def check_ctx2_def without_def absent_def

text \<open>The first \<open>up\<close> without the provider key stops at it, and changes nothing.\<close>

lemma up_without_key:
  "run_state (Up (ret None) test_lifecycle ''/s'' Roles) empty_world =
     ((([unset_check (user_spec ''anthropic-api-key'' [Services])], None)), empty_world)"
  by (simp add: Up_def run_ops Roles_def empty_world_def EvaluateSecret_def unset_check_def)

text \<open>With the key, everything comes up.\<close>

definition seq_value :: "generator \<Rightarrow> nat \<Rightarrow> string" where
  "seq_value g start = gPrefix g @ encode_raw (gEncoding g) (seq_bytes start 32)"

lemma run_Generate_seq [simp]:
  "gBytes g = 32 \<Longrightarrow>
    run_state (Generate g seqReader) w = (Inr (seq_value g (twSeq w)), w\<lparr>twSeq := twSeq w + 32\<rparr>)"
  by (simp add: Generate_def seqReader_def seq_value_def)

lemma builtin_bytes [simp]:
  "gBytes (sGenerator (BuiltinSecrets ! 0)) = 32" "gBytes (sGenerator (BuiltinSecrets ! Suc 0)) = 32"
  "gBytes (sGenerator (BuiltinSecrets ! 2)) = 32" "gBytes (sGenerator (BuiltinSecrets ! 3)) = 32"
  by (simp_all add: BuiltinSecrets_def)

definition machine_world :: test_world where
  "machine_world = ready_world\<lparr>twMachines := [\<lparr>mName = MachineName, mRunning = True\<rparr>],
     twNetworks := [''lclaw-agent'', ''lclaw-services'', ''lclaw-infra'']\<rparr>"

lemma up_machine:
  "run_state (ensureMachine test_lifecycle ''/s'' default_topology) ready_world =
     ((pass ''machine'' ''created and started'', None), ready_world\<lparr>twMachines := [\<lparr>mName = MachineName, mRunning = True\<rparr>]\<rparr>)"
  by (simp add: ensureMachine_def start_machine_def run_ops ready_world_def empty_world_def set_running_def machine_init_of_def)

lemma up_networks:
  "run_state (network_loop (ret None) test_lifecycle default_topology Roles r)
      (ready_world\<lparr>twMachines := [\<lparr>mName = MachineName, mRunning = True\<rparr>]\<rparr>) =
     (Next (r @ [pass ''network/infra'' ''created'', pass ''network/services'' ''created'',
        pass ''network/agent'' ''created (internal)'']), machine_world)"
  by (simp add: run_ops Roles_def machine_world_def ready_world_def empty_world_def NetworkName_def network_name_def)

definition infra_world :: test_world where
  "infra_world = machine_world\<lparr>twPods := [''gateway'', ''kuma-cp'']\<rparr>"

lemmas zone_ops = up_zone_def ResolveSecrets_def run_ops wait_ready_def secrets_name_def workload_name_def
  ready_name_def itoa_def

lemma itoa_small [simp]: "dec_digits 0 = ''0''" "dec_digits 2 = ''2''" "dec_digits 4 = ''4''"
  by code_simp+

lemma up_infra:
  "run_state (up_zone (ret None) test_lifecycle ''/s'' default_topology default_catalogue Infra r) machine_world =
     (Next ([], r @ [pass ''infra/secrets'' ''0 injected'', pass ''infra/kuma-cp'' ''built and playing'',
        pass ''infra/gateway'' ''built and playing'']), infra_world)"
  by (simp add: zone_ops infra_world_def machine_world_def ready_world_def empty_world_def)

definition services_world :: test_world where
  "services_world = infra_world\<lparr>
     twItems := [(''litellm-salt-key'', seq_value (sGenerator (BuiltinSecrets ! 1)) 64, Generated),
       (''litellm-master-key'', seq_value (sGenerator (BuiltinSecrets ! 0)) 32, Generated),
       (''litellm-db-password'', seq_value (sGenerator (BuiltinSecrets ! 2)) 0, Generated),
       (''anthropic-api-key'', ''key'', User)],
     twStore := [(''litellm-salt-key'', seq_value (sGenerator (BuiltinSecrets ! 1)) 64),
       (''litellm-master-key'', seq_value (sGenerator (BuiltinSecrets ! 0)) 32),
       (''litellm-db-password'', seq_value (sGenerator (BuiltinSecrets ! 2)) 0),
       (''anthropic-api-key'', ''key'')],
     twPods := [''agentgateway'', ''litellm'', ''litellm-db'', ''gateway'', ''kuma-cp''], twSeq := 96\<rparr>"

lemma up_services:
  "run_state (up_zone (ret None) test_lifecycle ''/s'' default_topology default_catalogue Services r) infra_world =
     (Next ([], r @ [pass ''services/secrets'' ''4 injected'', pass ''services/litellm-db'' ''built and playing'',
        pass ''services/litellm'' ''built and playing'', pass ''services/agentgateway'' ''built and playing'',
        pass ''services/ready'' ''LiteLLM is ready'']), services_world)"
  by (simp add: zone_ops services_world_def infra_world_def machine_world_def ready_world_def empty_world_def)

definition agent_world :: test_world where
  "agent_world = services_world\<lparr>
     twItems := (''openclaw-litellm-key'', ''sk-minted'', Minted) #
       (''openclaw-gateway-token'', seq_value (sGenerator (BuiltinSecrets ! 3)) 96, Generated) # twItems services_world,
     twStore := (''openclaw-litellm-key'', ''sk-minted'') #
       (''openclaw-gateway-token'', seq_value (sGenerator (BuiltinSecrets ! 3)) 96) # twStore services_world,
     twPods := ''openclaw'' # twPods services_world, twSeq := 128\<rparr>"

lemma up_agent:
  "run_state (up_zone (ret None) test_lifecycle ''/s'' default_topology default_catalogue Agent r) services_world =
     (Next ([], r @ [pass ''agent/secrets'' ''2 injected'', pass ''agent/openclaw'' ''built and playing'']), agent_world)"
  by (simp add: zone_ops agent_world_def services_world_def infra_world_def machine_world_def ready_world_def empty_world_def)

text \<open>With the provider key set, the first \<open>up\<close> brings every zone up.\<close>

lemma up_with_key:
  "\<exists>r. run_state (Up (ret None) test_lifecycle ''/s'' Roles) ready_world = ((r, None), agent_world) \<and>
     length r = 14 \<and> list_all (\<lambda>c. cStatus c = Pass) r"
proof -
  have users: "run_state (user_role_loop (ret None) test_lifecycle p default_catalogue Roles 0 []) ready_world =
      (Next (0, []), ready_world)" for p
    by (simp add: run_ops Roles_def ready_world_def empty_world_def)
  have key: "run_state (requireKeychain fakeKeychain p) ready_world = (None, ready_world)" for p
    by (simp add: run_ops ready_world_def empty_world_def)
  have zones: "\<exists>cs. run_state (zones_loop (ret None) test_lifecycle ''/s'' default_topology default_catalogue Roles [] r)
      machine_world = ((r @ cs, None), agent_world) \<and> length cs = 10 \<and> list_all (\<lambda>c. cStatus c = Pass) cs" for r
    by (simp add: Roles_def proceed_def check_ctx_def up_infra up_services up_agent)
      (simp add: pass_def mkCheck_def)
  show ?thesis
    using zones [of "[pass ''machine'' ''created and started'', pass ''network/infra'' ''created'',
        pass ''network/services'' ''created'', pass ''network/agent'' ''created (internal)'']"]
    by (auto simp: Up_def key users proceed_def up_machine check_ctx_def up_networks pass_def mkCheck_def
        simp del: user_role_loop.simps network_loop.simps zones_loop.simps)
qed

end
