(* ===== verification/UpTraces.thy ===== *)
theory UpTraces
  imports TestWorld
begin

text \<open>
  What \<open>up\<close> does to the outside world: the calls of each phase as a relation between
  its inputs, its answers and its events, and the order of the phases.
\<close>

section \<open>The logged use case\<close>

definition log_lifecycle :: "'w lifecycle \<Rightarrow> 'w logged lifecycle" where
  "log_lifecycle l =
     \<lparr>lcRuntime = log_runtime (lcRuntime l), lcWorkloads = log_workloads (lcWorkloads l),
      lcScaffold = log_opener (lcScaffold l), lcTopology = log_loader (lcTopology l),
      lcKeychain = log_keychain (lcKeychain l), lcTarget = log_target (lcTarget l),
      lcMinter = map_option log_minter (lcMinter l), lcRandom = log_random (lcRandom l),
      lcProgress = map_option log_progress (lcProgress l)\<rparr>"

lemma log_lifecycle_sel [simp]:
  "lcRuntime (log_lifecycle l) = log_runtime (lcRuntime l)"
  "lcWorkloads (log_lifecycle l) = log_workloads (lcWorkloads l)"
  "lcScaffold (log_lifecycle l) = log_opener (lcScaffold l)"
  "lcTopology (log_lifecycle l) = log_loader (lcTopology l)"
  "lcKeychain (log_lifecycle l) = log_keychain (lcKeychain l)"
  "lcTarget (log_lifecycle l) = log_target (lcTarget l)"
  "lcMinter (log_lifecycle l) = map_option log_minter (lcMinter l)"
  "lcRandom (log_lifecycle l) = log_random (lcRandom l)"
  by (simp_all add: log_lifecycle_def)

lemma log_lifecycle_resolve:
  "\<lparr>rsKeychain = lcKeychain (log_lifecycle l), rsMinter = lcMinter (log_lifecycle l),
     rsRandom = lcRandom (log_lifecycle l)\<rparr> =
   log_resolve \<lparr>rsKeychain = lcKeychain l, rsMinter = lcMinter l, rsRandom = lcRandom l\<rparr>"
  by (simp add: log_resolve_def log_lifecycle_def)

lemmas lc_sels = log_lifecycle_resolve log_lifecycle_sel log_files_sel log_keychain_sel log_runtime_sel log_workloads_sel

lemma emits_step [emits_rules]:
  "(\<And>u. emits P (f u)) \<Longrightarrow> emits P (State_Monad.bind (step (log_lifecycle l) n d) f)"
  unfolding step_def lc_progress_def log_lifecycle_def
  by (cases "lcProgress l") (auto simp: NoProgress_def intro: emits_bind_untap)

lemma logs_step [io_rules]: "logs A (step (log_lifecycle l) n d)"
  unfolding step_def lc_progress_def log_lifecycle_def
  by (cases "lcProgress l") (auto simp: NoProgress_def intro: io_rules)

lemma emits_load [emits_rules]:
  assumes "\<And>e es. list_all scaffold_event es \<Longrightarrow> emits (\<lambda>b fs. P b (es @ fs)) (f (Inl e))"
    and "\<And>fs topo. Validate topo (fsStat fs) = [] \<Longrightarrow>
      emits (\<lambda>b es. P b (EvOpenDir dir (Inr fs) # EvLoad fs (Inr topo) # es)) (f (Inr (topo, catalogue_of topo)))"
  shows "emits P (State_Monad.bind (load (log_lifecycle l) dir) f)"
proof -
  let ?Q = "\<lambda>r es. case r of
      Inl e \<Rightarrow> list_all scaffold_event es
    | Inr (topo, cat) \<Rightarrow> cat = catalogue_of topo \<and>
        (\<exists>fs. es = [EvOpenDir dir (Inr fs), EvLoad fs (Inr topo)] \<and> Validate topo (fsStat fs) = [])"
  have "emits ?Q (load (log_lifecycle l) dir)"
    unfolding load_def lc_sels
    by (intro emits_rules emits_ret) (auto simp: Let_def split: sum.splits prod.splits)
  then show ?thesis
    by (rule emits_bind) (use assms in \<open>auto split: sum.splits prod.splits\<close>)
qed

lemma emits_check_ctx [emits_rules]:
  "(\<And>e. P (Return (r, Some e)) []) \<Longrightarrow> emits P k \<Longrightarrow> emits P (check_ctx (untap ctx) r k)"
  unfolding check_ctx_def by (intro emits_rules emits_ret) auto

lemma emits_check_ctx2:
  assumes "sticky ctx" and "\<And>e. P (Return (r, Some e)) []" and "emits P k"
  shows "emits P (check_ctx2 (untap ctx) r k)"
proof (rule emitsI)
  fix w tr a w' tr'
  assume run: "run_state (check_ctx2 (untap ctx) r k) (w, tr) = (a, w', tr')"
  obtain c w1 where c: "run_state ctx w = (c, w1)" by fastforce
  show "\<exists>es. tr' = tr @ es \<and> P a es"
  proof (cases c)
    case None
    with run c have "run_state k (w1, tr) = (a, w', tr')" by (simp add: check_ctx2_def)
    then show ?thesis using assms(3) unfolding emits_def by blast
  next
    case (Some e)
    obtain c2 w2 where c2: "run_state ctx w1 = (c2, w2)" by fastforce
    then obtain e2 where "c2 = Some e2" using assms(1) c Some unfolding sticky_def by fastforce
    with run c Some c2 show ?thesis using assms(2) by (auto simp: check_ctx2_def)
  qed
qed

lemma emits_proceed_ctx [emits_rules]:
  "(\<And>e. P (r, Some e) []) \<Longrightarrow> emits P (k x) \<Longrightarrow> emits P (proceed (check_ctx (untap ctx) r (ret (Next x))) k)"
  unfolding proceed_def check_ctx_def by (simp, intro emits_rules) (auto intro: emits_ret)

section \<open>The user's secrets\<close>

text \<open>One entry after the other is described; \<open>bad\<close> are the ones that are not set.\<close>

inductive describes :: "string \<Rightarrow> secret_spec list \<Rightarrow> secret_spec list \<Rightarrow> event list \<Rightarrow> bool"
  for path :: string where
  describes_end: "describes path [] [] []"
| describes_set: "describes path specs bad es \<Longrightarrow>
    describes path (spec # specs) bad (EvDescribe path (sName spec) (Inr item) # es)"
| describes_unset: "describes path specs bad es \<Longrightarrow> errors_is e ErrSecretNotFound \<Longrightarrow>
    describes path (spec # specs) (spec # bad) (EvDescribe path (sName spec) (Inl e) # es)"

lemma describes_append:
  "describes path specs bad es \<Longrightarrow> describes path specs' bad' es' \<Longrightarrow>
    describes path (specs @ specs') (bad @ bad') (es @ es')"
  by (induction rule: describes.induct) (auto intro: describes.intros)

lemma describes_no_bad:
  "describes path specs bad es \<Longrightarrow> bad = [] \<Longrightarrow> \<forall>spec \<in> set specs. \<exists>item. EvDescribe path (sName spec) (Inr item) \<in> set es"
  by (induction rule: describes.induct) auto

definition user_entries :: "catalogue \<Rightarrow> role \<Rightarrow> secret_spec list" where
  "user_entries cat role = filter (\<lambda>spec. sSource spec = User) (ForZone cat role)"

fun describe_event :: "event \<Rightarrow> bool" where
  "describe_event (EvDescribe _ _ _) = True"
| "describe_event _ = False"

lemma describes_events: "describes path specs bad es \<Longrightarrow> list_all describe_event es"
  by (induction rule: describes.induct) auto

definition users_phase :: "string \<Rightarrow> secret_spec list \<Rightarrow> nat \<Rightarrow> report \<Rightarrow>
    (reported, nat \<times> report) flow \<Rightarrow> event list \<Rightarrow> bool" where
  "users_phase path specs m0 r0 q es \<longleftrightarrow>
     (case q of
        Return (r, err) \<Rightarrow> err \<noteq> None \<and> list_all describe_event es
      | Next (m, r) \<Rightarrow> \<exists>bad. describes path specs bad es \<and> m = m0 + length bad \<and> r = r0 @ map unset_check bad)"

lemma unset_verdict: "errors_is e ErrSecretNotFound \<Longrightarrow> EvaluateSecret spec (Some e) = unset_check spec"
  by (simp add: EvaluateSecret_def unset_check_def)

lemma users_phase_set:
  "users_phase path specs m r q es \<Longrightarrow>
    users_phase path (spec # specs) m r q (EvDescribe path (sName spec) (Inr item) # es)"
  by (auto simp: users_phase_def intro: describes_set split: flow.splits)

lemma users_phase_unset:
  assumes "users_phase path specs (Suc m) (r @ [unset_check spec]) q es" and "errors_is e ErrSecretNotFound"
  shows "users_phase path (spec # specs) m r q (EvDescribe path (sName spec) (Inl e) # es)"
proof (cases q)
  case (Next x)
  then obtain bad where "describes path specs bad es" "x = (Suc m + length bad, (r @ [unset_check spec]) @ map unset_check bad)"
    using assms(1) by (auto simp: users_phase_def)
  then show ?thesis
    using Next describes_unset [OF _ assms(2)] by (auto simp: users_phase_def intro!: exI [of _ "spec # bad"])
qed (use assms in \<open>auto simp: users_phase_def\<close>)

lemma emits_user_spec_loop:
  "emits (users_phase path (filter (\<lambda>spec. sSource spec = User) specs) m r)
     (user_spec_loop (untap ctx) (log_lifecycle l) path specs m r)"
proof (induction specs arbitrary: m r)
  case Nil
  show ?case by (auto intro!: emits_ret describes_end simp: users_phase_def)
next
  case (Cons spec specs)
  show ?case
  proof (cases "sSource spec = User")
    case True
    show ?thesis
      unfolding user_spec_loop.simps lc_sels
      by (intro emits_rules emits_ret emits_conseq [OF Cons.IH])
        (simp_all add: True unset_verdict users_phase_set users_phase_unset, simp_all add: users_phase_def)
  qed (use Cons in simp)
qed

definition all_user_entries :: "catalogue \<Rightarrow> role list \<Rightarrow> secret_spec list" where
  "all_user_entries cat roles = concat (map (user_entries cat) roles)"

lemma emits_user_role_loop:
  "emits (users_phase path (all_user_entries cat roles) m r)
     (user_role_loop (untap ctx) (log_lifecycle l) path cat roles m r)"
proof (induction roles arbitrary: m r)
  case Nil
  show ?case by (auto intro!: emits_ret describes_end simp: users_phase_def all_user_entries_def)
next
  case (Cons role roles)
  let ?here = "user_entries cat role"
  have join: "users_phase path (all_user_entries cat (role # roles)) m r q (es @ fs)"
    if here: "users_phase path ?here m r (Next (m1, r1)) es"
    and there: "users_phase path (all_user_entries cat roles) m1 r1 q fs" for q es fs m1 r1
  proof -
    obtain bad where bad: "describes path ?here bad es" "m1 = m + length bad" "r1 = r @ map unset_check bad"
      using here by (auto simp: users_phase_def)
    show ?thesis
      using there bad describes_append [OF bad(1)] describes_events [OF bad(1)]
      by (auto simp: users_phase_def all_user_entries_def split: flow.splits)
        (metis append_assoc length_append map_append add.assoc)
  qed
  show ?case
    unfolding user_role_loop.simps
    by (rule emits_chain [OF emits_user_spec_loop])
      (auto simp: user_entries_def [symmetric] users_phase_def [of _ _ _ _ "Return _"]
        intro!: emits_conseq [OF Cons.IH] join)
qed

section \<open>The machine\<close>

text \<open>
  The calls \<open>ensureMachine\<close> makes and what it answers. The machine is created only
  when the runtime lists none of the name, and started only when it does not run.
\<close>

definition machine_listed :: "machine list \<Rightarrow> machine option" where
  "machine_listed ms = find (\<lambda>m. mName m = MachineName) ms"

inductive ensures :: "string \<Rightarrow> topology \<Rightarrow> check \<times> go_error option \<Rightarrow> event list \<Rightarrow> bool"
  for dir :: string and topo :: topology where
  list_failed: "ensures dir topo (fail_check ''machine'' e, Some e) [EvListMachines (Inl e)]"
| running: "machine_listed ms = Some m \<Longrightarrow> mRunning m \<Longrightarrow>
    ensures dir topo (pass ''machine'' ''running'', None) [EvListMachines (Inr ms)]"
| start_failed: "machine_listed ms = Some m \<Longrightarrow> \<not> mRunning m \<Longrightarrow>
    ensures dir topo (fail_check ''machine'' e, Some e)
      [EvListMachines (Inr ms), EvStartMachine (tProvider topo) MachineName (Some e)]"
| started: "machine_listed ms = Some m \<Longrightarrow> \<not> mRunning m \<Longrightarrow>
    ensures dir topo (pass ''machine'' ''started'', None)
      [EvListMachines (Inr ms), EvStartMachine (tProvider topo) MachineName None]"
| init_failed: "machine_listed ms = None \<Longrightarrow>
    ensures dir topo (fail_check ''machine'' e, Some e)
      [EvListMachines (Inr ms), EvInitMachine (machine_init_of dir topo) (Some e)]"
| created_failed: "machine_listed ms = None \<Longrightarrow>
    ensures dir topo (fail_check ''machine'' e, Some e)
      [EvListMachines (Inr ms), EvInitMachine (machine_init_of dir topo) None,
       EvStartMachine (tProvider topo) MachineName (Some e)]"
| created: "machine_listed ms = None \<Longrightarrow>
    ensures dir topo (pass ''machine'' ''created and started'', None)
      [EvListMachines (Inr ms), EvInitMachine (machine_init_of dir topo) None,
       EvStartMachine (tProvider topo) MachineName None]"

lemma emits_ensureMachine: "emits (ensures dir topo) (ensureMachine (log_lifecycle l) dir topo)"
  unfolding ensureMachine_def start_machine_def lc_sels machine_listed_def [symmetric]
  by (intro emits_rules emits_ret) (auto intro: ensures.intros split: option.splits)

section \<open>The networks\<close>

inductive networks :: "topology \<Rightarrow> role list \<Rightarrow> report \<Rightarrow> event list \<Rightarrow> bool"
  for topo :: topology where
  networks_end: "networks topo [] [] []"
| network_present: "networks topo roles cs es \<Longrightarrow>
    networks topo (role # roles) (pass (network_name role) ''present'' # cs)
      (EvNetworkExists (NetworkName role) (Inr True) # es)"
| network_created: "networks topo roles cs es \<Longrightarrow>
    networks topo (role # roles)
      (pass (network_name role) (if zInternal (zone_or_zero topo role) then ''created'' @ '' (internal)'' else ''created'') # cs)
      (EvNetworkExists (NetworkName role) (Inr False) #
       EvCreateNetwork (NetworkName role) (zInternal (zone_or_zero topo role)) None # es)"

fun network_event :: "event \<Rightarrow> bool" where
  "network_event (EvNetworkExists _ _) = True"
| "network_event (EvCreateNetwork _ _ _) = True"
| "network_event _ = False"

definition networks_phase :: "topology \<Rightarrow> role list \<Rightarrow> report \<Rightarrow> (reported, report) flow \<Rightarrow> event list \<Rightarrow> bool" where
  "networks_phase topo roles r0 q es \<longleftrightarrow>
     list_all network_event es \<and>
     (case q of
        Return (r, err) \<Rightarrow> err = None \<longrightarrow> (\<exists>c. last r = c \<and> r \<noteq> [] \<and> cStatus c = Fail)
      | Next r \<Rightarrow> \<exists>cs. networks topo roles cs es \<and> r = r0 @ cs)"

lemma networks_phase_present:
  "networks_phase topo roles (r @ [pass (network_name role) ''present'']) q es \<Longrightarrow>
    networks_phase topo (role # roles) r q (EvNetworkExists (NetworkName role) (Inr True) # es)"
  by (auto simp: networks_phase_def intro: network_present split: flow.splits)

lemma networks_phase_created:
  "networks_phase topo roles (r @ [pass (network_name role)
      (if zInternal (zone_or_zero topo role) then ''created'' @ '' (internal)'' else ''created'')]) q es \<Longrightarrow>
    networks_phase topo (role # roles) r q
      (EvNetworkExists (NetworkName role) (Inr False) #
       EvCreateNetwork (NetworkName role) (zInternal (zone_or_zero topo role)) None # es)"
  by (auto simp: networks_phase_def intro: network_created split: flow.splits)

lemma fail_check_status [simp]: "cStatus (fail_check n e) = Fail"
  by (simp add: fail_check_def mkCheck_def)

lemma emits_network_loop:
  "emits (networks_phase topo roles r) (network_loop (untap ctx) (log_lifecycle l) topo roles r)"
proof (induction roles arbitrary: r)
  case Nil
  show ?case by (auto intro!: emits_ret networks_end simp: networks_phase_def)
next
  case (Cons role roles)
  show ?case
    unfolding network_loop.simps lc_sels
    by (intro emits_rules emits_ret emits_conseq [OF Cons.IH])
      (simp_all only: networks_phase_present networks_phase_created,
       auto simp: networks_phase_def intro: networks_phase_present networks_phase_created)
qed

section \<open>The workloads of a zone\<close>

definition build_event :: "string \<Rightarrow> workload \<Rightarrow> go_error option \<Rightarrow> event" where
  "build_event dir w a = EvBuild (ImageTag w) (path_join dir (workload_dir w)) a"

definition play_event :: "string \<Rightarrow> zone_spec \<Rightarrow> workload \<Rightarrow> go_error option \<Rightarrow> event" where
  "play_event dir z w a =
     EvPlay (path_join dir (PodFile w)) (Networks z w) (if zInternal z then ''auto'' else []) a"

text \<open>Build and play each workload in turn, up to the first failure, which is named.\<close>

inductive plays :: "string \<Rightarrow> role \<Rightarrow> zone_spec \<Rightarrow> workload list \<Rightarrow> string \<Rightarrow> report \<Rightarrow> event list \<Rightarrow> bool"
  for dir :: string and role :: role and z :: zone_spec where
  plays_end: "plays dir role z [] [] [] []"
| plays_ok: "plays dir role z ws failed cs es \<Longrightarrow>
    plays dir role z (w # ws) failed (pass (workload_name role w) ''built and playing'' # cs)
      (build_event dir w None # play_event dir z w None # es)"
| build_failed: "plays dir role z (w # ws) (workload_name role w) [fail_check (workload_name role w) e]
    [build_event dir w (Some e)]"
| play_failed: "plays dir role z (w # ws) (workload_name role w) [fail_check (workload_name role w) e]
    [build_event dir w None, play_event dir z w (Some e)]"

text \<open>The same events cut off where the context ended.\<close>

inductive plays_cut :: "string \<Rightarrow> zone_spec \<Rightarrow> workload list \<Rightarrow> event list \<Rightarrow> bool"
  for dir :: string and z :: zone_spec where
  cut_end: "plays_cut dir z ws []"
| cut_ok: "plays_cut dir z ws es \<Longrightarrow>
    plays_cut dir z (w # ws) (build_event dir w None # play_event dir z w None # es)"
| cut_build: "plays_cut dir z (w # ws) [build_event dir w (Some e)]"
| cut_play: "plays_cut dir z (w # ws) [build_event dir w None, play_event dir z w (Some e)]"

definition plays_phase :: "string \<Rightarrow> role \<Rightarrow> zone_spec \<Rightarrow> workload list \<Rightarrow> report \<Rightarrow>
    (reported, string \<times> report) flow \<Rightarrow> event list \<Rightarrow> bool" where
  "plays_phase dir role z ws r0 q es \<longleftrightarrow>
     (case q of
        Return (r, err) \<Rightarrow> err \<noteq> None \<and> plays_cut dir z ws es
      | Next (failed, r) \<Rightarrow> \<exists>cs. plays dir role z ws failed cs es \<and> r = r0 @ cs)"

lemma plays_phase_ok:
  "plays_phase dir role z ws (r @ [pass (workload_name role w) ''built and playing'']) q es \<Longrightarrow>
    plays_phase dir role z (w # ws) r q (build_event dir w None # play_event dir z w None # es)"
  by (auto simp: plays_phase_def intro: plays_ok cut_ok split: flow.splits)

lemma plays_phase_failed:
  "plays_phase dir role z (w # ws) r (Next (workload_name role w, r @ [fail_check (workload_name role w) e]))
     [build_event dir w (Some e)]"
  "plays_phase dir role z (w # ws) r (Next (workload_name role w, r @ [fail_check (workload_name role w) e]))
     [build_event dir w None, play_event dir z w (Some e)]"
  "plays_phase dir role z (w # ws) r (Return (r', Some e')) [build_event dir w (Some e)]"
  "plays_phase dir role z (w # ws) r (Return (r', Some e')) [build_event dir w None, play_event dir z w (Some e)]"
  "plays_phase dir role z ws r (Return (r', Some e')) []"
  by (auto simp: plays_phase_def intro: plays.intros plays_cut.intros)

lemma emits_play_loop:
  assumes ctx: "sticky ctx"
  shows "emits (plays_phase dir role z ws r) (play_loop (untap ctx) (log_lifecycle l) dir role z ws r)"
proof (induction ws arbitrary: r)
  case Nil
  show ?case by (auto intro!: emits_ret plays_end simp: plays_phase_def)
next
  case (Cons w ws)
  show ?case
    unfolding play_loop.simps lc_sels build_event_def [symmetric] play_event_def [symmetric]
    by (intro emits_rules emits_ret emits_check_ctx2 [OF ctx] emits_conseq [OF Cons.IH])
      (simp_all add: plays_phase_ok plays_phase_failed)
qed

section \<open>A zone\<close>

text \<open>Waiting for LiteLLM after the services zone, when there is a minter.\<close>

inductive readies :: "bool \<Rightarrow> role \<Rightarrow> string \<Rightarrow> report \<Rightarrow> event list \<Rightarrow> bool"
  for minter :: bool and role :: role where
  no_wait: "\<not> (minter \<and> role = Services) \<Longrightarrow> readies minter role [] [] []"
| ready: "minter \<Longrightarrow> role = Services \<Longrightarrow>
    readies minter role [] [pass (ready_name role) ''LiteLLM is ready''] [EvReady None]"
| not_ready: "minter \<Longrightarrow> role = Services \<Longrightarrow>
    readies minter role (ready_name role) [fail_check (ready_name role) e] [EvReady (Some e)]"

definition injected :: "role \<Rightarrow> resolved_secret list \<Rightarrow> check" where
  "injected role rs = pass (secrets_name role) (itoa (int (length rs)) @ '' injected'')"

text \<open>
  A zone run to its end or to its first failure: the step that failed (or the empty
  string), the checks and the events.
\<close>

inductive zone_run :: "string \<Rightarrow> topology \<Rightarrow> bool \<Rightarrow> role \<Rightarrow> string \<Rightarrow> report \<Rightarrow> event list \<Rightarrow> bool"
  for dir :: string and topo :: topology and minter :: bool and role :: role where
  zone_findings: "resolve_contract (tKeychainPath topo) (ForZone (catalogue_of topo) role) (Inr (rs, cs)) es \<Longrightarrow>
    cs \<noteq> [] \<Longrightarrow> zone_run dir topo minter role (secrets_name role) cs es"
| zone_not_injected:
    "resolve_contract (tKeychainPath topo) (ForZone (catalogue_of topo) role) (Inr (rs, [])) es \<Longrightarrow>
     inject_contract rs (Some e) fs \<Longrightarrow>
     zone_run dir topo minter role (secrets_name role) [fail_check (secrets_name role) e] (es @ fs)"
| zone_not_played:
    "resolve_contract (tKeychainPath topo) (ForZone (catalogue_of topo) role) (Inr (rs, [])) es \<Longrightarrow>
     plays dir role (zone_or_zero topo role) (zWorkloads (zone_or_zero topo role)) failed cs fs \<Longrightarrow>
     failed \<noteq> [] \<Longrightarrow>
     zone_run dir topo minter role failed (injected role rs # cs) (es @ store_events rs @ fs)"
| zone_played:
    "resolve_contract (tKeychainPath topo) (ForZone (catalogue_of topo) role) (Inr (rs, [])) es \<Longrightarrow>
     plays dir role (zone_or_zero topo role) (zWorkloads (zone_or_zero topo role)) [] cs fs \<Longrightarrow>
     readies minter role failed ds gs \<Longrightarrow>
     zone_run dir topo minter role failed (injected role rs # cs @ ds) (es @ store_events rs @ fs @ gs)"

text \<open>The events of a zone cut off because the context ended or the keychain broke.\<close>

inductive zone_cut :: "string \<Rightarrow> topology \<Rightarrow> bool \<Rightarrow> role \<Rightarrow> event list \<Rightarrow> bool"
  for dir :: string and topo :: topology and minter :: bool and role :: role where
  cut_resolving: "list_all (resolve_event (tKeychainPath topo) (ForZone (catalogue_of topo) role)) es \<Longrightarrow>
    zone_cut dir topo minter role es"
| cut_injecting:
    "resolve_contract (tKeychainPath topo) (ForZone (catalogue_of topo) role) (Inr (rs, [])) es \<Longrightarrow>
     inject_contract rs (Some e) fs \<Longrightarrow> zone_cut dir topo minter role (es @ fs)"
| cut_playing:
    "resolve_contract (tKeychainPath topo) (ForZone (catalogue_of topo) role) (Inr (rs, [])) es \<Longrightarrow>
     plays_cut dir (zone_or_zero topo role) (zWorkloads (zone_or_zero topo role)) fs \<Longrightarrow>
     zone_cut dir topo minter role (es @ store_events rs @ fs)"
| cut_waiting:
    "resolve_contract (tKeychainPath topo) (ForZone (catalogue_of topo) role) (Inr (rs, [])) es \<Longrightarrow>
     plays dir role (zone_or_zero topo role) (zWorkloads (zone_or_zero topo role)) [] cs fs \<Longrightarrow>
     minter \<Longrightarrow> role = Services \<Longrightarrow>
     zone_cut dir topo minter role (es @ store_events rs @ fs @ [EvReady (Some e)])"

definition zone_phase :: "string \<Rightarrow> topology \<Rightarrow> bool \<Rightarrow> role \<Rightarrow> report \<Rightarrow>
    (reported, string \<times> report) flow \<Rightarrow> event list \<Rightarrow> bool" where
  "zone_phase dir topo minter role r0 q es \<longleftrightarrow>
     (case q of
        Return (r, err) \<Rightarrow> err \<noteq> None \<and> zone_cut dir topo minter role es
      | Next (failed, r) \<Rightarrow> \<exists>cs. zone_run dir topo minter role failed cs es \<and> r = r0 @ cs)"

lemma emits_ResolveSecrets [emits_rules]:
  "(\<And>q es. resolve_contract path (ForZone cat role) q es \<Longrightarrow> emits (\<lambda>b fs. P b (es @ fs)) (f q)) \<Longrightarrow>
    emits P (State_Monad.bind (ResolveSecrets (untap ctx) (log_resolve r) path cat role) f)"
  by (rule emits_bind [OF emits_ResolveSecrets_spec])

lemma emits_InjectSecrets [emits_rules]:
  "(\<And>q es. inject_contract secrets q es \<Longrightarrow> emits (\<lambda>b fs. P b (es @ fs)) (f q)) \<Longrightarrow>
    emits P (State_Monad.bind (InjectSecrets (untap ctx) (log_target target) secrets) f)"
  by (rule emits_bind [OF emits_InjectSecrets_spec])

definition ready_phase :: "bool \<Rightarrow> role \<Rightarrow> report \<Rightarrow> (reported, string \<times> report) flow \<Rightarrow> event list \<Rightarrow> bool" where
  "ready_phase minter role r0 q es \<longleftrightarrow>
     (case q of
        Return (r, err) \<Rightarrow> err \<noteq> None \<and> minter \<and> role = Services \<and> (\<exists>e. es = [EvReady (Some e)])
      | Next (failed, r) \<Rightarrow> \<exists>ds. readies minter role failed ds es \<and> r = r0 @ ds)"

lemma emits_wait_ready:
  assumes ctx: "sticky ctx"
  shows "emits (ready_phase (lcMinter l \<noteq> None) role r) (wait_ready (untap ctx) (log_lifecycle l) role r)"
proof (cases "lcMinter l")
  case None
  then show ?thesis
    by (auto simp: wait_ready_def ready_phase_def intro!: emits_ret intro: readies.intros)
next
  case (Some m)
  show ?thesis
    unfolding wait_ready_def lc_sels Some option.map option.case log_minter_sel
    by (intro emits_rules emits_ret emits_check_ctx2 [OF ctx])
      (auto simp: ready_phase_def intro: readies.intros split: option.splits)
qed

lemma resolve_contract_cut:
  "resolve_contract (tKeychainPath topo) (ForZone (catalogue_of topo) role) q es \<Longrightarrow> zone_cut dir topo minter role es"
  by (auto simp: resolve_contract_def intro: cut_resolving)

lemma inject_None: "inject_contract secrets None es \<longleftrightarrow> es = store_events secrets"
  by (simp add: inject_contract_def)

lemma zone_phase_Return:
  "zone_cut dir topo minter role es \<Longrightarrow> zone_phase dir topo minter role r0 (Return (r, Some e)) es"
  by (simp add: zone_phase_def)

lemma zone_phase_Next:
  "zone_run dir topo minter role failed cs es \<Longrightarrow> zone_phase dir topo minter role r0 (Next (failed, r0 @ cs)) es"
  by (auto simp: zone_phase_def)

lemma emits_up_zone:
  assumes ctx: "sticky ctx" and cat: "cat = catalogue_of topo" and m: "m = (lcMinter l \<noteq> None)"
  shows "emits (zone_phase dir topo m role r)
    (up_zone (untap ctx) (log_lifecycle l) dir topo cat role r)"
proof -
  have play: "emits (\<lambda>q fs. zone_phase dir topo m role r q (es @ store_events rs @ fs))
      (chain (play_loop (untap ctx) (log_lifecycle l) dir role (zone_or_zero topo role)
          (zWorkloads (zone_or_zero topo role)) (r @ [injected role rs]))
        (\<lambda>(failed, r). if failed \<noteq> [] then ret (Next (failed, r)) else wait_ready (untap ctx) (log_lifecycle l) role r))"
    if res: "resolve_contract (tKeychainPath topo) (ForZone (catalogue_of topo) role) (Inr (rs, [])) es" for rs es
  proof (rule emits_chain [OF emits_play_loop [OF ctx]])
    fix q fs
    assume "plays_phase dir role (zone_or_zero topo role) (zWorkloads (zone_or_zero topo role))
      (r @ [injected role rs]) (Return q) fs"
    then show "zone_phase dir topo m role r (Return q) (es @ store_events rs @ fs)"
      using cut_playing [OF res] by (auto simp: plays_phase_def zone_phase_def split: prod.splits)
  next
    fix x fs
    assume "plays_phase dir role (zone_or_zero topo role) (zWorkloads (zone_or_zero topo role))
      (r @ [injected role rs]) (Next x) fs"
    then obtain failed cs where x: "x = (failed, (r @ [injected role rs]) @ cs)"
      and played: "plays dir role (zone_or_zero topo role) (zWorkloads (zone_or_zero topo role)) failed cs fs"
      by (auto simp: plays_phase_def)
    show "emits (\<lambda>b gs. zone_phase dir topo m role r b (es @ store_events rs @ fs @ gs))
      (case x of (failed, r) \<Rightarrow> if failed \<noteq> [] then ret (Next (failed, r))
         else wait_ready (untap ctx) (log_lifecycle l) role r)"
    proof (cases "failed = []")
      case True
      show ?thesis
        unfolding x True using zone_played [OF res] cut_waiting [OF res] played
        by (auto simp: ready_phase_def zone_phase_def True intro!: emits_conseq [OF emits_wait_ready [OF ctx, of l, folded m]]
            split: flow.splits)
    next
      case False
      with zone_not_played [OF res played] x show ?thesis
        by (auto intro!: emits_ret simp: zone_phase_def)
    qed
  qed
  show ?thesis
    unfolding up_zone_def log_lifecycle_resolve
    unfolding log_lifecycle_sel cat injected_def [symmetric]
    by (intro emits_rules emits_ret emits_check_ctx2 [OF ctx])
      (auto simp: inject_None intro: play zone_phase_Return [OF resolve_contract_cut]
        zone_phase_Return [OF cut_injecting] zone_phase_Next [OF zone_findings] zone_phase_Next [OF zone_not_injected])
qed

section \<open>All zones\<close>

inductive zones_run :: "string \<Rightarrow> topology \<Rightarrow> bool \<Rightarrow> role list \<Rightarrow> report \<Rightarrow> event list \<Rightarrow> bool"
  for dir :: string and topo :: topology and minter :: bool where
  zones_end: "zones_run dir topo minter [] [] []"
| zones_ok: "zone_run dir topo minter role [] cs es \<Longrightarrow> zones_run dir topo minter roles ds fs \<Longrightarrow>
    zones_run dir topo minter (role # roles) (cs @ ds) (es @ fs)"
| zones_failed: "zone_run dir topo minter role failed cs es \<Longrightarrow> failed \<noteq> [] \<Longrightarrow>
    zones_run dir topo minter (role # roles) (cs @ map (\<lambda>r. skipped r failed) roles) es"

inductive zones_cut :: "string \<Rightarrow> topology \<Rightarrow> bool \<Rightarrow> role list \<Rightarrow> event list \<Rightarrow> bool"
  for dir :: string and topo :: topology and minter :: bool where
  zones_cut_before: "zones_cut dir topo minter roles []"
| zones_cut_in: "zone_cut dir topo minter role es \<Longrightarrow> zones_cut dir topo minter (role # roles) es"
| zones_cut_failed: "zone_run dir topo minter role failed cs es \<Longrightarrow> zones_cut dir topo minter (role # roles) es"
| zones_cut_after: "zone_run dir topo minter role [] cs es \<Longrightarrow> zones_cut dir topo minter roles fs \<Longrightarrow>
    zones_cut dir topo minter (role # roles) (es @ fs)"

definition zones_phase :: "string \<Rightarrow> topology \<Rightarrow> bool \<Rightarrow> role list \<Rightarrow> report \<Rightarrow> reported \<Rightarrow> event list \<Rightarrow> bool" where
  "zones_phase dir topo minter roles r0 q es \<longleftrightarrow>
     (case q of
        (r, None) \<Rightarrow> \<exists>cs. zones_run dir topo minter roles cs es \<and> r = r0 @ cs
      | (r, Some _) \<Rightarrow> zones_cut dir topo minter roles es)"

definition skipping :: "role list \<Rightarrow> string \<Rightarrow> report \<Rightarrow> reported \<Rightarrow> event list \<Rightarrow> bool" where
  "skipping roles failed r0 q es \<longleftrightarrow>
     es = [] \<and> (snd q = None \<longrightarrow> fst q = r0 @ map (\<lambda>r. skipped r failed) roles)"

lemma emits_zones_skip:
  "failed \<noteq> [] \<Longrightarrow> emits (skipping roles failed r)
     (zones_loop (untap ctx) (log_lifecycle l) dir topo cat roles failed r)"
proof (induction roles arbitrary: r)
  case Nil
  show ?case by (auto intro!: emits_ret simp: skipping_def)
next
  case (Cons role roles)
  have "emits (skipping (role # roles) failed r)
    (proceed (check_ctx (untap ctx) r (ret (Next (failed, r @ [skipped role failed]))))
      (\<lambda>(failed, r). zones_loop (untap ctx) (log_lifecycle l) dir topo cat roles failed r))"
    by (rule emits_proceed_ctx)
      (auto simp: skipping_def intro!: emits_conseq [OF Cons.IH [OF Cons.prems, unfolded skipping_def]])
  then show ?case using Cons.prems by simp
qed

lemma zone_names_nonempty [simp]:
  "secrets_name role \<noteq> []" "workload_name role w \<noteq> []" "ready_name role \<noteq> []"
  "[] \<noteq> secrets_name role" "[] \<noteq> workload_name role w" "[] \<noteq> ready_name role"
  by (simp_all add: secrets_name_def workload_name_def ready_name_def)

lemma emits_zones_loop:
  assumes ctx: "sticky ctx" and cat: "cat = catalogue_of topo" and m: "m = (lcMinter l \<noteq> None)"
  shows "emits (zones_phase dir topo m roles r)
    (zones_loop (untap ctx) (log_lifecycle l) dir topo cat roles [] r)"
proof (induction roles arbitrary: r)
  case Nil
  show ?case by (auto intro!: emits_ret zones_end simp: zones_phase_def)
next
  case (Cons role roles)
  let ?Q = "\<lambda>q es. zone_phase dir topo m role r q es \<or> (\<exists>e. q = Return (r, Some e) \<and> es = [])"
  have zone: "emits ?Q (check_ctx (untap ctx) r (up_zone (untap ctx) (log_lifecycle l) dir topo cat role r))"
    by (intro emits_rules emits_conseq [OF emits_up_zone [OF ctx cat m]]) auto
  show ?case
    unfolding zones_loop.simps
  proof (simp, rule emits_proceed [OF zone])
    fix q es
    assume "?Q (Return q) es"
    then show "zones_phase dir topo m (role # roles) r q es"
      by (cases q) (auto simp: zones_phase_def zone_phase_def intro: zones_cut.intros)
  next
    fix x es
    assume "?Q (Next x) es"
    then obtain failed cs where x: "x = (failed, r @ cs)" and run: "zone_run dir topo m role failed cs es"
      by (auto simp: zone_phase_def)
    show "emits (\<lambda>b fs. zones_phase dir topo m (role # roles) r b (es @ fs))
      (case x of (failed, r) \<Rightarrow> zones_loop (untap ctx) (log_lifecycle l) dir topo cat roles failed r)"
    proof (cases "failed = []")
      case True
      then show ?thesis
        unfolding x using run
        by (auto intro!: emits_conseq [OF Cons.IH] intro: zones_ok zones_cut_after
            simp: zones_phase_def split: prod.splits option.splits)
          (metis append_assoc zones_ok)
    next
      case False
      then show ?thesis
        unfolding x using run zones_failed [OF run False] zones_cut_failed [OF run]
        by (auto intro!: emits_conseq [OF emits_zones_skip [OF False]]
            simp: zones_phase_def skipping_def split: prod.splits option.splits)
    qed
  qed
qed

section \<open>The order of the phases\<close>

text \<open>
  A run of \<open>up\<close>: what it returns and all its calls. Each rule is one place where the
  function can return.
\<close>

inductive up_run :: "string \<Rightarrow> role list \<Rightarrow> bool \<Rightarrow> reported \<Rightarrow> event list \<Rightarrow> bool"
  for dir :: string and roles :: "role list" and minter :: bool where
  not_loaded: "list_all scaffold_event es \<Longrightarrow> up_run dir roles minter ([], Some e) es"
| no_keychain: "Validate topo (fsStat fs) = [] \<Longrightarrow> a \<noteq> Inr True \<Longrightarrow>
    up_run dir roles minter ([], Some e)
      [EvOpenDir dir (Inr fs), EvLoad fs (Inr topo), EvExists (tKeychainPath topo) a]"
| users_cut: "Validate topo (fsStat fs) = [] \<Longrightarrow> list_all describe_event us \<Longrightarrow>
    up_run dir roles minter (r, Some e)
      ([EvOpenDir dir (Inr fs), EvLoad fs (Inr topo), EvExists (tKeychainPath topo) (Inr True)] @ us)"
| users_missing: "Validate topo (fsStat fs) = [] \<Longrightarrow>
    describes (tKeychainPath topo) (all_user_entries (catalogue_of topo) roles) bad us \<Longrightarrow> bad \<noteq> [] \<Longrightarrow>
    up_run dir roles minter (map unset_check bad, None)
      ([EvOpenDir dir (Inr fs), EvLoad fs (Inr topo), EvExists (tKeychainPath topo) (Inr True)] @ us)"
| machine_stop: "Validate topo (fsStat fs) = [] \<Longrightarrow>
    describes (tKeychainPath topo) (all_user_entries (catalogue_of topo) roles) [] us \<Longrightarrow>
    ensures dir topo (c, e) ms \<Longrightarrow>
    q = ([], Some e') \<or> (q = ([c], None) \<and> e \<noteq> None) \<Longrightarrow>
    up_run dir roles minter q
      ([EvOpenDir dir (Inr fs), EvLoad fs (Inr topo), EvExists (tKeychainPath topo) (Inr True)] @ us @ ms)"
| networks_stop: "Validate topo (fsStat fs) = [] \<Longrightarrow>
    describes (tKeychainPath topo) (all_user_entries (catalogue_of topo) roles) [] us \<Longrightarrow>
    ensures dir topo (c, None) ms \<Longrightarrow> list_all network_event ns \<Longrightarrow>
    (e = None \<longrightarrow> r \<noteq> [] \<and> cStatus (last r) = Fail) \<Longrightarrow>
    up_run dir roles minter (r, e)
      ([EvOpenDir dir (Inr fs), EvLoad fs (Inr topo), EvExists (tKeychainPath topo) (Inr True)] @ us @ ms @ ns)"
| zones: "Validate topo (fsStat fs) = [] \<Longrightarrow>
    describes (tKeychainPath topo) (all_user_entries (catalogue_of topo) roles) [] us \<Longrightarrow>
    ensures dir topo (c, None) ms \<Longrightarrow> networks topo roles cs ns \<Longrightarrow>
    zones_phase dir topo minter roles (c # cs) q zs \<Longrightarrow>
    up_run dir roles minter q
      ([EvOpenDir dir (Inr fs), EvLoad fs (Inr topo), EvExists (tKeychainPath topo) (Inr True)] @ us @ ms @ ns @ zs)"

lemma emits_bind_require [emits_rules]:
  assumes "\<And>e a. a \<noteq> Inr True \<Longrightarrow> emits (\<lambda>b fs. P b (EvExists path a # fs)) (f (Some e))"
    and "emits (\<lambda>b fs. P b (EvExists path (Inr True) # fs)) (f None)"
  shows "emits P (State_Monad.bind (requireKeychain (log_keychain kc) path) f)"
proof (rule emits_bind)
  show "emits (\<lambda>q es. \<exists>a. es = [EvExists path a] \<and> (q = None \<longleftrightarrow> a = Inr True)) (requireKeychain (log_keychain kc) path)"
    unfolding requireKeychain_def
    by (simp, intro emits_rules emits_ret) (auto split: sum.splits)
qed (use assms in \<open>auto; metis not_None_eq\<close>)

lemma emits_bind_ensureMachine [emits_rules]:
  "(\<And>q es. ensures dir topo q es \<Longrightarrow> emits (\<lambda>b fs. P b (es @ fs)) (f q)) \<Longrightarrow>
    emits P (State_Monad.bind (ensureMachine (log_lifecycle l) dir topo) f)"
  by (rule emits_bind [OF emits_ensureMachine])

lemma emits_proceed_users [emits_rules]:
  assumes "\<And>r e es. list_all describe_event es \<Longrightarrow> P (r, Some e) es"
    and "\<And>bad es. describes path (all_user_entries cat roles) bad es \<Longrightarrow>
      emits (\<lambda>b fs. P b (es @ fs)) (k (m + length bad, r0 @ map unset_check bad))"
  shows "emits P (proceed (user_role_loop (untap ctx) (log_lifecycle l) path cat roles m r0) k)"
  by (rule emits_proceed [OF emits_user_role_loop]) (use assms in \<open>auto simp: users_phase_def\<close>)

lemma emits_proceed_networks [emits_rules]:
  assumes "\<And>r e es. list_all network_event es \<Longrightarrow> (e = None \<longrightarrow> r \<noteq> [] \<and> cStatus (last r) = Fail) \<Longrightarrow> P (r, e) es"
    and "\<And>cs es. networks topo roles cs es \<Longrightarrow> emits (\<lambda>b fs. P b (es @ fs)) (k (r0 @ cs))"
  shows "emits P (proceed (network_loop (untap ctx) (log_lifecycle l) topo roles r0) k)"
  by (rule emits_proceed [OF emits_network_loop]) (use assms in \<open>auto simp: networks_phase_def\<close>)

lemmas up_returns = not_loaded no_keychain users_cut users_missing networks_stop
  machine_stop [OF _ _ _ disjI1 [OF refl]] machine_stop [OF _ _ _ disjI2 [OF conjI [OF refl]]]

lemma emits_Up:
  assumes ctx: "sticky ctx"
  shows "emits (up_run dir roles (lcMinter l \<noteq> None)) (Up (untap ctx) (log_lifecycle l) dir roles)"
proof -
  define m where "m = (lcMinter l \<noteq> None)"
  have "emits (up_run dir roles m) (Up (untap ctx) (log_lifecycle l) dir roles)"
    unfolding Up_def lc_sels
    by (intro emits_rules emits_ret)
      (auto intro: up_returns [simplified] emits_conseq [OF emits_zones_loop [OF ctx refl m_def] zones [simplified]])
  then show ?thesis by (simp add: m_def)
qed

end
