(* ===== verification/TraceLogic.thy ===== *)
theory TraceLogic
  imports Prelude
begin

text \<open>
  A program logic over logs. \<open>traces P pre Q m\<close>: started when the log holds \<open>pre\<close>, the
  operation \<open>m\<close> appends only events that \<open>P\<close> allows after what the log holds at that
  moment, and its answer and the log it leaves satisfy \<open>Q\<close>. The log is the ghost state
  of the invariants that the loops of the use cases keep.
\<close>

fun along :: "('e list \<Rightarrow> 'e \<Rightarrow> bool) \<Rightarrow> 'e list \<Rightarrow> 'e list \<Rightarrow> bool" where
  "along P pre [] \<longleftrightarrow> True"
| "along P pre (e # es) \<longleftrightarrow> P pre e \<and> along P (pre @ [e]) es"

lemma along_append [simp]: "along P pre (xs @ ys) \<longleftrightarrow> along P pre xs \<and> along P (pre @ xs) ys"
  by (induction xs arbitrary: pre) auto

lemma along_all: "list_all A es \<Longrightarrow> (\<And>pre e. A e \<Longrightarrow> P pre e) \<Longrightarrow> along P pre es"
  by (induction es arbitrary: pre) auto

lemma along_split: "along P [] es \<Longrightarrow> es = xs @ e # ys \<Longrightarrow> P xs e"
  by simp

definition traces :: "('e list \<Rightarrow> 'e \<Rightarrow> bool) \<Rightarrow> 'e list \<Rightarrow> ('a \<Rightarrow> 'e list \<Rightarrow> bool) \<Rightarrow>
    ('w \<times> 'e list, 'a) io \<Rightarrow> bool" where
  "traces P pre Q m \<longleftrightarrow> emits (\<lambda>a es. along P pre es \<and> Q a (pre @ es)) m"

named_theorems trace_rules \<open>rules of the program logic over logs\<close>

lemma traces_emits: "traces P [] Q m \<Longrightarrow> emits (\<lambda>a es. along P [] es \<and> Q a es) m"
  by (simp add: traces_def)

lemma traces_conseq: "traces P pre R m \<Longrightarrow> (\<And>a tr. R a tr \<Longrightarrow> Q a tr) \<Longrightarrow> traces P pre Q m"
  unfolding traces_def by (erule emits_conseq) simp

lemma traces_ret [trace_rules]: "Q x pre \<Longrightarrow> traces P pre Q (ret x)"
  by (simp add: traces_def emits_ret)

lemma traces_bind:
  assumes "traces P pre R m" and "\<And>a tr. R a tr \<Longrightarrow> traces P tr Q (f a)"
  shows "traces P pre Q (State_Monad.bind m f)"
  unfolding traces_def
proof (rule emits_bind [OF assms(1) [unfolded traces_def]], elim conjE)
  fix a es
  assume es: "along P pre es" "R a (pre @ es)"
  show "emits (\<lambda>b fs. along P pre (es @ fs) \<and> Q b (pre @ es @ fs)) (f a)"
    using assms(2) [OF es(2)] unfolding traces_def by (rule emits_conseq) (use es in simp)
qed

lemma traces_tap: "(\<And>a. P pre (f a)) \<Longrightarrow> (\<And>a. Q a (pre @ [f a])) \<Longrightarrow> traces P pre Q (tap f m)"
  unfolding traces_def by (rule emits_tap) simp

lemma traces_untap: "(\<And>a. Q a pre) \<Longrightarrow> traces P pre Q (untap m)"
  unfolding traces_def by (rule emits_untap) simp

lemma traces_bind_tap [trace_rules]:
  "(\<And>a. P pre (f a)) \<Longrightarrow> (\<And>a. traces P (pre @ [f a]) Q (g a)) \<Longrightarrow>
    traces P pre Q (State_Monad.bind (tap f m) g)"
  by (rule traces_bind [where R = "\<lambda>a tr. tr = pre @ [f a]"]) (auto intro: traces_tap)

lemma traces_bind_untap [trace_rules]:
  "(\<And>a. traces P pre Q (g a)) \<Longrightarrow> traces P pre Q (State_Monad.bind (untap m) g)"
  by (rule traces_bind [where R = "\<lambda>a tr. tr = pre"]) (auto intro: traces_untap)

lemma traces_if [trace_rules]:
  "(b \<Longrightarrow> traces P pre Q m) \<Longrightarrow> (\<not> b \<Longrightarrow> traces P pre Q n) \<Longrightarrow> traces P pre Q (if b then m else n)"
  by simp

lemma traces_case_sum [trace_rules]:
  "(\<And>x. s = Inl x \<Longrightarrow> traces P pre Q (f x)) \<Longrightarrow> (\<And>y. s = Inr y \<Longrightarrow> traces P pre Q (g y)) \<Longrightarrow>
    traces P pre Q (case s of Inl x \<Rightarrow> f x | Inr y \<Rightarrow> g y)"
  by (cases s) auto

lemma traces_case_option [trace_rules]:
  "(s = None \<Longrightarrow> traces P pre Q m) \<Longrightarrow> (\<And>y. s = Some y \<Longrightarrow> traces P pre Q (g y)) \<Longrightarrow>
    traces P pre Q (case s of None \<Rightarrow> m | Some y \<Rightarrow> g y)"
  by (cases s) auto

lemma traces_case_prod [trace_rules]:
  "(\<And>x y. p = (x, y) \<Longrightarrow> traces P pre Q (f x y)) \<Longrightarrow> traces P pre Q (case p of (x, y) \<Rightarrow> f x y)"
  by (cases p) auto

lemma traces_Let [trace_rules]: "traces P pre Q (f v) \<Longrightarrow> traces P pre Q (Let v f)"
  by simp

lemma traces_proceed:
  assumes "traces P pre R m" and "\<And>r tr. R (Return r) tr \<Longrightarrow> Q r tr"
    and "\<And>x tr. R (Next x) tr \<Longrightarrow> traces P tr Q (k x)"
  shows "traces P pre Q (proceed m k)"
  unfolding proceed_def
  by (rule traces_bind [OF assms(1)]) (auto intro: traces_ret assms(2,3) split: flow.splits)

lemma traces_chain:
  assumes "traces P pre R m" and "\<And>r tr. R (Return r) tr \<Longrightarrow> Q (Return r) tr"
    and "\<And>x tr. R (Next x) tr \<Longrightarrow> traces P tr Q (k x)"
  shows "traces P pre Q (chain m k)"
  unfolding chain_def
  by (rule traces_bind [OF assms(1)]) (auto intro: traces_ret assms(2,3) split: flow.splits)

lemma traces_attempt_tap [trace_rules]:
  "(\<And>a. P pre (f a)) \<Longrightarrow> (\<And>e. Q (Inl (wrap e)) (pre @ [f (Inl e)])) \<Longrightarrow>
    (\<And>x. traces P (pre @ [f (Inr x)]) Q (g x)) \<Longrightarrow> traces P pre Q (attempt wrap (tap f m) g)"
  unfolding attempt_def by (rule traces_bind_tap) (auto intro: traces_ret split: sum.splits)

lemma traces_ensure_tap [trace_rules]:
  "(\<And>a. P pre (f a)) \<Longrightarrow> (\<And>e. Q (Inl (wrap e)) (pre @ [f (Some e)])) \<Longrightarrow>
    traces P (pre @ [f None]) Q k \<Longrightarrow> traces P pre Q (ensure wrap (tap f m) k)"
  unfolding ensure_def by (rule traces_bind_tap) (auto intro: traces_ret split: option.splits)

lemma traces_ensure_untap [trace_rules]:
  "(\<And>e. Q (Inl (wrap e)) pre) \<Longrightarrow> traces P pre Q k \<Longrightarrow> traces P pre Q (ensure wrap (untap m) k)"
  unfolding ensure_def by (rule traces_bind_untap) (auto intro: traces_ret split: option.splits)

end
