(* ===== verification/UpSafety.thy ===== *)
theory UpSafety
  imports UpTraces TraceLogic
begin

text \<open>
  What follows from the shape of a run of \<open>up\<close>: the properties an operator relies on.
\<close>

section \<open>Kinds of events in each phase\<close>

fun quiet_event :: "event \<Rightarrow> bool" where
  "quiet_event (EvOpenDir _ _) = True"
| "quiet_event (EvLoad _ _) = True"
| "quiet_event (EvExists _ _) = True"
| "quiet_event (EvDescribe _ _ _) = True"
| "quiet_event _ = False"

lemma scaffold_quiet: "list_all scaffold_event es \<Longrightarrow> list_all quiet_event es"
proof (induction es)
  case (Cons e es)
  then show ?case by (cases e) simp_all
qed simp

lemma describe_quiet: "list_all describe_event es \<Longrightarrow> list_all quiet_event es"
proof (induction es)
  case (Cons e es)
  then show ?case by (cases e) simp_all
qed simp

text \<open>
  Every user secret of the selected zones is known to be set before Podman, the
  machine's store or the minter hears anything.
\<close>

definition secrets_before_podman :: "role list \<Rightarrow> event list \<Rightarrow> bool" where
  "secrets_before_podman roles es \<longleftrightarrow>
     (\<exists>pre post. es = pre @ post \<and> list_all quiet_event pre \<and>
        (post = [] \<or>
         (\<exists>fs topo. EvLoad fs (Inr topo) \<in> set pre \<and> Validate topo (fsStat fs) = [] \<and>
            (\<forall>spec \<in> set (all_user_entries (catalogue_of topo) roles).
               \<exists>item. EvDescribe (tKeychainPath topo) (sName spec) (Inr item) \<in> set pre))))"

lemma secrets_before_quiet: "list_all quiet_event es \<Longrightarrow> secrets_before_podman roles es"
  unfolding secrets_before_podman_def by (intro exI [of _ es] exI [of _ "[]"]) simp

lemma secrets_before_split:
  assumes "Validate topo (fsStat fs) = []"
    and d: "describes (tKeychainPath topo) (all_user_entries (catalogue_of topo) roles) [] us"
  shows "secrets_before_podman roles
    ([EvOpenDir dir (Inr fs), EvLoad fs (Inr topo), EvExists (tKeychainPath topo) (Inr True)] @ us @ post)"
proof -
  let ?pre = "[EvOpenDir dir (Inr fs), EvLoad fs (Inr topo), EvExists (tKeychainPath topo) (Inr True)] @ us"
  have "list_all quiet_event ?pre" using describe_quiet [OF describes_events [OF d]] by simp
  moreover have "\<forall>spec \<in> set (all_user_entries (catalogue_of topo) roles).
      \<exists>item. EvDescribe (tKeychainPath topo) (sName spec) (Inr item) \<in> set ?pre"
    using describes_no_bad [OF d refl] by auto
  moreover have "EvLoad fs (Inr topo) \<in> set ?pre" by simp
  ultimately show ?thesis
    unfolding secrets_before_podman_def using assms(1)
    by (intro exI [of _ ?pre] exI [of _ post]) (auto simp del: set_append)
qed

lemma up_run_secrets: "up_run dir roles m q es \<Longrightarrow> secrets_before_podman roles es"
proof (induction rule: up_run.induct)
  case (not_loaded es e)
  then show ?case by (intro secrets_before_quiet scaffold_quiet)
next
  case (users_cut topo fs us r e)
  then show ?case by (intro secrets_before_quiet) (simp add: describe_quiet)
next
  case (users_missing topo fs bad us)
  then show ?case by (intro secrets_before_quiet) (simp add: describe_quiet describes_events)
next
  case (no_keychain topo fs a e)
  then show ?case by (intro secrets_before_quiet) simp
qed (rule secrets_before_split; assumption)+

section \<open>Plays and failures\<close>

fun failed_event :: "event \<Rightarrow> bool" where
  "failed_event (EvPlay _ _ _ a) = (a \<noteq> None)"
| "failed_event (EvBuild _ _ a) = (a \<noteq> None)"
| "failed_event (EvStore _ _ a) = (a \<noteq> None)"
| "failed_event (EvReady a) = (a \<noteq> None)"
| "failed_event _ = False"

text \<open>
  What must have happened before a pod is played: nothing failed, the networks of
  the selected zones are there, every secret of its zone was stored on the machine,
  and its own image was built by the call just before.
\<close>

definition network_ready :: "role \<Rightarrow> event list \<Rightarrow> bool" where
  "network_ready role pre \<longleftrightarrow>
     EvNetworkExists (NetworkName role) (Inr True) \<in> set pre \<or>
     (\<exists>i. EvCreateNetwork (NetworkName role) i None \<in> set pre)"

definition secrets_stored :: "catalogue \<Rightarrow> role \<Rightarrow> event list \<Rightarrow> bool" where
  "secrets_stored cat role pre \<longleftrightarrow> (\<forall>spec \<in> set (ForZone cat role). \<exists>v. EvStore (sName spec) v None \<in> set pre)"

definition play_allowed :: "string \<Rightarrow> role list \<Rightarrow> topology \<Rightarrow> event list \<Rightarrow> event \<Rightarrow> bool" where
  "play_allowed dir roles topo pre e \<longleftrightarrow>
     (\<exists>role \<in> set roles. \<exists>w \<in> set (zWorkloads (zone_or_zero topo role)). \<exists>a.
        e = play_event dir (zone_or_zero topo role) w a \<and>
        pre \<noteq> [] \<and> last pre = build_event dir w None \<and>
        secrets_stored (catalogue_of topo) role pre \<and> (\<forall>r \<in> set roles. network_ready r pre))"

fun is_play :: "event \<Rightarrow> bool" where
  "is_play (EvPlay _ _ _ _) = True"
| "is_play _ = False"

definition play_safe :: "string \<Rightarrow> role list \<Rightarrow> topology \<Rightarrow> event list \<Rightarrow> event \<Rightarrow> bool" where
  "play_safe dir roles topo pre e \<longleftrightarrow>
     list_all (\<lambda>e. \<not> failed_event e) pre \<and> (is_play e \<longrightarrow> play_allowed dir roles topo pre e)"

lemma resolve_event_kind: "resolve_event path specs e \<Longrightarrow> \<not> failed_event e \<and> \<not> is_play e"
  by (cases e) auto

lemma play_safeI:
  "list_all (\<lambda>e. \<not> failed_event e) pre \<Longrightarrow> (is_play e \<Longrightarrow> play_allowed dir roles topo pre e) \<Longrightarrow>
    play_safe dir roles topo pre e"
  by (simp add: play_safe_def)

abbreviation clean :: "event list \<Rightarrow> bool" where
  "clean \<equiv> list_all (\<lambda>e. \<not> failed_event e)"

lemma along_plain:
  "list_all (\<lambda>e. \<not> failed_event e \<and> \<not> is_play e) es \<Longrightarrow> clean pre \<Longrightarrow>
    along (play_safe dir roles topo) pre es \<and> clean es"
  by (induction es arbitrary: pre) (auto simp: play_safe_def)

lemma along_last: "clean pre \<Longrightarrow> \<not> is_play e \<Longrightarrow> along (play_safe dir roles topo) pre [e]"
  by (simp add: play_safe_def)

lemma resolve_plain: "list_all (resolve_event path specs) es \<Longrightarrow> list_all (\<lambda>e. \<not> failed_event e \<and> \<not> is_play e) es"
  by (auto simp: list_all_iff dest: resolve_event_kind)

lemma store_plain: "list_all (\<lambda>e. \<not> failed_event e \<and> \<not> is_play e) (store_events rs)"
  by (auto simp: store_events_def list_all_iff)

lemma resolves_names: "resolves path specs rs cs es \<Longrightarrow> cs = [] \<Longrightarrow> map rvName rs = map sName specs"
  by (induction rule: resolves.induct) auto

lemma network_ready_mono [simp]: "network_ready r pre \<Longrightarrow> network_ready r (pre @ es)"
  by (auto simp: network_ready_def)

lemma secrets_stored_mono [simp]:
  "secrets_stored cat role pre \<Longrightarrow> secrets_stored cat role (pre @ es)"
  "secrets_stored cat role es \<Longrightarrow> secrets_stored cat role (pre @ es)"
  "secrets_stored cat role es \<Longrightarrow> secrets_stored cat role (e # es)"
  unfolding secrets_stored_def by (auto; blast)+

lemma stored_resolved:
  assumes "resolve_contract path (ForZone cat role) (Inr (rs, [])) es"
  shows "secrets_stored cat role (pre @ store_events rs)"
proof -
  obtain fs where "resolves path (ForZone cat role) rs [] fs"
    using assms by (auto simp: resolve_contract_def)
  then have n: "map rvName rs = map sName (ForZone cat role)" by (rule resolves_names) simp
  have "\<exists>v. EvStore (sName spec) v None \<in> set (store_events rs)" if "spec \<in> set (ForZone cat role)" for spec
  proof -
    have "sName spec \<in> set (map rvName rs)" using that n by simp
    then show ?thesis by (auto simp: store_events_def)
  qed
  then show ?thesis by (auto simp: secrets_stored_def)
qed

lemma resolve_contract_plain:
  "resolve_contract path specs q es \<Longrightarrow> list_all (\<lambda>e. \<not> failed_event e \<and> \<not> is_play e) es"
  by (auto simp: resolve_contract_def intro: resolve_plain)

lemma build_play_kind [simp]:
  "failed_event (build_event dir w a) \<longleftrightarrow> a \<noteq> None" "\<not> is_play (build_event dir w a)"
  "failed_event (play_event dir z w a) \<longleftrightarrow> a \<noteq> None" "is_play (play_event dir z w a)"
  by (simp_all add: build_event_def play_event_def)

text \<open>\<open>R\<close> are the selected zones of the whole run.\<close>

lemma play_allowed_now:
  "role \<in> set R \<Longrightarrow> w \<in> set (zWorkloads (zone_or_zero topo role)) \<Longrightarrow>
    secrets_stored (catalogue_of topo) role pre \<Longrightarrow> \<forall>r \<in> set R. network_ready r pre \<Longrightarrow>
    play_allowed dir R topo (pre @ [build_event dir w None]) (play_event dir (zone_or_zero topo role) w a)"
  unfolding play_allowed_def by (intro bexI [of _ role] bexI [of _ w] exI [of _ a]) auto

lemma along_plays:
  assumes "role \<in> set R"
  shows "plays dir role (zone_or_zero topo role) ws failed cs es \<Longrightarrow>
    set ws \<subseteq> set (zWorkloads (zone_or_zero topo role)) \<Longrightarrow> clean pre \<Longrightarrow>
    secrets_stored (catalogue_of topo) role pre \<Longrightarrow> \<forall>r \<in> set R. network_ready r pre \<Longrightarrow>
    along (play_safe dir R topo) pre es \<and> (failed = [] \<longrightarrow> clean es)"
proof (induction arbitrary: pre rule: plays.induct)
  case (plays_ok ws failed cs es w)
  let ?two = "[build_event dir w None, play_event dir (zone_or_zero topo role) w None]"
  have "along (play_safe dir R topo) (pre @ ?two) es \<and> (failed = [] \<longrightarrow> clean es)"
    by (rule plays_ok.IH) (use plays_ok.prems in auto)
  then show ?case
    using plays_ok.prems play_allowed_now [OF assms, where w = w and pre = pre] by (auto intro!: play_safeI)
next
  case (play_failed w ws e)
  then show ?case using play_allowed_now [OF assms, where w = w and pre = pre] by (auto intro!: play_safeI)
qed (auto simp: play_safe_def)

lemma along_plays_cut:
  assumes "role \<in> set R"
  shows "plays_cut dir (zone_or_zero topo role) ws es \<Longrightarrow>
    set ws \<subseteq> set (zWorkloads (zone_or_zero topo role)) \<Longrightarrow> clean pre \<Longrightarrow>
    secrets_stored (catalogue_of topo) role pre \<Longrightarrow> \<forall>r \<in> set R. network_ready r pre \<Longrightarrow>
    along (play_safe dir R topo) pre es"
proof (induction arbitrary: pre rule: plays_cut.induct)
  case (cut_ok ws es w)
  let ?two = "[build_event dir w None, play_event dir (zone_or_zero topo role) w None]"
  have "along (play_safe dir R topo) (pre @ ?two) es"
    by (rule cut_ok.IH) (use cut_ok.prems in auto)
  then show ?case
    using cut_ok.prems play_allowed_now [OF assms, where w = w and pre = pre] by (auto intro!: play_safeI)
next
  case (cut_play w ws e)
  then show ?case using play_allowed_now [OF assms, where w = w and pre = pre] by (auto intro!: play_safeI)
qed (auto simp: play_safe_def)

lemma along_inject_failed:
  assumes "inject_contract rs (Some e) fs" and "clean pre"
  shows "along (play_safe dir R topo) pre fs"
proof -
  obtain before s after where "rs = before @ s # after"
    and fs: "fs = store_events before \<or>
      (\<exists>ea. fs = store_events before @ [EvStore (rvName s) (rvValue s) (Some ea)] \<and> e = inject_error (rvName s) ea)"
    using assms(1) unfolding inject_contract_def option.case by (elim exE conjE)
  have b: "along (play_safe dir R topo) pre (store_events before) \<and> clean (store_events before)"
    by (rule along_plain [OF store_plain assms(2)])
  show ?thesis using fs
  proof
    assume "\<exists>ea. fs = store_events before @ [EvStore (rvName s) (rvValue s) (Some ea)] \<and> e = inject_error (rvName s) ea"
    then obtain ea where "fs = store_events before @ [EvStore (rvName s) (rvValue s) (Some ea)]" by (elim exE conjE)
    then show ?thesis using b assms(2) by (simp add: play_safe_def)
  qed (use b in simp)
qed

lemma along_ready:
  "readies m role failed ds gs \<Longrightarrow> clean pre \<Longrightarrow>
    along (play_safe dir R topo) pre gs \<and> (failed = [] \<longrightarrow> clean gs)"
  by (induction rule: readies.induct) (auto simp: play_safe_def)

lemma along_zone_start:
  assumes res: "resolve_contract (tKeychainPath topo) (ForZone (catalogue_of topo) role) (Inr (rs, [])) es"
    and pre: "clean pre" "\<forall>r \<in> set R. network_ready r pre"
  shows "along (play_safe dir R topo) pre (es @ store_events rs)" "clean (pre @ es @ store_events rs)"
    "secrets_stored (catalogue_of topo) role (pre @ es @ store_events rs)"
    "\<forall>r \<in> set R. network_ready r (pre @ es @ store_events rs)"
proof -
  have es: "along (play_safe dir R topo) pre es \<and> clean es"
    by (rule along_plain [OF resolve_contract_plain [OF res] pre(1)])
  have st: "along (play_safe dir R topo) (pre @ es) (store_events rs) \<and> clean (store_events rs)"
    by (rule along_plain [OF store_plain]) (use es pre in simp)
  show "along (play_safe dir R topo) pre (es @ store_events rs)" "clean (pre @ es @ store_events rs)"
    using es st pre by simp_all
  show "secrets_stored (catalogue_of topo) role (pre @ es @ store_events rs)"
    using stored_resolved [OF res, of "pre @ es"] by simp
  show "\<forall>r \<in> set R. network_ready r (pre @ es @ store_events rs)" using pre(2) by simp
qed

lemma along_zone_run:
  assumes role: "role \<in> set R" and run: "zone_run dir topo m role failed cs es"
    and pre: "clean pre" "\<forall>r \<in> set R. network_ready r pre"
  shows "along (play_safe dir R topo) pre es \<and> (failed = [] \<longrightarrow> clean es)"
  using run
proof cases
  case (zone_findings rs)
  then show ?thesis using along_plain [OF resolve_contract_plain pre(1)] by auto
next
  case (zone_not_injected rs es' e fs)
  have "along (play_safe dir R topo) pre es' \<and> clean es'"
    using along_plain [OF resolve_contract_plain pre(1)] zone_not_injected by blast
  moreover from this have "along (play_safe dir R topo) (pre @ es') fs"
    by (intro along_inject_failed [OF zone_not_injected(5)]) (use pre in simp)
  ultimately show ?thesis using zone_not_injected by auto
next
  case (zone_not_played rs es' cs' fs)
  note st = along_zone_start [OF zone_not_played(3) pre]
  have "along (play_safe dir R topo) (pre @ es' @ store_events rs) fs"
    using along_plays [OF role zone_not_played(4) subset_refl st(2-4)] by blast
  then show ?thesis using st(1) zone_not_played by auto
next
  case (zone_played rs es' cs' fs ds gs)
  note st = along_zone_start [OF zone_played(3) pre]
  have fs: "along (play_safe dir R topo) (pre @ es' @ store_events rs) fs \<and> clean fs"
    using along_plays [OF role zone_played(4) subset_refl st(2-4)] by blast
  then have "along (play_safe dir R topo) ((pre @ es' @ store_events rs) @ fs) gs \<and> (failed = [] \<longrightarrow> clean gs)"
    by (intro along_ready [OF zone_played(5)]) (use st(2) in simp)
  then show ?thesis using st(1,2) fs zone_played by auto
qed

lemma along_zone_cut:
  assumes role: "role \<in> set R" and run: "zone_cut dir topo m role es"
    and pre: "clean pre" "\<forall>r \<in> set R. network_ready r pre"
  shows "along (play_safe dir R topo) pre es"
  using run
proof cases
  case cut_resolving
  then show ?thesis using along_plain [OF resolve_plain pre(1)] by auto
next
  case (cut_injecting rs es' e fs)
  have "along (play_safe dir R topo) pre es' \<and> clean es'"
    using along_plain [OF resolve_contract_plain pre(1)] cut_injecting by blast
  moreover from this have "along (play_safe dir R topo) (pre @ es') fs"
    by (intro along_inject_failed [OF cut_injecting(3)]) (use pre in simp)
  ultimately show ?thesis using cut_injecting by auto
next
  case (cut_playing rs es' fs)
  note st = along_zone_start [OF cut_playing(2) pre]
  have "along (play_safe dir R topo) (pre @ es' @ store_events rs) fs"
    using along_plays_cut [OF role cut_playing(3) subset_refl st(2-4)] by blast
  then show ?thesis using st(1) cut_playing by auto
next
  case (cut_waiting rs es' cs fs e)
  note st = along_zone_start [OF cut_waiting(2) pre]
  have "along (play_safe dir R topo) (pre @ es' @ store_events rs) fs \<and> clean fs"
    using along_plays [OF role cut_waiting(3) subset_refl st(2-4)] by blast
  then show ?thesis using st(1,2) cut_waiting by (auto simp: play_safe_def)
qed

lemma along_zones_run:
  "zones_run dir topo m roles cs es \<Longrightarrow> set roles \<subseteq> set R \<Longrightarrow> clean pre \<Longrightarrow>
    \<forall>r \<in> set R. network_ready r pre \<Longrightarrow> along (play_safe dir R topo) pre es"
proof (induction arbitrary: pre rule: zones_run.induct)
  case (zones_ok role cs es roles ds fs)
  have "along (play_safe dir R topo) pre es \<and> clean es"
    using along_zone_run [OF _ zones_ok.hyps(1)] zones_ok.prems by auto
  moreover from this have "along (play_safe dir R topo) (pre @ es) fs"
    by (intro zones_ok.IH) (use zones_ok.prems in auto)
  ultimately show ?case by simp
next
  case (zones_failed role failed cs es roles)
  then show ?case using along_zone_run [of role] by auto
qed simp

lemma along_zones_cut:
  "zones_cut dir topo m roles es \<Longrightarrow> set roles \<subseteq> set R \<Longrightarrow> clean pre \<Longrightarrow>
    \<forall>r \<in> set R. network_ready r pre \<Longrightarrow> along (play_safe dir R topo) pre es"
proof (induction arbitrary: pre rule: zones_cut.induct)
  case (zones_cut_after role cs es roles fs)
  have "along (play_safe dir R topo) pre es \<and> clean es"
    using along_zone_run [OF _ zones_cut_after.hyps(1)] zones_cut_after.prems by auto
  moreover from this have "along (play_safe dir R topo) (pre @ es) fs"
    by (intro zones_cut_after.IH) (use zones_cut_after.prems in auto)
  ultimately show ?case by simp
next
  case (zones_cut_in role es roles)
  then show ?case using along_zone_cut [of role] by auto
next
  case (zones_cut_failed role failed cs es roles)
  then show ?case using along_zone_run [of role] by auto
qed simp

lemma networks_ready: "networks topo roles cs ns \<Longrightarrow> \<forall>r \<in> set roles. network_ready r (pre @ ns)"
proof (induction arbitrary: pre rule: networks.induct)
  case (network_present roles cs es role)
  from network_present.IH [of "pre @ [EvNetworkExists (NetworkName role) (Inr True)]"]
  show ?case by (auto simp: network_ready_def)
next
  case (network_created roles cs es role)
  from network_created.IH [of "pre @ [EvNetworkExists (NetworkName role) (Inr False),
      EvCreateNetwork (NetworkName role) (zInternal (zone_or_zero topo role)) None]"]
  show ?case by (auto simp: network_ready_def)
qed simp

lemma phase_plain:
  "list_all describe_event us \<Longrightarrow> list_all (\<lambda>e. \<not> failed_event e \<and> \<not> is_play e) us"
  "list_all network_event us \<Longrightarrow> list_all (\<lambda>e. \<not> failed_event e \<and> \<not> is_play e) us"
  "list_all scaffold_event us \<Longrightarrow> list_all (\<lambda>e. \<not> failed_event e \<and> \<not> is_play e) us"
proof -
  have "describe_event e \<or> network_event e \<or> scaffold_event e \<Longrightarrow> \<not> failed_event e \<and> \<not> is_play e" for e
    by (cases e) auto
  then show "list_all describe_event us \<Longrightarrow> list_all (\<lambda>e. \<not> failed_event e \<and> \<not> is_play e) us"
    "list_all network_event us \<Longrightarrow> list_all (\<lambda>e. \<not> failed_event e \<and> \<not> is_play e) us"
    "list_all scaffold_event us \<Longrightarrow> list_all (\<lambda>e. \<not> failed_event e \<and> \<not> is_play e) us"
    by (auto simp: list_all_iff)
qed

lemma ensures_plain: "ensures dir topo q ms \<Longrightarrow> list_all (\<lambda>e. \<not> failed_event e \<and> \<not> is_play e) ms"
  by (induction rule: ensures.induct) auto

lemma networks_events: "networks topo roles cs ns \<Longrightarrow> list_all network_event ns"
  by (induction rule: networks.induct) auto

text \<open>The topology of the run is the one it loaded; without a valid one nothing is played.\<close>

definition up_safe :: "string \<Rightarrow> role list \<Rightarrow> event list \<Rightarrow> bool" where
  "up_safe dir roles es \<longleftrightarrow>
     list_all quiet_event es \<or>
     (\<exists>fs topo. EvLoad fs (Inr topo) \<in> set es \<and> Validate topo (fsStat fs) = [] \<and>
        along (play_safe dir roles topo) [] es)"

lemma up_safeI:
  assumes "Validate topo (fsStat fs) = []"
    and "list_all (\<lambda>e. \<not> failed_event e \<and> \<not> is_play e) us"
    and "\<And>pre. clean pre \<Longrightarrow> along (play_safe dir roles topo) pre post"
  shows "up_safe dir roles
    ([EvOpenDir dir (Inr fs), EvLoad fs (Inr topo), EvExists (tKeychainPath topo) (Inr True)] @ us @ post)"
proof -
  let ?start = "[EvOpenDir dir (Inr fs), EvLoad fs (Inr topo), EvExists (tKeychainPath topo) (Inr True)] @ us"
  have "along (play_safe dir roles topo) [] ?start \<and> clean ?start"
    by (rule along_plain) (use assms(2) in simp_all)
  moreover from this have "along (play_safe dir roles topo) ?start post" by (intro assms(3)) simp
  ultimately have "along (play_safe dir roles topo) [] (?start @ post)" by (simp only: along_append append_Nil)
  then show ?thesis unfolding up_safe_def using assms(1)
    by (intro disjI2 exI [of _ fs] exI [of _ topo]) simp
qed

lemma up_run_safe: "up_run dir roles m q es \<Longrightarrow> up_safe dir roles es"
proof (induction rule: up_run.induct)
  case (not_loaded es e)
  then show ?case by (simp add: up_safe_def scaffold_quiet)
next
  case (no_keychain topo fs a e)
  then show ?case by (simp add: up_safe_def)
next
  case (users_cut topo fs us r e)
  then show ?case by (simp add: up_safe_def describe_quiet)
next
  case (users_missing topo fs bad us)
  then show ?case by (simp add: up_safe_def describe_quiet describes_events)
next
  case (machine_stop topo fs us c e ms q e')
  have "up_safe dir roles ([EvOpenDir dir (Inr fs), EvLoad fs (Inr topo),
      EvExists (tKeychainPath topo) (Inr True)] @ us @ ms)"
    using machine_stop by (intro up_safeI)
      (auto simp: phase_plain describes_events along_plain ensures_plain)
  then show ?case .
next
  case (networks_stop topo fs us c ms ns e r)
  have "up_safe dir roles ([EvOpenDir dir (Inr fs), EvLoad fs (Inr topo),
      EvExists (tKeychainPath topo) (Inr True)] @ us @ ms @ ns)"
  proof (intro up_safeI)
    show "along (play_safe dir roles topo) pre (ms @ ns)" if "clean pre" for pre
      using networks_stop that along_plain [of "ms @ ns" pre] by (simp add: ensures_plain phase_plain)
  qed (use networks_stop in \<open>auto simp: phase_plain describes_events\<close>)
  then show ?case .
next
  case (zones topo fs us c ms cs ns q zs)
  have "up_safe dir roles ([EvOpenDir dir (Inr fs), EvLoad fs (Inr topo),
      EvExists (tKeychainPath topo) (Inr True)] @ us @ ms @ ns @ zs)"
  proof (intro up_safeI)
    fix pre
    assume pre: "clean pre"
    have start: "along (play_safe dir roles topo) pre (ms @ ns) \<and> clean (ms @ ns)"
      using zones(3,4) pre by (intro along_plain) (simp_all add: ensures_plain phase_plain networks_events)
    have net: "\<forall>r \<in> set roles. network_ready r (pre @ ms @ ns)"
      using networks_ready [OF zones(4), of "pre @ ms"] by simp
    have "zones_cut dir topo m roles zs \<or> (\<exists>ds. zones_run dir topo m roles ds zs)"
      using zones(5) by (auto simp: zones_phase_def split: prod.splits option.splits)
    then have "along (play_safe dir roles topo) (pre @ ms @ ns) zs"
      using along_zones_cut [OF _ subset_refl _ net] along_zones_run [OF _ subset_refl _ net] start pre by auto
    then show "along (play_safe dir roles topo) pre (ms @ ns @ zs)" using start by simp
  qed (use zones in \<open>auto simp: phase_plain describes_events\<close>)
  then show ?case .
qed

section \<open>A report without a failure\<close>

fun applies :: "event \<Rightarrow> bool" where
  "applies (EvBuild _ _ _) = True"
| "applies (EvPlay _ _ _ _) = True"
| "applies _ = False"

text \<open>What \<open>up\<close> is asked to apply: every workload of the selected zones, built and then played, in order.\<close>

definition zone_plan :: "string \<Rightarrow> topology \<Rightarrow> role \<Rightarrow> event list" where
  "zone_plan dir topo role =
     concat (map (\<lambda>w. [build_event dir w None, play_event dir (zone_or_zero topo role) w None])
       (zWorkloads (zone_or_zero topo role)))"

definition up_plan :: "string \<Rightarrow> topology \<Rightarrow> role list \<Rightarrow> event list" where
  "up_plan dir topo roles = concat (map (zone_plan dir topo) roles)"

definition machine_left_running :: "topology \<Rightarrow> event list \<Rightarrow> bool" where
  "machine_left_running topo es \<longleftrightarrow>
     (\<exists>ms m. EvListMachines (Inr ms) \<in> set es \<and> machine_listed ms = Some m \<and> mRunning m) \<or>
     EvStartMachine (tProvider topo) MachineName None \<in> set es"

definition up_complete :: "string \<Rightarrow> role list \<Rightarrow> bool \<Rightarrow> event list \<Rightarrow> bool" where
  "up_complete dir roles minter es \<longleftrightarrow>
     (\<exists>fs topo. EvLoad fs (Inr topo) \<in> set es \<and> Validate topo (fsStat fs) = [] \<and>
        machine_left_running topo es \<and> (\<forall>r \<in> set roles. network_ready r es) \<and>
        (\<forall>r \<in> set roles. secrets_stored (catalogue_of topo) r es) \<and>
        filter applies es = up_plan dir topo roles \<and>
        (minter \<and> Services \<in> set roles \<longrightarrow> EvReady None \<in> set es))"

definition no_fail :: "report \<Rightarrow> bool" where
  "no_fail r \<longleftrightarrow> (\<forall>c \<in> set r. cStatus c \<noteq> Fail)"

definition up_honest :: "string \<Rightarrow> role list \<Rightarrow> bool \<Rightarrow> reported \<Rightarrow> event list \<Rightarrow> bool" where
  "up_honest dir roles minter q es \<longleftrightarrow> (snd q = None \<and> no_fail (fst q) \<longrightarrow> up_complete dir roles minter es)"

lemma no_fail_append [simp]: "no_fail (r @ s) \<longleftrightarrow> no_fail r \<and> no_fail s"
  by (auto simp: no_fail_def)

lemma no_fail_Cons [simp]: "no_fail (c # s) \<longleftrightarrow> cStatus c \<noteq> Fail \<and> no_fail s"
  by (auto simp: no_fail_def)

lemma unset_check_fails [simp]: "cStatus (unset_check spec) = Fail" "cStatus (not_minted_check spec e) = Fail"
  by (simp_all add: unset_check_def not_minted_check_def mkCheck_def)

lemma resolves_fail: "resolves path specs rs cs es \<Longrightarrow> cs \<noteq> [] \<Longrightarrow> \<not> no_fail cs"
proof (induction rule: resolves.induct)
  case (resolves_finding spec c es specs rs cs fs)
  then show ?case by (auto elim!: entry_found.cases)
qed auto

lemma plays_fail: "plays dir role z ws failed cs es \<Longrightarrow> failed \<noteq> [] \<Longrightarrow> \<not> no_fail cs"
  by (induction rule: plays.induct) auto

lemma plays_done: "plays dir role z ws failed cs es \<Longrightarrow> failed = [] \<Longrightarrow>
    filter applies es = concat (map (\<lambda>w. [build_event dir w None, play_event dir z w None]) ws)"
  by (induction rule: plays.induct) (auto simp: build_event_def play_event_def)

lemma no_applies: "list_all (resolve_event path specs) es \<Longrightarrow> filter applies es = []"
proof (induction es)
  case (Cons e es)
  then show ?case by (cases e) auto
qed simp

lemma store_no_applies [simp]: "filter applies (store_events rs) = []"
  by (auto simp: store_events_def filter_empty_conv)

lemma zone_run_fail: "zone_run dir topo m role failed cs es \<Longrightarrow> failed \<noteq> [] \<Longrightarrow> \<not> no_fail cs"
proof (induction rule: zone_run.induct)
  case (zone_findings rs cs es)
  then show ?case by (auto simp: resolve_contract_def resolves_fail)
next
  case (zone_not_played rs es failed cs fs)
  then show ?case by (simp add: plays_fail)
next
  case (zone_played rs es cs fs failed ds gs)
  from zone_played(3,4) show ?case by (auto elim!: readies.cases)
qed simp

lemma zone_run_done:
  assumes "zone_run dir topo m role [] cs es"
  shows "filter applies es = zone_plan dir topo role \<and> secrets_stored (catalogue_of topo) role es \<and>
    (m \<and> role = Services \<longrightarrow> EvReady None \<in> set es)"
  using assms
proof cases
  case (zone_played rs es' cs' fs ds gs)
  have "filter applies es' = []"
    using zone_played(3) by (auto simp: resolve_contract_def intro: no_applies)
  moreover have "filter applies gs = []" "m \<and> role = Services \<longrightarrow> EvReady None \<in> set gs"
    using zone_played(5) by (auto elim!: readies.cases)
  moreover have "secrets_stored (catalogue_of topo) role ((es' @ store_events rs) @ fs @ gs)"
    by (intro secrets_stored_mono(1) stored_resolved [OF zone_played(3)])
  ultimately show ?thesis
    using zone_played(2) plays_done [OF zone_played(4) refl] by (simp add: zone_plan_def)
qed simp_all

lemma zones_run_done:
  "zones_run dir topo m roles cs es \<Longrightarrow> no_fail cs \<Longrightarrow>
    filter applies es = up_plan dir topo roles \<and>
    (\<forall>r \<in> set roles. secrets_stored (catalogue_of topo) r es) \<and>
    (m \<and> Services \<in> set roles \<longrightarrow> EvReady None \<in> set es)"
proof (induction rule: zones_run.induct)
  case (zones_ok role cs es roles ds fs)
  then show ?case
    using zone_run_done [OF zones_ok.hyps(1)] by (auto simp: up_plan_def)
next
  case (zones_failed role failed cs es roles)
  then show ?case using zone_run_fail by auto
qed (simp add: up_plan_def)

lemma filter_no_applies:
  "list_all describe_event us \<Longrightarrow> filter applies us = []"
  "list_all network_event us \<Longrightarrow> filter applies us = []"
proof -
  have "describe_event e \<or> network_event e \<Longrightarrow> \<not> applies e" for e by (cases e) auto
  then show "list_all describe_event us \<Longrightarrow> filter applies us = []"
    "list_all network_event us \<Longrightarrow> filter applies us = []"
    by (auto simp: list_all_iff filter_empty_conv)
qed

lemma ensures_running:
  "ensures dir topo (c, None) ms \<Longrightarrow> machine_left_running topo ms \<and> filter applies ms = []"
  by (cases rule: ensures.cases) (auto simp: machine_left_running_def)

lemma ensures_failed: "ensures dir topo (c, Some e) ms \<Longrightarrow> cStatus c = Fail"
  by (cases rule: ensures.cases) auto

lemma up_run_honest: "up_run dir roles m q es \<Longrightarrow> up_honest dir roles m q es"
proof (induction rule: up_run.induct)
  case (users_missing topo fs bad us)
  then show ?case by (cases bad) (auto simp: up_honest_def)
next
  case (machine_stop topo fs us c e ms q e')
  then show ?case using ensures_failed [of dir topo c _ ms] by (auto simp: up_honest_def)
next
  case (networks_stop topo fs us c ms ns e r)
  then show ?case using last_in_set [of r] by (auto simp: up_honest_def no_fail_def)
next
  case (zones topo fs us c ms cs ns q zs)
  show ?case
  proof (unfold up_honest_def, intro impI, elim conjE)
    assume "snd q = None" and nf: "no_fail (fst q)"
    then obtain ds where run: "zones_run dir topo m roles ds zs" and q: "fst q = (c # cs) @ ds"
      using zones(5) by (auto simp: zones_phase_def split: prod.splits)
    have ds: "no_fail ds" using nf q by simp
    note finished = zones_run_done [OF run ds] and mach = ensures_running [OF zones(3)]
    have "filter applies us = []" "filter applies ns = []"
      using filter_no_applies describes_events [OF zones(2)] networks_events [OF zones(4)] by blast+
    then show "up_complete dir roles m ([EvOpenDir dir (Inr fs), EvLoad fs (Inr topo),
        EvExists (tKeychainPath topo) (Inr True)] @ us @ ms @ ns @ zs)"
      unfolding up_complete_def
      using zones(1) finished mach networks_ready [OF zones(4), of "[]"]
      by (intro exI [of _ fs] exI [of _ topo])
        (auto simp: machine_left_running_def network_ready_def)
  qed
qed (simp_all add: up_honest_def)

end
