(* ===== verification/Observers.thy ===== *)
theory Observers
  imports UpSafety
begin

text \<open>
  Logging is an observer: an operation on logged ports answers and changes the world
  as the operation on the ports does. One lemma per operation, in the order of the
  calls.
\<close>

lemma mirrors_logged [mirror_rules]:
  "mirrors (doOpenDir (log_opener p) d) (doOpenDir p d)"
  "mirrors (tlLoad (log_loader q) f) (tlLoad q f)"
  "mirrors (kcExists (log_keychain k) x) (kcExists k x)"
  "mirrors (kcCreate (log_keychain k) x) (kcCreate k x)"
  "mirrors (kcGet (log_keychain k) x n) (kcGet k x n)"
  "mirrors (kcDescribe (log_keychain k) x n) (kcDescribe k x n)"
  "mirrors (kcPut (log_keychain k) x n v s b) (kcPut k x n v s b)"
  "mirrors (kcDelete (log_keychain k) x n) (kcDelete k x n)"
  "mirrors (tgMachineRunning (log_target t)) (tgMachineRunning t)"
  "mirrors (tgStoreSecret (log_target t) n v) (tgStoreSecret t n v)"
  "mirrors (tgSecretExists (log_target t) n) (tgSecretExists t n)"
  "mirrors (tgRemoveSecret (log_target t) n) (tgRemoveSecret t n)"
  "mirrors (tgListSecrets (log_target t)) (tgListSecrets t)"
  "mirrors (tgRemoveVolume (log_target t) n) (tgRemoveVolume t n)"
  "mirrors (kmReady (log_minter m)) (kmReady m)"
  "mirrors (kmMint (log_minter m) n) (kmMint m n)"
  "mirrors (log_random rd j) (rd j)"
  by (simp_all add: mirror_rules)

lemma mirrors_logged_podman [mirror_rules]:
  "mirrors (rtListMachines (log_runtime r)) (rtListMachines r)"
  "mirrors (rtInitMachine (log_runtime r) i) (rtInitMachine r i)"
  "mirrors (rtStartMachine (log_runtime r) p n) (rtStartMachine r p n)"
  "mirrors (rtStopMachine (log_runtime r) p n) (rtStopMachine r p n)"
  "mirrors (rtRemoveMachine (log_runtime r) p n) (rtRemoveMachine r p n)"
  "mirrors (wlNetworkExists (log_workloads w) n) (wlNetworkExists w n)"
  "mirrors (wlCreateNetwork (log_workloads w) n b) (wlCreateNetwork w n b)"
  "mirrors (wlRemoveNetwork (log_workloads w) n) (wlRemoveNetwork w n)"
  "mirrors (wlBuild (log_workloads w) tag c) (wlBuild w tag c)"
  "mirrors (wlPlay (log_workloads w) f ns u) (wlPlay w f ns u)"
  "mirrors (wlDown (log_workloads w) f) (wlDown w f)"
  "mirrors (wlListPods (log_workloads w)) (wlListPods w)"
  by (simp_all add: mirror_rules)

lemma mirrors_Generate [mirror_rules]: "mirrors (Generate g (log_random rd)) (Generate g rd)"
  unfolding Generate_def by (intro mirror_rules)

lemma mirrors_requireKeychain [mirror_rules]:
  "mirrors (requireKeychain (log_keychain k) p) (requireKeychain k p)"
  unfolding requireKeychain_def by (intro mirror_rules)

section \<open>The secrets steps\<close>

lemma mirrors_resolve_loop [mirror_rules]:
  "mirrors (resolve_loop (untap ctx) (log_resolve r) p specs rs cs) (resolve_loop ctx r p specs rs cs)"
proof (induction specs arbitrary: rs cs)
  case (Cons spec specs)
  show ?case
  proof (cases "rsMinter r")
    case None
    show ?thesis
      unfolding resolve_loop.simps log_resolve_sel None option.map option.case
      by (intro mirror_rules Cons.IH)
  next
    case (Some m)
    show ?thesis
      unfolding resolve_loop.simps log_resolve_sel Some option.map option.case
      by (intro mirror_rules Cons.IH)
  qed
qed (simp add: mirror_rules)

lemma mirrors_ResolveSecrets [mirror_rules]:
  "mirrors (ResolveSecrets (untap ctx) (log_resolve r) p cat role) (ResolveSecrets ctx r p cat role)"
  unfolding ResolveSecrets_def log_resolve_sel by (intro mirror_rules)

lemma mirrors_InjectSecrets [mirror_rules]:
  "mirrors (InjectSecrets (untap ctx) (log_target t) rs) (InjectSecrets ctx t rs)"
proof (induction rs)
  case (Cons s rs)
  show ?case unfolding InjectSecrets.simps by (intro mirror_rules Cons.IH)
qed (simp add: mirror_rules)

lemma mirrors_purge_loop [mirror_rules]:
  "mirrors (purge_loop (untap ctx) (log_target t) names ns) (purge_loop ctx t names ns)"
proof (induction ns)
  case (Cons n ns)
  show ?case unfolding purge_loop.simps by (intro mirror_rules Cons.IH)
qed (simp add: mirror_rules)

lemma mirrors_PurgeSecrets [mirror_rules]:
  "mirrors (PurgeSecrets (untap ctx) (log_target t)) (PurgeSecrets ctx t)"
  unfolding PurgeSecrets_def by (intro mirror_rules)

section \<open>Up\<close>

lemma mirrors_step [mirror_rules]: "mirrors (step (log_lifecycle l) n d) (step l n d)"
  unfolding step_def lc_progress_def log_lifecycle_def
  by (cases "lcProgress l") (simp_all add: NoProgress_def mirror_rules)

lemma mirrors_load [mirror_rules]: "mirrors (load (log_lifecycle l) dir) (load l dir)"
  unfolding load_def log_lifecycle_sel by (intro mirror_rules)

lemma mirrors_check_ctx [mirror_rules]: "mirrors k k' \<Longrightarrow> mirrors (check_ctx (untap ctx) r k) (check_ctx ctx r k')"
  unfolding check_ctx_def by (intro mirror_rules)

lemma mirrors_check_ctx2 [mirror_rules]: "mirrors k k' \<Longrightarrow> mirrors (check_ctx2 (untap ctx) r k) (check_ctx2 ctx r k')"
  unfolding check_ctx2_def by (intro mirror_rules)

lemma mirrors_user_spec_loop [mirror_rules]:
  "mirrors (user_spec_loop (untap ctx) (log_lifecycle l) p specs m r) (user_spec_loop ctx l p specs m r)"
proof (induction specs arbitrary: m r)
  case (Cons spec specs)
  show ?case unfolding user_spec_loop.simps log_lifecycle_sel by (intro mirror_rules Cons.IH)
qed (simp add: mirror_rules)

lemma mirrors_user_role_loop [mirror_rules]:
  "mirrors (user_role_loop (untap ctx) (log_lifecycle l) p cat roles m r) (user_role_loop ctx l p cat roles m r)"
proof (induction roles arbitrary: m r)
  case (Cons role roles)
  show ?case unfolding user_role_loop.simps by (intro mirror_rules Cons.IH)
qed (simp add: mirror_rules)

lemma mirrors_ensureMachine [mirror_rules]:
  "mirrors (ensureMachine (log_lifecycle l) dir topo) (ensureMachine l dir topo)"
  unfolding ensureMachine_def start_machine_def log_lifecycle_sel by (intro mirror_rules)

lemma mirrors_network_loop [mirror_rules]:
  "mirrors (network_loop (untap ctx) (log_lifecycle l) topo roles r) (network_loop ctx l topo roles r)"
proof (induction roles arbitrary: r)
  case (Cons role roles)
  show ?case unfolding network_loop.simps log_lifecycle_sel by (intro mirror_rules Cons.IH)
qed (simp add: mirror_rules)

lemma mirrors_play_loop [mirror_rules]:
  "mirrors (play_loop (untap ctx) (log_lifecycle l) dir role z ws r) (play_loop ctx l dir role z ws r)"
proof (induction ws arbitrary: r)
  case (Cons w ws)
  show ?case unfolding play_loop.simps log_lifecycle_sel by (intro mirror_rules Cons.IH)
qed (simp add: mirror_rules)

lemma mirrors_wait_ready [mirror_rules]:
  "mirrors (wait_ready (untap ctx) (log_lifecycle l) role r) (wait_ready ctx l role r)"
proof (cases "lcMinter l")
  case None
  show ?thesis unfolding wait_ready_def log_lifecycle_sel None option.map option.case by (intro mirror_rules)
next
  case (Some m)
  show ?thesis unfolding wait_ready_def log_lifecycle_sel Some option.map option.case by (intro mirror_rules)
qed

lemma mirrors_up_zone [mirror_rules]:
  "mirrors (up_zone (untap ctx) (log_lifecycle l) dir topo cat role r) (up_zone ctx l dir topo cat role r)"
  unfolding up_zone_def log_lifecycle_resolve
  unfolding log_lifecycle_sel by (intro mirror_rules)

lemma mirrors_zones_loop [mirror_rules]:
  "mirrors (zones_loop (untap ctx) (log_lifecycle l) dir topo cat roles failed r)
     (zones_loop ctx l dir topo cat roles failed r)"
proof (induction roles arbitrary: failed r)
  case (Cons role roles)
  show ?case unfolding zones_loop.simps by (intro mirror_rules Cons.IH)
qed (simp add: mirror_rules)

lemma mirrors_Up: "mirrors (Up (untap ctx) (log_lifecycle l) dir roles) (Up ctx l dir roles)"
  unfolding Up_def log_lifecycle_sel by (intro mirror_rules)

section \<open>Down and status\<close>

lemma mirrors_forget_loop [mirror_rules]:
  "mirrors (forget_loop (untap ctx) (log_lifecycle l) p specs r) (forget_loop ctx l p specs r)"
proof (induction specs arbitrary: r)
  case (Cons spec specs)
  show ?case unfolding forget_loop.simps log_lifecycle_sel by (intro mirror_rules Cons.IH)
qed (simp add: mirror_rules)

lemma mirrors_destroy [mirror_rules]:
  "mirrors (destroy (untap ctx) (log_lifecycle l) topo cat r) (destroy ctx l topo cat r)"
  unfolding destroy_def log_lifecycle_sel by (intro mirror_rules)

lemma mirrors_down_loop [mirror_rules]:
  "mirrors (down_loop (untap ctx) (log_lifecycle l) dir role ws present b r) (down_loop ctx l dir role ws present b r)"
proof (induction ws arbitrary: present b r)
  case (Cons w ws)
  show ?case unfolding down_loop.simps log_lifecycle_sel by (intro mirror_rules Cons.IH)
qed (simp add: mirror_rules)

lemma mirrors_down_network [mirror_rules]:
  "mirrors (down_network (untap ctx) (log_lifecycle l) role b r) (down_network ctx l role b r)"
  unfolding down_network_def log_lifecycle_sel by (intro mirror_rules)

lemma mirrors_down_zones [mirror_rules]:
  "mirrors (down_zones (untap ctx) (log_lifecycle l) dir topo roles present r) (down_zones ctx l dir topo roles present r)"
proof (induction roles arbitrary: present r)
  case (Cons role roles)
  show ?case unfolding down_zones.simps by (intro mirror_rules Cons.IH)
qed (simp add: mirror_rules)

lemma mirrors_purge_and_stop [mirror_rules]:
  "mirrors (purge_and_stop (untap ctx) (log_lifecycle l) topo cat b r) (purge_and_stop ctx l topo cat b r)"
  unfolding purge_and_stop_def log_lifecycle_sel by (intro mirror_rules)

lemma mirrors_Down: "mirrors (Down (untap ctx) (log_lifecycle l) dir roles b) (Down ctx l dir roles b)"
  unfolding Down_def down_machine_def log_lifecycle_sel by (intro mirror_rules)

lemma mirrors_networksPresent [mirror_rules]:
  "mirrors (networksPresent (untap ctx) (log_workloads w) roles f) (networksPresent ctx w roles f)"
proof (induction roles arbitrary: f)
  case (Cons role roles)
  show ?case unfolding networksPresent.simps by (intro mirror_rules Cons.IH)
qed (simp add: mirror_rules)

lemma mirrors_Status: "mirrors (Status (untap ctx) (log_lifecycle l) dir) (Status ctx l dir)"
  unfolding Status_def status_checks_def log_lifecycle_sel by (intro mirror_rules)

end
