(* ===== verification/UpProperties.thy ===== *)
theory UpProperties
  imports Observers
begin

text \<open>
  What \<open>Lifecycle.Up\<close> promises, over every run: every topology, every answer of the
  keychain, Podman, the machine and the minter, and every moment of cancellation. The
  one hypothesis, \<open>sticky ctx\<close>, is the documented contract of \<open>context.Context\<close>: once
  \<open>Err\<close> is non-nil it stays so. The witnesses run \<open>up\<close> on the doubles of
  \<open>fakes_test.go\<close> with the provider key set, where everything comes up.
\<close>

lemma test_up_run:
  obtains r es where
    "run_state (Up (untap (ret None)) (log_lifecycle test_lifecycle) ''/s'' Roles) (ready_world, []) =
       ((r, None), (agent_world, es))"
    and "length r = 14" and "no_fail r"
proof -
  obtain r where run: "run_state (Up (ret None) test_lifecycle ''/s'' Roles) ready_world = ((r, None), agent_world)"
    and r: "length r = 14" "list_all (\<lambda>c. cStatus c = Pass) r"
    using up_with_key by blast
  from r(2) have ok: "no_fail r" by (auto simp: no_fail_def list_all_iff)
  obtain es where "run_state (Up (untap (ret None)) (log_lifecycle test_lifecycle) ''/s'' Roles) (ready_world, []) =
      ((r, None), (agent_world, [] @ es))"
    using mirrors_Up run by (rule mirrorsE)
  then show thesis using r(1) ok by (intro that) simp_all
qed

text \<open>
  C9: \<open>up\<close> refines its phases, and the log is only an observer. Whatever the outside
  world answers, the calls of a run and what it returns are one of the listed courses:
  load and validate, check the keychain, describe every user secret, ensure the machine,
  ensure the networks, then zone by zone resolve, inject, build and play, up to the first
  failure, the zones after it reported as skipped. The run on logged ports answers and
  changes the world as the run on the ports themselves.
\<close>

theorem Up_refines_phases:
  assumes "sticky ctx"
  shows "emits (up_run dir roles (lcMinter l \<noteq> None)) (Up (untap ctx) (log_lifecycle l) dir roles)
    \<and> mirrors (Up (untap ctx) (log_lifecycle l) dir roles) (Up ctx l dir roles)"
  using emits_Up [OF assms] mirrors_Up by (rule conjI)

theorem Up_refines_phases_witness:
  "\<exists>r es. run_state (Up (untap (ret None)) (log_lifecycle test_lifecycle) ''/s'' Roles) (ready_world, []) =
       ((r, None), (agent_world, es)) \<and> length r = 14 \<and>
     up_run ''/s'' Roles (lcMinter test_lifecycle \<noteq> None) (r, None) es"
proof (rule test_up_run)
  fix r es
  assume run: "run_state (Up (untap (ret None)) (log_lifecycle test_lifecycle) ''/s'' Roles) (ready_world, []) =
      ((r, None), (agent_world, es))" and len: "length r = 14"
  have "up_run ''/s'' Roles (lcMinter test_lifecycle \<noteq> None) (r, None) es"
    by (rule emits_run [OF conjunct1 [OF Up_refines_phases [OF sticky_never]] run]) simp
  with run len show ?thesis by blast
qed

text \<open>
  C10: \<open>up\<close> looks before it leaps. Before Podman, the machine's store or the minter hears
  anything, the keychain was asked about every user secret of the selected zones and
  had each of them.
\<close>

theorem Up_checks_secrets_first:
  assumes "sticky ctx"
  shows "emits (\<lambda>_ es. secrets_before_podman roles es) (Up (untap ctx) (log_lifecycle l) dir roles)"
  by (rule emits_conseq [OF emits_Up [OF assms]]) (erule up_run_secrets)

theorem Up_checks_secrets_first_witness:
  "\<exists>r es. run_state (Up (untap (ret None)) (log_lifecycle test_lifecycle) ''/s'' Roles) (ready_world, []) =
       ((r, None), (agent_world, es)) \<and> length r = 14 \<and> secrets_before_podman Roles es"
proof (rule test_up_run)
  fix r es
  assume run: "run_state (Up (untap (ret None)) (log_lifecycle test_lifecycle) ''/s'' Roles) (ready_world, []) =
      ((r, None), (agent_world, es))" and len: "length r = 14"
  have "secrets_before_podman Roles es"
    by (rule emits_run [OF Up_checks_secrets_first [OF sticky_never] run]) simp
  with run len show ?thesis by blast
qed

text \<open>
  C1: nothing is played before its time. When a pod is played, no build, play, store or
  readiness call failed before it, every selected network is there, every secret its
  zone uses was stored on the machine, and the call just before built its image; the
  file, the networks and the user namespace are those of the loaded topology. So a
  failure of one of these calls is the last event of its kind.
\<close>

theorem Up_plays_safely:
  assumes "sticky ctx"
  shows "emits (\<lambda>_ es. up_safe dir roles es) (Up (untap ctx) (log_lifecycle l) dir roles)"
  by (rule emits_conseq [OF emits_Up [OF assms]]) (erule up_run_safe)

theorem Up_plays_safely_witness:
  "\<exists>r es. run_state (Up (untap (ret None)) (log_lifecycle test_lifecycle) ''/s'' Roles) (ready_world, []) =
       ((r, None), (agent_world, es)) \<and> length r = 14 \<and> up_safe ''/s'' Roles es"
proof (rule test_up_run)
  fix r es
  assume run: "run_state (Up (untap (ret None)) (log_lifecycle test_lifecycle) ''/s'' Roles) (ready_world, []) =
      ((r, None), (agent_world, es))" and len: "length r = 14"
  have "up_safe ''/s'' Roles es"
    by (rule emits_run [OF Up_plays_safely [OF sticky_never] run]) simp
  with run len show ?thesis by blast
qed

text \<open>
  C4: the report of \<open>up\<close> is honest. When it returns no error and no failed check, the
  machine runs, every selected network is there, every secret of the selected zones
  was stored, exactly the workloads of the selected zones were built and played, each
  once and in order, and LiteLLM answered when the services zone was among them.
\<close>

theorem Up_report_honest:
  assumes "sticky ctx"
  shows "emits (up_honest dir roles (lcMinter l \<noteq> None)) (Up (untap ctx) (log_lifecycle l) dir roles)"
  by (rule emits_conseq [OF emits_Up [OF assms]]) (erule up_run_honest)

theorem Up_report_honest_witness:
  "\<exists>r es. run_state (Up (untap (ret None)) (log_lifecycle test_lifecycle) ''/s'' Roles) (ready_world, []) =
       ((r, None), (agent_world, es)) \<and> no_fail r \<and>
     up_complete ''/s'' Roles (lcMinter test_lifecycle \<noteq> None) es"
proof (rule test_up_run)
  fix r es
  assume run: "run_state (Up (untap (ret None)) (log_lifecycle test_lifecycle) ''/s'' Roles) (ready_world, []) =
      ((r, None), (agent_world, es))" and ok: "no_fail r"
  have "up_honest ''/s'' Roles (lcMinter test_lifecycle \<noteq> None) (r, None) es"
    by (rule emits_run [OF Up_report_honest [OF sticky_never] run]) simp
  with ok have "up_complete ''/s'' Roles (lcMinter test_lifecycle \<noteq> None) es" by (simp add: up_honest_def)
  with run ok show ?thesis by blast
qed

end
