(* ===== verification/DownTraces.thy ===== *)
theory DownTraces
  imports UpSafety
begin

text \<open>
  What \<open>down\<close>, \<open>destroy\<close> and \<open>status\<close> do to the outside world: when each writing call
  is allowed, as a condition on the log before it, and what a report without a failure
  promises.
\<close>

section \<open>The program logic on the use case's steps\<close>

lemma traces_step [trace_rules]:
  "(\<And>u. traces P pre Q (f u)) \<Longrightarrow> traces P pre Q (State_Monad.bind (step (log_lifecycle l) n d) f)"
  unfolding traces_def by (rule emits_step)

lemma traces_load:
  assumes "\<And>e tr. traces P tr Q (f (Inl e))" and "\<And>tr e. scaffold_event e \<Longrightarrow> P tr e"
    and "\<And>fs topo. Validate topo (fsStat fs) = [] \<Longrightarrow>
      traces P (pre @ [EvOpenDir dir (Inr fs), EvLoad fs (Inr topo)]) Q (f (Inr (topo, catalogue_of topo)))"
  shows "traces P pre Q (State_Monad.bind (load (log_lifecycle l) dir) f)"
  unfolding traces_def
proof (rule emits_load)
  fix e es
  assume es: "list_all scaffold_event es"
  then have "along P pre es" by (rule along_all) (rule assms(2))
  then show "emits (\<lambda>b fs. along P pre (es @ fs) \<and> Q b (pre @ es @ fs)) (f (Inl e))"
    using assms(1) [of "pre @ es" e] by (simp add: traces_def)
next
  fix fs :: fsys and topo
  assume "Validate topo (fsStat fs) = []"
  then have "traces P (pre @ [EvOpenDir dir (Inr fs), EvLoad fs (Inr topo)]) Q (f (Inr (topo, catalogue_of topo)))"
    by (rule assms(3))
  then
  show "emits (\<lambda>b es. along P pre (EvOpenDir dir (Inr fs) # EvLoad fs (Inr topo) # es) \<and>
      Q b (pre @ EvOpenDir dir (Inr fs) # EvLoad fs (Inr topo) # es)) (f (Inr (topo, catalogue_of topo)))"
    using assms(2) by (simp add: traces_def)
qed

lemma traces_check_ctx [trace_rules]:
  "(\<And>e. Q (Return (r, Some e)) pre) \<Longrightarrow> traces P pre Q k \<Longrightarrow> traces P pre Q (check_ctx (untap ctx) r k)"
  unfolding check_ctx_def by (intro trace_rules) auto

lemma traces_check_ctx2:
  "sticky ctx \<Longrightarrow> (\<And>e. Q (Return (r, Some e)) pre) \<Longrightarrow> traces P pre Q k \<Longrightarrow>
    traces P pre Q (check_ctx2 (untap ctx) r k)"
  unfolding traces_def by (rule emits_check_ctx2) simp_all

lemma traces_proceed_ctx [trace_rules]:
  assumes "\<And>e. Q (r, Some e) pre" and "traces P pre Q (k x)"
  shows "traces P pre Q (proceed (check_ctx (untap ctx) r (ret (Next x))) k)"
proof (rule traces_proceed)
  show "traces P pre (\<lambda>q tr. tr = pre \<and> (case q of Return q' \<Rightarrow> \<exists>e. q' = (r, Some e) | Next y \<Rightarrow> y = x))
      (check_ctx (untap ctx) r (ret (Next x)))"
    by (intro trace_rules) simp_all
qed (use assms in auto)

lemma traces_proceed_ctx2:
  assumes "sticky ctx" and "\<And>e. Q (r, Some e) pre" and "traces P pre Q (k x)"
  shows "traces P pre Q (proceed (check_ctx2 (untap ctx) r (ret (Next x))) k)"
proof (rule traces_proceed)
  show "traces P pre (\<lambda>q tr. tr = pre \<and> (case q of Return q' \<Rightarrow> \<exists>e. q' = (r, Some e) | Next y \<Rightarrow> y = x))
      (check_ctx2 (untap ctx) r (ret (Next x)))"
    by (intro traces_check_ctx2 [OF assms(1)] trace_rules) simp_all
qed (use assms(2,3) in auto)

section \<open>When a writing call is allowed\<close>

definition taken :: "string \<Rightarrow> event list \<Rightarrow> workload \<Rightarrow> bool" where
  "taken dir tr w \<longleftrightarrow> EvDown (path_join dir (PodFile w)) None \<in> set tr"

text \<open>The pods were listed, and every one of them was taken down since.\<close>

definition emptied :: "string \<Rightarrow> event list \<Rightarrow> bool" where
  "emptied dir tr \<longleftrightarrow> (\<exists>pods. EvListPods (Inr pods) \<in> set tr \<and> (\<forall>w \<in> pName ` set pods. taken dir tr w))"

definition machine_stopped :: "event list \<Rightarrow> bool" where
  "machine_stopped tr \<longleftrightarrow>
     (\<exists>ms m. EvListMachines (Inr ms) \<in> set tr \<and> m \<in> set ms \<and> mName m = MachineName \<and> \<not> mRunning m)"

definition down_allowed :: "string \<Rightarrow> role list \<Rightarrow> topology \<Rightarrow> bool \<Rightarrow> event list \<Rightarrow> event \<Rightarrow> bool" where
  "down_allowed dir roles topo destroying pre e \<longleftrightarrow>
     (case e of
        EvDown f _ \<Rightarrow>
          \<exists>pods. EvListPods (Inr pods) \<in> set pre \<and>
            (\<exists>role \<in> set roles. \<exists>w \<in> set (zWorkloads (zone_or_zero topo role)).
               w \<in> pName ` set pods \<and> f = path_join dir (PodFile w))
      | EvRemoveNetwork n _ \<Rightarrow>
          \<exists>pods. EvListPods (Inr pods) \<in> set pre \<and>
            (\<exists>role \<in> set roles. n = NetworkName role \<and>
               (\<forall>w \<in> set (zWorkloads (zone_or_zero topo role)) \<inter> pName ` set pods. taken dir pre w))
      | EvRemoveSecret _ _ \<Rightarrow> emptied dir pre
      | EvRemoveVolume _ _ \<Rightarrow> emptied dir pre
      | EvStopMachine v n _ \<Rightarrow> v = tProvider topo \<and> n = MachineName \<and> emptied dir pre
      | EvRemoveMachine v n _ \<Rightarrow>
          v = tProvider topo \<and> n = MachineName \<and> destroying \<and> length roles = length Roles \<and>
          (EvStopMachine v n None \<in> set pre \<or> machine_stopped pre)
      | EvDelete p n _ \<Rightarrow>
          p = tKeychainPath topo \<and> EvRemoveMachine (tProvider topo) MachineName None \<in> set pre \<and>
          (\<exists>spec \<in> set (Entries (catalogue_of topo)). sName spec = n \<and> sSource spec = Minted)
      | _ \<Rightarrow> \<not> writes_event e \<and> \<not> reads_value e)"

lemma taken_mono: "taken dir tr w \<Longrightarrow> set tr \<subseteq> set tr' \<Longrightarrow> taken dir tr' w"
  by (auto simp: taken_def)

lemma taken_snoc [simp]:
  "taken dir (tr @ [e]) w \<longleftrightarrow> taken dir tr w \<or> e = EvDown (path_join dir (PodFile w)) None"
  by (auto simp: taken_def)

lemma emptied_mono: "emptied dir tr \<Longrightarrow> set tr \<subseteq> set tr' \<Longrightarrow> emptied dir tr'"
  unfolding emptied_def by (meson subsetD taken_mono)

section \<open>Taking the zones down\<close>

text \<open>The pods that were listed and are no longer in \<open>present\<close> were taken down.\<close>

definition down_inv :: "string \<Rightarrow> pod list \<Rightarrow> string list \<Rightarrow> event list \<Rightarrow> bool" where
  "down_inv dir pods present tr \<longleftrightarrow>
     EvListPods (Inr pods) \<in> set tr \<and> set present \<subseteq> pName ` set pods \<and>
     (\<forall>w \<in> pName ` set pods. w \<notin> set present \<longrightarrow> taken dir tr w)"

lemma down_inv_mono: "down_inv dir pods present tr \<Longrightarrow> set tr \<subseteq> set tr' \<Longrightarrow> down_inv dir pods present tr'"
  unfolding down_inv_def by (meson subsetD taken_mono)

definition down_loop_post :: "string \<Rightarrow> pod list \<Rightarrow> workload list \<Rightarrow> string list \<Rightarrow> bool \<Rightarrow> report \<Rightarrow> event list \<Rightarrow>
    (reported, string list \<times> bool \<times> report) flow \<Rightarrow> event list \<Rightarrow> bool" where
  "down_loop_post dir pods ws present all_down r pre q tr \<longleftrightarrow>
     (case q of
        Return (_, e) \<Rightarrow> e \<noteq> None
      | Next (present', all_down', r') \<Rightarrow>
          set pre \<subseteq> set tr \<and> down_inv dir pods present' tr \<and> set present' \<subseteq> set present \<and>
          (all_down' \<longrightarrow> all_down \<and> set ws \<inter> set present' = {}) \<and>
          (no_fail r' \<longrightarrow> no_fail r \<and> all_down' = all_down))"

lemma down_loop_post_Return [simp]:
  "down_loop_post dir pods ws present all_down r pre (Return q) tr \<longleftrightarrow> snd q \<noteq> None"
  by (cases q) (simp add: down_loop_post_def)

lemma down_allowed_pod:
  "role \<in> set roles \<Longrightarrow> w \<in> set (zWorkloads (zone_or_zero topo role)) \<Longrightarrow> w \<in> set present \<Longrightarrow>
    down_inv dir pods present pre \<Longrightarrow>
    down_allowed dir roles topo destroying pre (EvDown (path_join dir (PodFile w)) a)"
  unfolding down_allowed_def down_inv_def event.case
  by (intro exI [of _ pods] conjI bexI [of _ role] bexI [of _ w]) auto

lemma check_status [simp]:
  "cStatus (pass n s) = Pass" "cStatus (warn n s h) = Warn" "cStatus (fail_check n e) = Fail"
  by (simp_all add: pass_def warn_def fail_check_def mkCheck_def)

lemma traces_down_loop:
  assumes ctx: "sticky ctx" and role: "role \<in> set roles"
    and ws: "set ws \<subseteq> set (zWorkloads (zone_or_zero topo role))" and inv: "down_inv dir pods present pre"
  shows "traces (down_allowed dir roles topo destroying) pre (down_loop_post dir pods ws present all_down r pre)
    (down_loop (untap ctx) (log_lifecycle l) dir role ws present all_down r)"
  using ws inv
proof (induction ws arbitrary: present all_down r pre)
  case Nil
  then show ?case by (auto simp: down_loop_post_def intro: traces_ret)
next
  case (Cons w ws)
  have w: "w \<in> set (zWorkloads (zone_or_zero topo role))" and ws: "set ws \<subseteq> set (zWorkloads (zone_or_zero topo role))"
    using Cons.prems(1) by simp_all
  note IH = Cons.IH [OF ws]
  let ?log = "\<lambda>a. pre @ [EvDown (path_join dir (PodFile w)) a]"
  have absent: "traces (down_allowed dir roles topo destroying) pre (down_loop_post dir pods (w # ws) present all_down r pre)
      (down_loop (untap ctx) (log_lifecycle l) dir role ws present all_down (r @ [warn (workload_name role w) ''absent'' []]))"
    if "w \<notin> set present"
    by (rule traces_conseq [OF IH [OF Cons.prems(2)]])
      (use that in \<open>auto simp: down_loop_post_def split: flow.splits\<close>)
  have stopped: "traces (down_allowed dir roles topo destroying) (?log None)
      (down_loop_post dir pods (w # ws) present all_down r pre)
      (down_loop (untap ctx) (log_lifecycle l) dir role ws (filter (\<lambda>n. n \<noteq> w) present) all_down
        (r @ [pass (workload_name role w) ''stopped'']))"
  proof (rule traces_conseq [OF IH])
    show "down_inv dir pods (filter (\<lambda>n. n \<noteq> w) present) (?log None)"
      using Cons.prems(2) by (auto simp: down_inv_def)
  qed (auto simp: down_loop_post_def split: flow.splits)
  have failed: "traces (down_allowed dir roles topo destroying) (?log (Some e))
      (down_loop_post dir pods (w # ws) present all_down r pre)
      (down_loop (untap ctx) (log_lifecycle l) dir role ws present False (r @ [fail_check (workload_name role w) e]))" for e
  proof (rule traces_conseq [OF IH])
    show "down_inv dir pods present (?log (Some e))"
      using Cons.prems(2) by (auto simp: down_inv_def)
  qed (auto simp: down_loop_post_def split: flow.splits)
  show ?case
    unfolding down_loop.simps log_lifecycle_sel log_workloads_sel
    by (intro trace_rules traces_check_ctx2 [OF ctx])
      (use absent stopped failed down_allowed_pod [OF role w _ Cons.prems(2)] in auto)
qed

definition network_gone :: "role \<Rightarrow> event list \<Rightarrow> bool" where
  "network_gone role tr \<longleftrightarrow>
     EvNetworkExists (NetworkName role) (Inr False) \<in> set tr \<or> EvRemoveNetwork (NetworkName role) None \<in> set tr"

text \<open>No listed pod of the zone is left, and its network is gone.\<close>

definition zone_cleared :: "string \<Rightarrow> topology \<Rightarrow> pod list \<Rightarrow> event list \<Rightarrow> role \<Rightarrow> bool" where
  "zone_cleared dir topo pods tr role \<longleftrightarrow>
     (\<forall>w \<in> set (zWorkloads (zone_or_zero topo role)) \<inter> pName ` set pods. taken dir tr w) \<and> network_gone role tr"

lemma zone_cleared_mono: "zone_cleared dir topo pods tr role \<Longrightarrow> set tr \<subseteq> set tr' \<Longrightarrow> zone_cleared dir topo pods tr' role"
  unfolding zone_cleared_def network_gone_def by (meson subsetD taken_mono)

lemma zone_taken:
  "down_inv dir pods present tr \<Longrightarrow> set (zWorkloads (zone_or_zero topo role)) \<inter> set present = {} \<Longrightarrow>
    \<forall>w \<in> set (zWorkloads (zone_or_zero topo role)) \<inter> pName ` set pods. taken dir tr w"
  unfolding down_inv_def by blast

definition down_network_post :: "role \<Rightarrow> bool \<Rightarrow> report \<Rightarrow> event list \<Rightarrow> (reported, report) flow \<Rightarrow> event list \<Rightarrow> bool" where
  "down_network_post role all_down r pre q tr \<longleftrightarrow>
     (case q of
        Return (_, e) \<Rightarrow> e \<noteq> None
      | Next r' \<Rightarrow> set pre \<subseteq> set tr \<and> (no_fail r' \<longrightarrow> no_fail r \<and> (all_down \<longrightarrow> network_gone role tr)))"

lemma down_network_post_simps [simp]:
  "down_network_post role all_down r pre (Return q) tr \<longleftrightarrow> snd q \<noteq> None"
  "down_network_post role all_down r pre (Next r') tr \<longleftrightarrow>
     set pre \<subseteq> set tr \<and> (no_fail r' \<longrightarrow> no_fail r \<and> (all_down \<longrightarrow> network_gone role tr))"
  by (cases q, simp_all add: down_network_post_def)

lemma down_allowed_network:
  "role \<in> set roles \<Longrightarrow> EvListPods (Inr pods) \<in> set pre \<Longrightarrow>
    \<forall>w \<in> set (zWorkloads (zone_or_zero topo role)) \<inter> pName ` set pods. taken dir pre w \<Longrightarrow>
    down_allowed dir roles topo destroying (pre @ [EvNetworkExists n b]) (EvRemoveNetwork (NetworkName role) a)"
  unfolding down_allowed_def event.case
  by (intro exI [of _ pods] conjI bexI [of _ role]) auto

lemma traces_down_network:
  assumes ctx: "sticky ctx" and role: "role \<in> set roles" and pods: "EvListPods (Inr pods) \<in> set pre"
    and taken: "all_down \<Longrightarrow> \<forall>w \<in> set (zWorkloads (zone_or_zero topo role)) \<inter> pName ` set pods. taken dir pre w"
  shows "traces (down_allowed dir roles topo destroying) pre (down_network_post role all_down r pre)
    (down_network (untap ctx) (log_lifecycle l) role all_down r)"
  unfolding down_network_def log_lifecycle_sel log_workloads_sel
  by (intro trace_rules traces_check_ctx2 [OF ctx])
    (use down_allowed_network [OF role pods taken] in
      \<open>auto simp: network_gone_def down_allowed_def [of _ _ _ _ _ "EvNetworkExists _ _"] split: option.splits\<close>)

definition down_zones_post :: "string \<Rightarrow> topology \<Rightarrow> pod list \<Rightarrow> role list \<Rightarrow> string list \<Rightarrow> report \<Rightarrow> event list \<Rightarrow>
    (reported, string list \<times> report) flow \<Rightarrow> event list \<Rightarrow> bool" where
  "down_zones_post dir topo pods todo present r pre q tr \<longleftrightarrow>
     (case q of
        Return (_, e) \<Rightarrow> e \<noteq> None
      | Next (present', r') \<Rightarrow>
          set pre \<subseteq> set tr \<and> down_inv dir pods present' tr \<and> set present' \<subseteq> set present \<and>
          (no_fail r' \<longrightarrow> no_fail r \<and> (\<forall>role \<in> set todo. zone_cleared dir topo pods tr role \<and>
             set (zWorkloads (zone_or_zero topo role)) \<inter> set present' = {})))"

lemma traces_down_zones:
  assumes ctx: "sticky ctx" and todo: "set todo \<subseteq> set roles" and inv: "down_inv dir pods present pre"
  shows "traces (down_allowed dir roles topo destroying) pre (down_zones_post dir topo pods todo present r pre)
    (down_zones (untap ctx) (log_lifecycle l) dir topo todo present r)"
  using todo inv
proof (induction todo arbitrary: present r pre)
  case Nil
  then show ?case by (auto simp: down_zones_post_def intro: traces_ret)
next
  case (Cons role todo)
  have role: "role \<in> set roles" and todo: "set todo \<subseteq> set roles" using Cons.prems(1) by simp_all
  let ?z = "zone_or_zero topo role"
  have loop: "traces (down_allowed dir roles topo destroying) pre
      (down_loop_post dir pods (rev (zWorkloads ?z)) present True r pre)
      (down_loop (untap ctx) (log_lifecycle l) dir role (rev (zWorkloads ?z)) present True r)"
    using role Cons.prems(2) by (intro traces_down_loop [OF ctx]) simp_all
  show ?case
    unfolding down_zones.simps
  proof (rule traces_chain [OF loop])
    fix q tr
    assume "down_loop_post dir pods (rev (zWorkloads ?z)) present True r pre (Return q) tr"
    then show "down_zones_post dir topo pods (role # todo) present r pre (Return q) tr"
      by (cases q) (simp add: down_zones_post_def)
  next
    fix x tr
    assume looped: "down_loop_post dir pods (rev (zWorkloads ?z)) present True r pre (Next x) tr"
    obtain present' all_down' r' where x: "x = (present', all_down', r')" by (cases x)
    have sub: "set pre \<subseteq> set tr" "set present' \<subseteq> set present" and inv: "down_inv dir pods present' tr"
      and down: "all_down' \<Longrightarrow> set (zWorkloads ?z) \<inter> set present' = {}" and nf: "no_fail r' \<Longrightarrow> no_fail r \<and> all_down'"
      using looped by (auto simp: down_loop_post_def x)
    have net: "traces (down_allowed dir roles topo destroying) tr (down_network_post role all_down' r' tr)
        (down_network (untap ctx) (log_lifecycle l) role all_down' r')"
      using inv down by (intro traces_down_network [OF ctx role, where pods = pods] zone_taken) (auto simp: down_inv_def)
    have "traces (down_allowed dir roles topo destroying) tr (down_zones_post dir topo pods (role # todo) present r pre)
        (chain (down_network (untap ctx) (log_lifecycle l) role all_down' r')
          (\<lambda>r. down_zones (untap ctx) (log_lifecycle l) dir topo todo present' r))"
    proof (rule traces_chain [OF net])
      fix q tr'
      assume "down_network_post role all_down' r' tr (Return q) tr'"
      then show "down_zones_post dir topo pods (role # todo) present r pre (Return q) tr'"
        by (cases q) (simp add: down_zones_post_def)
    next
      fix r'' tr'
      assume "down_network_post role all_down' r' tr (Next r'') tr'"
      then have sub': "set tr \<subseteq> set tr'" and nf': "no_fail r'' \<Longrightarrow> no_fail r' \<and> (all_down' \<longrightarrow> network_gone role tr')"
        by simp_all
      have inv': "down_inv dir pods present' tr'" using inv sub' by (rule down_inv_mono)
      have cleared: "zone_cleared dir topo pods tr' role \<and> set (zWorkloads ?z) \<inter> set present' = {}" if "no_fail r''"
        using zone_taken [OF inv' down] nf nf' down that by (simp add: zone_cleared_def)
      show "traces (down_allowed dir roles topo destroying) tr' (down_zones_post dir topo pods (role # todo) present r pre)
          (down_zones (untap ctx) (log_lifecycle l) dir topo todo present' r'')"
        by (rule traces_conseq [OF Cons.IH [OF todo inv']])
          (use sub sub' nf nf' cleared zone_cleared_mono in
            \<open>fastforce simp: down_zones_post_def split: flow.splits\<close>)
    qed
    then show "traces (down_allowed dir roles topo destroying) tr (down_zones_post dir topo pods (role # todo) present r pre)
        (case x of (present, all_down, r) \<Rightarrow>
          chain (down_network (untap ctx) (log_lifecycle l) role all_down r)
            (down_zones (untap ctx) (log_lifecycle l) dir topo todo present))"
      by (simp add: x)
  qed
qed

section \<open>Purging, stopping and destroying\<close>

definition purged :: "event list \<Rightarrow> bool" where
  "purged tr \<longleftrightarrow> (\<exists>names. EvListSecrets (Inr names) \<in> set tr \<and>
     (\<forall>n \<in> set names. EvRemoveSecret n None \<in> set tr \<and> EvRemoveVolume n None \<in> set tr))"

lemma purged_mono: "purged tr \<Longrightarrow> set tr \<subseteq> set tr' \<Longrightarrow> purged tr'"
  unfolding purged_def by blast

definition removed :: "string list \<Rightarrow> event list \<Rightarrow> go_error + string list \<Rightarrow> event list \<Rightarrow> bool" where
  "removed ns pre q tr \<longleftrightarrow>
     set pre \<subseteq> set tr \<and> (\<not> is_Inl q \<longrightarrow> (\<forall>n \<in> set ns. EvRemoveSecret n None \<in> set tr \<and> EvRemoveVolume n None \<in> set tr))"

lemma removed_Inl [simp]: "removed ns pre (Inl e) tr \<longleftrightarrow> set pre \<subseteq> set tr"
  by (simp add: removed_def)

lemma down_allowed_plain [simp]:
  "down_allowed dir roles topo destroying pre (EvListMachines a1)"
  "down_allowed dir roles topo destroying pre (EvListPods a2)"
  "down_allowed dir roles topo destroying pre (EvListSecrets a3)"
  "down_allowed dir roles topo destroying pre (EvNetworkExists n a4)"
  "down_allowed dir roles topo destroying pre (EvDescribe p n a5)"
  "down_allowed dir roles topo destroying pre (EvRemoveSecret n a6) \<longleftrightarrow> emptied dir pre"
  "down_allowed dir roles topo destroying pre (EvRemoveVolume n a6) \<longleftrightarrow> emptied dir pre"
  by (simp_all add: down_allowed_def)

lemma emptied_snoc: "emptied dir pre \<Longrightarrow> emptied dir (pre @ [e])"
  by (erule emptied_mono) auto

lemma traces_purge_loop:
  "emptied dir pre \<Longrightarrow> traces (down_allowed dir roles topo destroying) pre (removed ns pre)
    (purge_loop (untap ctx) (log_target t) names ns)"
proof (induction ns arbitrary: pre)
  case Nil
  then show ?case by (auto simp: removed_def intro: traces_ret)
next
  case (Cons n ns)
  have "traces (down_allowed dir roles topo destroying) (pre @ [EvRemoveSecret n None] @ [EvRemoveVolume n None])
      (removed (n # ns) pre) (purge_loop (untap ctx) (log_target t) names ns)"
    by (rule traces_conseq [OF Cons.IH])
      (use Cons.prems in \<open>auto simp: removed_def intro: emptied_mono\<close>)
  then show ?case
    unfolding purge_loop.simps log_target_sel
    by (intro trace_rules) (use Cons.prems in \<open>auto simp: emptied_snoc\<close>)
qed

lemma traces_PurgeSecrets:
  assumes "emptied dir pre"
  shows "traces (down_allowed dir roles topo destroying) pre
    (\<lambda>q tr. set pre \<subseteq> set tr \<and> (\<not> is_Inl q \<longrightarrow> purged tr)) (PurgeSecrets (untap ctx) (log_target t))"
  unfolding PurgeSecrets_def log_target_sel
proof (intro trace_rules)
  fix names
  show "traces (down_allowed dir roles topo destroying) (pre @ [EvListSecrets (Inr names)])
      (\<lambda>q tr. set pre \<subseteq> set tr \<and> (\<not> is_Inl q \<longrightarrow> purged tr)) (purge_loop (untap ctx) (log_target t) names names)"
    by (rule traces_conseq [OF traces_purge_loop [OF emptied_snoc [OF assms]]]) (auto simp: removed_def purged_def)
qed auto

text \<open>The machine was removed and no minted item is left in the keychain.\<close>

definition forgotten :: "topology \<Rightarrow> event list \<Rightarrow> secret_spec \<Rightarrow> bool" where
  "forgotten topo tr spec \<longleftrightarrow>
     (\<exists>e. EvDescribe (tKeychainPath topo) (sName spec) (Inl e) \<in> set tr \<and> errors_is e ErrSecretNotFound) \<or>
     EvDelete (tKeychainPath topo) (sName spec) None \<in> set tr"

definition machine_removed :: "topology \<Rightarrow> event list \<Rightarrow> bool" where
  "machine_removed topo tr \<longleftrightarrow> EvRemoveMachine (tProvider topo) MachineName None \<in> set tr"

definition destroyed :: "topology \<Rightarrow> event list \<Rightarrow> bool" where
  "destroyed topo tr \<longleftrightarrow> machine_removed topo tr \<and>
     (\<forall>spec \<in> set (Entries (catalogue_of topo)). sSource spec = Minted \<longrightarrow> forgotten topo tr spec)"

lemma forgotten_mono: "forgotten topo tr spec \<Longrightarrow> set tr \<subseteq> set tr' \<Longrightarrow> forgotten topo tr' spec"
  unfolding forgotten_def by blast

definition forget_post :: "topology \<Rightarrow> secret_spec list \<Rightarrow> report \<Rightarrow> event list \<Rightarrow> reported \<Rightarrow> event list \<Rightarrow> bool" where
  "forget_post topo specs r pre q tr \<longleftrightarrow> set pre \<subseteq> set tr \<and>
     (snd q = None \<and> no_fail (fst q) \<longrightarrow>
        no_fail r \<and> (\<forall>spec \<in> set specs. sSource spec = Minted \<longrightarrow> forgotten topo tr spec))"

lemma traces_forget_loop:
  assumes "set specs \<subseteq> set (Entries (catalogue_of topo))" and "machine_removed topo pre"
  shows "traces (down_allowed dir roles topo destroying) pre (forget_post topo specs r pre)
    (forget_loop (untap ctx) (log_lifecycle l) (tKeychainPath topo) specs r)"
  using assms
proof (induction specs arbitrary: r pre)
  case Nil
  then show ?case by (auto simp: forget_post_def intro: traces_ret)
next
  case (Cons spec specs)
  have next_ok: "traces (down_allowed dir roles topo destroying) (pre @ es) (forget_post topo (spec # specs) r pre)
      (forget_loop (untap ctx) (log_lifecycle l) (tKeychainPath topo) specs (r @ cs))"
    if "sSource spec \<noteq> Minted \<or> \<not> no_fail cs \<or> forgotten topo (pre @ es) spec" for es cs
  proof (rule traces_conseq [OF Cons.IH])
    show "set specs \<subseteq> set (Entries (catalogue_of topo))" using Cons.prems(1) by simp
    show "machine_removed topo (pre @ es)" using Cons.prems(2) by (simp add: machine_removed_def)
    fix q tr
    assume "forget_post topo specs (r @ cs) (pre @ es) q tr"
    then show "forget_post topo (spec # specs) r pre q tr"
      using that forgotten_mono [of topo "pre @ es" spec tr] by (auto simp: forget_post_def)
  qed
  let ?item = "EvDescribe (tKeychainPath topo) (sName spec)" and ?del = "EvDelete (tKeychainPath topo) (sName spec)"
  have delete: "down_allowed dir roles topo destroying (pre @ [?item (Inr it)]) (?del a)"
    if "sSource spec = Minted" for it a
    using Cons.prems that unfolding down_allowed_def event.case machine_removed_def by auto
  have cut: "forget_post topo (spec # specs) r pre (r, Some e) pre" for e
    by (simp add: forget_post_def)
  have skip: "traces (down_allowed dir roles topo destroying) pre (forget_post topo (spec # specs) r pre)
      (forget_loop (untap ctx) (log_lifecycle l) (tKeychainPath topo) specs r)" if "sSource spec \<noteq> Minted"
    using next_ok [where es = "[]" and cs = "[]"] that by simp
  have absent: "traces (down_allowed dir roles topo destroying) (pre @ [?item (Inl e)]) (forget_post topo (spec # specs) r pre)
      (forget_loop (untap ctx) (log_lifecycle l) (tKeychainPath topo) specs r)" if "errors_is e ErrSecretNotFound" for e
    using next_ok [where es = "[?item (Inl e)]" and cs = "[]"] that by (auto simp: forgotten_def)
  have unknown: "traces (down_allowed dir roles topo destroying) (pre @ [?item (Inl e)]) (forget_post topo (spec # specs) r pre)
      (forget_loop (untap ctx) (log_lifecycle l) (tKeychainPath topo) specs (r @ [fail_check n e]))" for e n
    using next_ok [where es = "[?item (Inl e)]" and cs = "[fail_check n e]"] by simp
  have kept: "traces (down_allowed dir roles topo destroying) (pre @ [?item (Inr it), ?del (Some e)])
      (forget_post topo (spec # specs) r pre)
      (forget_loop (untap ctx) (log_lifecycle l) (tKeychainPath topo) specs (r @ [fail_check n e]))" for it e n
    using next_ok [where es = "[?item (Inr it), ?del (Some e)]" and cs = "[fail_check n e]"] by simp
  have deleted: "traces (down_allowed dir roles topo destroying) (pre @ [?item (Inr it), ?del None])
      (forget_post topo (spec # specs) r pre)
      (forget_loop (untap ctx) (log_lifecycle l) (tKeychainPath topo) specs (r @ [pass n s]))" for it n s
    using next_ok [where es = "[?item (Inr it), ?del None]" and cs = "[pass n s]"] by (simp add: forgotten_def)
  show ?case
    unfolding forget_loop.simps log_lifecycle_sel log_keychain_sel
    by (intro trace_rules) (use skip absent unknown kept deleted delete cut in auto)
qed

lemma traces_destroy:
  assumes ctx: "sticky ctx" and roles: "length roles = length Roles"
    and off: "EvStopMachine (tProvider topo) MachineName None \<in> set pre \<or> machine_stopped pre"
  shows "traces (down_allowed dir roles topo True) pre
    (\<lambda>q tr. set pre \<subseteq> set tr \<and> (snd q = None \<and> no_fail (fst q) \<longrightarrow> no_fail r \<and> destroyed topo tr))
    (destroy (untap ctx) (log_lifecycle l) topo (catalogue_of topo) r)"
  unfolding destroy_def log_lifecycle_sel log_runtime_sel
proof (intro trace_rules traces_proceed_ctx2 [OF ctx])
  show "down_allowed dir roles topo True pre (EvRemoveMachine (tProvider topo) MachineName a)" for a
    using roles off by (simp add: down_allowed_def)
  let ?pre = "pre @ [EvRemoveMachine (tProvider topo) MachineName None]"
  have "traces (down_allowed dir roles topo True) ?pre
      (\<lambda>q tr. set pre \<subseteq> set tr \<and> (snd q = None \<and> no_fail (fst q) \<longrightarrow> no_fail r \<and> destroyed topo tr))
      (forget_loop (untap ctx) (log_lifecycle l) (tKeychainPath topo) (Entries (catalogue_of topo)) (r @ [pass n s]))" for n s
    by (rule traces_conseq [OF traces_forget_loop])
      (auto simp: machine_removed_def forget_post_def destroyed_def)
  then show "traces (down_allowed dir roles topo True) (pre @ [EvRemoveMachine (tProvider topo) MachineName a])
      (\<lambda>q tr. set pre \<subseteq> set tr \<and> (snd q = None \<and> no_fail (fst q) \<longrightarrow> no_fail r \<and> destroyed topo tr))
      (forget_loop (untap ctx) (log_lifecycle l) (tKeychainPath topo) (Entries (catalogue_of topo))
        (r @ [pass ''destroy'' (MachineName @ '' removed with its images and volumes'')]))" if "a = None" for a
    using that by simp
qed auto

definition stop_post :: "topology \<Rightarrow> bool \<Rightarrow> report \<Rightarrow> event list \<Rightarrow> reported \<Rightarrow> event list \<Rightarrow> bool" where
  "stop_post topo destroying r pre q tr \<longleftrightarrow> set pre \<subseteq> set tr \<and>
     (snd q = None \<and> no_fail (fst q) \<longrightarrow>
        no_fail r \<and> purged tr \<and> EvStopMachine (tProvider topo) MachineName None \<in> set tr \<and>
        (destroying \<longrightarrow> destroyed topo tr))"

lemma traces_purge_and_stop:
  assumes ctx: "sticky ctx" and empty: "emptied dir pre" and roles: "destroying \<Longrightarrow> length roles = length Roles"
  shows "traces (down_allowed dir roles topo destroying) pre (stop_post topo destroying r pre)
    (purge_and_stop (untap ctx) (log_lifecycle l) topo (catalogue_of topo) destroying r)"
  unfolding purge_and_stop_def log_lifecycle_sel
proof (intro trace_rules, rule traces_bind [OF traces_PurgeSecrets [OF empty]], elim conjE)
  fix pq :: "go_error + string list" and tr
  assume sub: "set pre \<subseteq> set tr" and pq: "\<not> is_Inl pq \<longrightarrow> purged tr"
  let ?c = "case pq of Inl err \<Rightarrow> fail_check ''secrets'' err
    | Inr names \<Rightarrow> pass ''secrets'' (itoa (int (length names)) @ '' purged'')"
  let ?tr = "\<lambda>a. tr @ [EvStopMachine (tProvider topo) MachineName a]"
  have cut: "stop_post topo destroying r pre (r', Some e) tr" for r' e
    using sub by (simp add: stop_post_def)
  have stop: "down_allowed dir roles topo destroying tr (EvStopMachine (tProvider topo) MachineName a)" for a
    using emptied_mono [OF empty sub] by (simp add: down_allowed_def)
  have failed: "stop_post topo destroying r pre (r' @ [c, fail_check n e], None) (?tr a)" for r' c n e a
    using sub by (auto simp: stop_post_def)
  have cut': "stop_post topo destroying r pre (r', Some e) (?tr a)" for r' e a
    using sub by (auto simp: stop_post_def)
  have purged: "purged (?tr a)" if "no_fail [?c]" for a
    using that pq by (cases pq) (auto intro: purged_mono)
  have stopped: "stop_post topo destroying r pre ((r @ [?c]) @ [pass n s], None) (?tr None)" if "\<not> destroying" for n s
    using that sub purged by (auto simp: stop_post_def)
  have destroyed: "traces (down_allowed dir roles topo destroying) (?tr None) (stop_post topo destroying r pre)
      (destroy (untap ctx) (log_lifecycle l) topo (catalogue_of topo) ((r @ [?c]) @ [pass n s]))" if "destroying" for n s
  proof -
    have "traces (down_allowed dir roles topo True) (?tr None)
        (\<lambda>q tr'. set (?tr None) \<subseteq> set tr' \<and>
          (snd q = None \<and> no_fail (fst q) \<longrightarrow> no_fail ((r @ [?c]) @ [pass n s]) \<and> destroyed topo tr'))
        (destroy (untap ctx) (log_lifecycle l) topo (catalogue_of topo) ((r @ [?c]) @ [pass n s]))"
      using roles that by (intro traces_destroy [OF ctx]) simp_all
    moreover have on: "destroying = True" using that by simp
    ultimately show ?thesis
      unfolding on
      by - (erule traces_conseq, use that sub purged purged_mono [of "?tr None"] in \<open>auto simp: stop_post_def\<close>)
  qed
  show "traces (down_allowed dir roles topo destroying) tr (stop_post topo destroying r pre)
     (proceed (check_ctx2 (untap ctx) r (ret (Next (r @ [?c]))))
       (\<lambda>r. do {
          _ \<leftarrow> step (log_lifecycle l) ''machine'' (''stopping '' @ MachineName);
          stopped \<leftarrow> rtStopMachine (log_runtime (lcRuntime l)) (tProvider topo) MachineName;
          case stopped of
            Some err \<Rightarrow> proceed (check_ctx2 (untap ctx) r (ret (Next ()))) (\<lambda>_. ret (r @ [fail_check ''machine'' err], None))
          | None \<Rightarrow> if destroying then destroy (untap ctx) (log_lifecycle l) topo (catalogue_of topo) (r @ [pass ''machine'' ''stopped''])
                    else ret (r @ [pass ''machine'' ''stopped''], None)
        }))"
    unfolding log_runtime_sel
    by (intro trace_rules traces_proceed_ctx2 [OF ctx])
      (use cut cut' stop failed stopped destroyed in auto)
qed

section \<open>Down\<close>

definition foreign_pod :: "role list \<Rightarrow> topology \<Rightarrow> pod list \<Rightarrow> bool" where
  "foreign_pod roles topo pods \<longleftrightarrow>
     (\<exists>w \<in> pName ` set pods. \<forall>role \<in> set roles. w \<notin> set (zWorkloads (zone_or_zero topo role)))"

text \<open>
  What a run that reports no failure has done: nothing, because there is no machine;
  nothing or only the destruction, because the machine was stopped; or it cleared every
  selected zone and then, unless a listed pod belongs to no selected zone, purged the
  store and stopped the machine, and destroyed it when asked.
\<close>

definition down_complete :: "string \<Rightarrow> role list \<Rightarrow> topology \<Rightarrow> bool \<Rightarrow> event list \<Rightarrow> bool" where
  "down_complete dir roles topo destroying tr \<longleftrightarrow>
     (\<exists>ms. EvListMachines (Inr ms) \<in> set tr \<and> MachineName \<notin> mName ` set ms) \<or>
     (machine_stopped tr \<and> (destroying \<longrightarrow> destroyed topo tr)) \<or>
     (\<exists>pods. EvListPods (Inr pods) \<in> set tr \<and> (\<forall>role \<in> set roles. zone_cleared dir topo pods tr role) \<and>
        (foreign_pod roles topo pods \<or>
         purged tr \<and> EvStopMachine (tProvider topo) MachineName None \<in> set tr \<and>
         (destroying \<longrightarrow> destroyed topo tr)))"

definition down_post :: "string \<Rightarrow> role list \<Rightarrow> topology \<Rightarrow> bool \<Rightarrow> reported \<Rightarrow> event list \<Rightarrow> bool" where
  "down_post dir roles topo destroying q tr \<longleftrightarrow>
     (snd q = None \<and> no_fail (fst q) \<longrightarrow> down_complete dir roles topo destroying tr)"

lemma down_post_err [simp]: "down_post dir roles topo destroying (r, Some e) tr"
  by (simp add: down_post_def)

lemma traces_down_running:
  assumes ctx: "sticky ctx" and all: "destroying \<Longrightarrow> length roles = length Roles"
    and pods: "EvListPods (Inr pods) \<in> set pre"
  shows "traces (down_allowed dir roles topo destroying) pre (down_post dir roles topo destroying)
    (proceed (down_zones (untap ctx) (log_lifecycle l) dir topo (rev roles) (remdups (map pName pods)) [])
      (\<lambda>(present, r).
        if present \<noteq> [] then ret (r @ [warn n1 (s1 present) h1, warn n2 s2 h2], None)
        else purge_and_stop (untap ctx) (log_lifecycle l) topo (catalogue_of topo) destroying r))"
proof (rule traces_proceed [OF traces_down_zones [OF ctx, where pods = pods and roles = roles]])
  show "down_inv dir pods (remdups (map pName pods)) pre" using pods by (auto simp: down_inv_def)
next
  fix q tr
  assume "down_zones_post dir topo pods (rev roles) (remdups (map pName pods)) [] pre (Return q) tr"
  then show "down_post dir roles topo destroying q tr"
    by (cases q) (auto simp: down_zones_post_def down_post_def)
next
  fix x tr
  assume post: "down_zones_post dir topo pods (rev roles) (remdups (map pName pods)) [] pre (Next x) tr"
  obtain present r where x: "x = (present, r)" by (cases x)
  have sub: "set pre \<subseteq> set tr" and inv: "down_inv dir pods present tr"
    and cleared: "no_fail r \<Longrightarrow> role \<in> set roles \<Longrightarrow> zone_cleared dir topo pods tr role \<and>
      set (zWorkloads (zone_or_zero topo role)) \<inter> set present = {}" for role
    using post by (auto simp: down_zones_post_def x)
  have kept: "down_post dir roles topo destroying (r @ [warn n1 (s1 present) h1, warn n2 s2 h2], None) tr" if ne: "present \<noteq> []"
  proof -
    obtain w where "w \<in> set present" using ne by (cases present) auto
    then have "foreign_pod roles topo pods" if "no_fail r"
      using cleared [OF that] inv unfolding foreign_pod_def down_inv_def by blast
    then show ?thesis
      using inv cleared by (auto simp: down_post_def down_complete_def down_inv_def)
  qed
  have "traces (down_allowed dir roles topo destroying) tr (down_post dir roles topo destroying)
      (purge_and_stop (untap ctx) (log_lifecycle l) topo (catalogue_of topo) destroying r)" if "present = []"
  proof (rule traces_conseq [OF traces_purge_and_stop [OF ctx _ all]])
    show "emptied dir tr" using inv that unfolding emptied_def down_inv_def by auto
    fix q tr'
    assume stop: "stop_post topo destroying r tr q tr'"
    show "down_post dir roles topo destroying q tr'"
      unfolding down_post_def
    proof (intro impI, elim conjE)
      assume q: "snd q = None" "no_fail (fst q)"
      have "\<forall>role \<in> set roles. zone_cleared dir topo pods tr' role"
        using stop q cleared zone_cleared_mono unfolding stop_post_def by blast
      then show "down_complete dir roles topo destroying tr'"
        using stop q sub pods unfolding down_complete_def stop_post_def by blast
    qed
  qed
  then show "traces (down_allowed dir roles topo destroying) tr (down_post dir roles topo destroying)
      (case x of (present, r) \<Rightarrow>
        if present \<noteq> [] then ret (r @ [warn n1 (s1 present) h1, warn n2 s2 h2], None)
        else purge_and_stop (untap ctx) (log_lifecycle l) topo (catalogue_of topo) destroying r)"
    using kept by (auto simp: x intro: traces_ret)
qed simp_all

lemma machine_stoppedI:
  "EvListMachines (Inr ms) \<in> set tr \<Longrightarrow> find (\<lambda>m. mName m = MachineName) (rev ms) = Some m \<Longrightarrow>
    \<not> mRunning m \<Longrightarrow> machine_stopped tr"
  unfolding machine_stopped_def find_Some_iff by (metis nth_mem set_rev)

lemma machine_absentI:
  "find (\<lambda>m. mName m = MachineName) (rev ms) = None \<Longrightarrow> MachineName \<notin> mName ` set ms"
  by (auto simp: find_None_iff)

end
