(* ===== verification/DownProperties.thy ===== *)
theory DownProperties
  imports DownTraces Observers
begin

text \<open>
  What \<open>Lifecycle.Down\<close> and \<open>Lifecycle.Status\<close> promise over every run, and runs of both
  on the doubles of \<open>fakes_test.go\<close>.
\<close>

section \<open>Every run of down\<close>

definition down_safe :: "string \<Rightarrow> role list \<Rightarrow> bool \<Rightarrow> event list \<Rightarrow> bool" where
  "down_safe dir roles destroying es \<longleftrightarrow>
     list_all scaffold_event es \<or>
     (\<exists>fs topo. EvLoad fs (Inr topo) \<in> set es \<and> Validate topo (fsStat fs) = [] \<and>
        along (down_allowed dir roles topo destroying) [] es)"

definition down_honest :: "string \<Rightarrow> role list \<Rightarrow> bool \<Rightarrow> reported \<Rightarrow> event list \<Rightarrow> bool" where
  "down_honest dir roles destroying q es \<longleftrightarrow>
     (snd q = None \<and> no_fail (fst q) \<longrightarrow>
        (\<exists>fs topo. EvLoad fs (Inr topo) \<in> set es \<and> Validate topo (fsStat fs) = [] \<and>
           down_complete dir roles topo destroying es))"

lemma traces_down_machine:
  assumes ctx: "sticky ctx" and all: "destroying \<Longrightarrow> length roles = length Roles"
  shows "traces (down_allowed dir roles topo destroying) pre (down_post dir roles topo destroying)
    (down_machine (untap ctx) (log_lifecycle l) dir topo (catalogue_of topo) roles destroying)"
  unfolding down_machine_def log_lifecycle_sel log_runtime_sel log_workloads_sel
proof (intro trace_rules, goal_cases)
  case (3 a ms)
  then show ?case using machine_absentI [of ms] by (auto simp: down_post_def down_complete_def)
next
  case (4 a ms m)
  then have on: "destroying = True" and off: "machine_stopped (pre @ [EvListMachines a])"
    by (auto intro: machine_stoppedI)
  have "length roles = length Roles" using all on by simp
  show ?case
    unfolding on
    by (rule traces_conseq [OF traces_destroy [OF ctx \<open>length roles = length Roles\<close>]])
      (use off in \<open>auto simp: down_post_def down_complete_def machine_stopped_def\<close>)
next
  case (5 a ms m)
  then show ?case using machine_stoppedI [of ms _ m] by (auto simp: down_post_def down_complete_def)
next
  case (8 a ms m b pods)
  show ?case by (rule traces_down_running [OF ctx all]) (use 8 in auto)
qed (auto simp: down_post_def)

lemma down_traces_emits:
  assumes "traces (down_allowed dir roles topo destroying) [EvOpenDir dir (Inr fs), EvLoad fs (Inr topo)]
      (down_post dir roles topo destroying) m"
    and "Validate topo (fsStat fs) = []"
  shows "emits (\<lambda>q es. down_safe dir roles destroying (EvOpenDir dir (Inr fs) # EvLoad fs (Inr topo) # es) \<and>
      down_honest dir roles destroying q (EvOpenDir dir (Inr fs) # EvLoad fs (Inr topo) # es)) m"
proof (rule emits_conseq [OF assms(1) [unfolded traces_def]], elim conjE)
  let ?pre = "[EvOpenDir dir (Inr fs), EvLoad fs (Inr topo)]"
  fix q es
  assume "along (down_allowed dir roles topo destroying) ?pre es" and "down_post dir roles topo destroying q (?pre @ es)"
  moreover have "along (down_allowed dir roles topo destroying) [] ?pre" by (simp add: down_allowed_def)
  ultimately show "down_safe dir roles destroying (EvOpenDir dir (Inr fs) # EvLoad fs (Inr topo) # es) \<and>
      down_honest dir roles destroying q (EvOpenDir dir (Inr fs) # EvLoad fs (Inr topo) # es)"
    using assms(2) unfolding down_safe_def down_honest_def down_post_def
    by (auto intro!: exI [of _ fs] exI [of _ topo])
qed

lemma emits_Down:
  assumes ctx: "sticky ctx"
  shows "emits (\<lambda>q es. down_safe dir roles destroying es \<and> down_honest dir roles destroying q es)
    (Down (untap ctx) (log_lifecycle l) dir roles destroying)"
  unfolding Down_def
proof (intro emits_load, unfold sum.case prod.case)
  show "emits (\<lambda>b fs. down_safe dir roles destroying (es @ fs) \<and> down_honest dir roles destroying b (es @ fs))
      (ret ([], Some e))" if "list_all scaffold_event es" for e es
    using that by (simp add: down_safe_def down_honest_def emits_ret)
  show "emits (\<lambda>q es. down_safe dir roles destroying (EvOpenDir dir (Inr fs) # EvLoad fs (Inr topo) # es) \<and>
      down_honest dir roles destroying q (EvOpenDir dir (Inr fs) # EvLoad fs (Inr topo) # es))
    (if destroying \<and> length roles \<noteq> length Roles then ret ([], Some destroy_refused)
     else down_machine (untap ctx) (log_lifecycle l) dir topo (catalogue_of topo) roles destroying)"
    if "Validate topo (fsStat fs) = []" for fs :: fsys and topo
    by (intro down_traces_emits trace_rules traces_down_machine [OF ctx] that) (auto simp: down_post_def)
qed

section \<open>A run in the test world\<close>

definition gone_world :: test_world where
  "gone_world = agent_world\<lparr>twItems := without ''openclaw-litellm-key'' (twItems agent_world),
     twStore := [], twMachines := [], twNetworks := [], twPods := []\<rparr>"

lemmas world_defs = agent_world_def services_world_def infra_world_def machine_world_def ready_world_def empty_world_def

lemmas down_ops = run_ops down_network_def NetworkName_def network_name_def workload_name_def fake_pod_def

definition bare_world :: test_world where
  "bare_world = agent_world\<lparr>twNetworks := [], twPods := []\<rparr>"

lemma down_zones_run:
  "\<exists>r. run_state (down_zones (ret None) test_lifecycle ''/s'' default_topology [Agent, Services, Infra]
     (remdups (map pName (map fake_pod (sort (twPods agent_world))))) []) agent_world = (Next ([], r), bare_world) \<and>
     length r = 9 \<and> list_all (\<lambda>c. cStatus c = Pass) r"
  by (simp add: down_ops world_defs bare_world_def less_eq_char_def)

lemma down_rest_run:
  "\<exists>r'. run_state (purge_and_stop (ret None) test_lifecycle default_topology default_catalogue True r) bare_world =
     ((r @ r', None), gone_world) \<and> length r' = 4 \<and> list_all (\<lambda>c. cStatus c = Pass) r'"
  by (simp add: down_ops world_defs bare_world_def gone_world_def purge_and_stop_def PurgeSecrets_def destroy_def
      less_eq_char_def Entries_def default_catalogue_def set_running_def)

text \<open>A full \<open>down --destroy\<close> after the full \<open>up\<close> leaves the provider key and nothing else running.\<close>

lemma down_destroys:
  "\<exists>r. run_state (Down (ret None) test_lifecycle ''/s'' Roles True) agent_world = ((r, None), gone_world) \<and>
     length r = 13 \<and> list_all (\<lambda>c. cStatus c = Pass) r"
proof -
  obtain r where zones: "run_state (down_zones (ret None) test_lifecycle ''/s'' default_topology [Agent, Services, Infra]
      (remdups (map pName (map fake_pod (sort (twPods agent_world))))) []) agent_world = (Next ([], r), bare_world)"
    and r: "length r = 9" "list_all (\<lambda>c. cStatus c = Pass) r"
    using down_zones_run by blast
  obtain r' where rest: "run_state (purge_and_stop (ret None) test_lifecycle default_topology default_catalogue True r) bare_world =
      ((r @ r', None), gone_world)" and r': "length r' = 4" "list_all (\<lambda>c. cStatus c = Pass) r'"
    using down_rest_run by blast
  have machines: "run_state (rtListMachines fakeRuntime) agent_world = (Inr [\<lparr>mName = MachineName, mRunning = True\<rparr>], agent_world)"
    by (simp add: fakeRuntime_def world_defs)
  have pods: "run_state (wlListPods fakeWorkloads) agent_world = (Inr (map fake_pod (sort (twPods agent_world))), agent_world)"
    by (simp add: fakeWorkloads_def)
  have "run_state (Down (ret None) test_lifecycle ''/s'' Roles True) agent_world = ((r @ r', None), gone_world)"
    by (simp add: Down_def down_machine_def machines pods proceed_def Roles_def zones rest
        del: down_zones.simps List.map_map)
  then show ?thesis using r r' by auto
qed

text \<open>
  Without a machine, \<open>down --destroy\<close> stops before it looks at the keychain: the minted item
  stays, with one warning and no failed check.
\<close>

lemma Down_absent_keeps_key:
  "run_state (Down (ret None) test_lifecycle ''/s'' Roles True) (agent_world\<lparr>twMachines := []\<rparr>) =
     (([warn ''machine'' ''not created'' ''nothing to take down''], None), agent_world\<lparr>twMachines := []\<rparr>) \<and>
   (''openclaw-litellm-key'', ''sk-minted'', Minted) \<in> set (twItems (agent_world\<lparr>twMachines := []\<rparr>))"
proof -
  have machines: "run_state (rtListMachines fakeRuntime) (agent_world\<lparr>twMachines := []\<rparr>) = (Inr [], agent_world\<lparr>twMachines := []\<rparr>)"
    by (simp add: fakeRuntime_def world_defs)
  show ?thesis
    by (simp add: Down_def down_machine_def machines Roles_def) (simp add: agent_world_def)
qed

lemma test_down_run:
  obtains r es where
    "run_state (Down (untap (ret None)) (log_lifecycle test_lifecycle) ''/s'' Roles True) (agent_world, []) =
       ((r, None), (gone_world, es))"
    and "length r = 13" and "no_fail r"
proof -
  obtain r where run: "run_state (Down (ret None) test_lifecycle ''/s'' Roles True) agent_world = ((r, None), gone_world)"
    and r: "length r = 13" "list_all (\<lambda>c. cStatus c = Pass) r"
    using down_destroys by blast
  from r(2) have ok: "no_fail r" by (auto simp: no_fail_def list_all_iff)
  obtain es where "run_state (Down (untap (ret None)) (log_lifecycle test_lifecycle) ''/s'' Roles True) (agent_world, []) =
      ((r, None), (gone_world, [] @ es))"
    using mirrors_Down run by (rule mirrorsE)
  then show thesis using r(1) ok by (intro that) simp_all
qed

text \<open>
  C11: \<open>down\<close> takes nothing away too early. Only listed pods of the selected zones are
  taken down; a zone's network is removed only when every listed pod of the zone was;
  the machine's store is purged and the machine stopped only when every listed pod was;
  the machine is removed only by a \<open>--destroy\<close> of all zones and only when it is stopped;
  a keychain item is deleted only after the machine was removed and only if it is minted.
  Nothing else is written, no secret is read and no key revoked.
\<close>

theorem Down_takes_safely:
  assumes "sticky ctx"
  shows "emits (\<lambda>_ es. down_safe dir roles destroying es) (Down (untap ctx) (log_lifecycle l) dir roles destroying)"
  by (rule emits_conseq [OF emits_Down [OF assms]]) (erule conjunct1)

theorem Down_takes_safely_witness:
  "\<exists>r es. run_state (Down (untap (ret None)) (log_lifecycle test_lifecycle) ''/s'' Roles True) (agent_world, []) =
       ((r, None), (gone_world, es)) \<and> length r = 13 \<and> down_safe ''/s'' Roles True es"
proof (rule test_down_run)
  fix r es
  assume run: "run_state (Down (untap (ret None)) (log_lifecycle test_lifecycle) ''/s'' Roles True) (agent_world, []) =
      ((r, None), (gone_world, es))" and len: "length r = 13"
  have "down_safe ''/s'' Roles True es"
    by (rule emits_run [OF Down_takes_safely [OF sticky_never] run]) simp
  with run len show ?thesis by blast
qed



end
