(* ===== verification/StatusReport.thy ===== *)
theory StatusReport
  imports DownProperties
begin

text \<open>
  \<open>Lifecycle.Status\<close>: it only reads, and its report is what the evaluation rules of
  \<open>internal/domain\<close> say about the answers it got.
\<close>

section \<open>Asking about the networks\<close>

fun network_question :: "event \<Rightarrow> bool" where
  "network_question (EvNetworkExists _ _) = True"
| "network_question _ = False"

text \<open>\<open>f\<close> holds the answer about each network of \<open>roles\<close>, and elsewhere what it held before.\<close>

definition network_answers :: "role list \<Rightarrow> (string \<Rightarrow> bool) \<Rightarrow> (string \<Rightarrow> bool) \<Rightarrow> event list \<Rightarrow> bool" where
  "network_answers roles before f es \<longleftrightarrow>
     (\<forall>n. if n \<in> NetworkName ` set roles then EvNetworkExists n (Inr (f n)) \<in> set es else f n = before n)"

definition networks_post :: "role list \<Rightarrow> (string \<Rightarrow> bool) \<Rightarrow> go_error + (string \<Rightarrow> bool) \<Rightarrow> event list \<Rightarrow> bool" where
  "networks_post roles before q es \<longleftrightarrow>
     list_all network_question es \<and> (\<forall>f. q = Inr f \<longrightarrow> network_answers roles before f es)"

lemma emits_networksPresent:
  "emits (networks_post roles before) (networksPresent (untap ctx) (log_workloads w) roles before)"
proof (induction roles arbitrary: before)
  case Nil
  then show ?case by (simp add: networks_post_def network_answers_def emits_ret)
next
  case (Cons r roles)
  have asked: "networks_post (r # roles) before q (EvNetworkExists (NetworkName r) (Inr ok) # es)"
    if "networks_post roles (before(NetworkName r := ok)) q es" for q ok es
    using that unfolding networks_post_def network_answers_def
    by (auto split: if_splits)
  show ?case
    unfolding networksPresent.simps log_workloads_sel
    by (intro emits_rules emits_conseq [OF Cons.IH], simp_all only: asked)
      (simp_all add: networks_post_def)
qed

lemma emits_bind_networksPresent [emits_rules]:
  assumes "\<And>q es. networks_post roles before q es \<Longrightarrow> emits (\<lambda>b fs. P b (es @ fs)) (f q)"
  shows "emits P (State_Monad.bind (networksPresent (untap ctx) (log_workloads w) roles before) f)"
  by (rule emits_bind [OF emits_networksPresent]) (rule assms)

text \<open>The context has ended; then it stays so.\<close>

definition ended :: "'w ctx \<Rightarrow> 'w \<Rightarrow> bool" where
  "ended ctx w \<longleftrightarrow> fst (run_state ctx w) \<noteq> None"

definition network_failed :: "role list \<Rightarrow> go_error + (string \<Rightarrow> bool) \<Rightarrow> event list \<Rightarrow> bool" where
  "network_failed roles q es \<longleftrightarrow>
     (\<forall>e. q = Inl e \<longrightarrow> (\<exists>role \<in> set roles. EvNetworkExists (NetworkName role) (Inl e) \<in> set es))"

text \<open>An error is the one a question about a network got, or the context has ended.\<close>

lemma networksPresent_run:
  assumes "sticky ctx"
    and "run_state (networksPresent (untap ctx) (log_workloads wl) roles before) (w, tr) = (q, (w', tr'))"
  shows "\<exists>es. tr' = tr @ es \<and> networks_post roles before q es \<and> (ended ctx w' \<or> network_failed roles q es)"
proof -
  obtain es where es: "tr' = tr @ es" "networks_post roles before q es"
    using emits_run [OF emits_networksPresent assms(2)] by blast
  have "ended ctx w' \<or> (\<forall>e. q = Inl e \<longrightarrow> (\<exists>role \<in> set roles. EvNetworkExists (NetworkName role) (Inl e) \<in> set es))"
    if "tr' = tr @ es" for es
    using assms(2) that
  proof (induction roles arbitrary: before w tr es)
    case (Cons role roles)
    obtain c w1 where c: "run_state ctx w = (c, w1)" by fastforce
    show ?case
    proof (cases c)
      case (Some e)
      with Cons.prems(1) c have "w' = w1" by (simp add: ensure_def State_Monad.return_def)
      then show ?thesis using assms(1) c Some unfolding sticky_def ended_def by blast
    next
      case None
      obtain a w2 where a: "run_state (wlNetworkExists wl (NetworkName role)) w1 = (a, w2)" by fastforce
      show ?thesis
      proof (cases a)
        case (Inl e)
        with Cons.prems c None a show ?thesis by (auto simp: ensure_def attempt_def State_Monad.return_def)
      next
        case (Inr ok)
        with Cons.prems(1) c None a have run: "run_state (networksPresent (untap ctx) (log_workloads wl) roles
            (before(NetworkName role := ok))) (w2, tr @ [EvNetworkExists (NetworkName role) a]) = (q, (w', tr'))"
          by (simp add: ensure_def attempt_def)
        obtain fs where fs: "tr' = (tr @ [EvNetworkExists (NetworkName role) a]) @ fs"
          using emits_run [OF emits_networksPresent run] by blast
        from Cons.IH [OF run fs] fs Cons.prems(2) show ?thesis by auto
      qed
    qed
  qed (auto simp: State_Monad.return_def)
  from this [OF es(1)] show ?thesis using es unfolding network_failed_def by blast
qed

text \<open>The questions about the networks, and then the context is asked.\<close>

lemma emits_networks_then_ctx:
  assumes "sticky ctx" and cut: "\<And>q es e. networks_post roles before q es \<Longrightarrow> P (r, Some e) es"
    and full: "\<And>q es. networks_post roles before q es \<Longrightarrow> network_failed roles q es \<Longrightarrow>
      emits (\<lambda>b fs. P b (es @ fs)) (k q ())"
  shows "emits P (State_Monad.bind (networksPresent (untap ctx) (log_workloads wl) roles before)
    (\<lambda>q. proceed (check_ctx (untap ctx) r (ret (Next ()))) (k q)))"
proof (rule emitsI)
  fix w tr b w' tr'
  assume run: "run_state (State_Monad.bind (networksPresent (untap ctx) (log_workloads wl) roles before)
    (\<lambda>q. proceed (check_ctx (untap ctx) r (ret (Next ()))) (k q))) (w, tr) = (b, (w', tr'))"
  obtain q w1 tr1 where m: "run_state (networksPresent (untap ctx) (log_workloads wl) roles before) (w, tr) = (q, (w1, tr1))"
    by (metis prod.exhaust)
  obtain es where es: "tr1 = tr @ es" "networks_post roles before q es" "ended ctx w1 \<or> network_failed roles q es"
    using networksPresent_run [OF assms(1) m] by blast
  obtain c w2 where c: "run_state ctx w1 = (c, w2)" by fastforce
  show "\<exists>es. tr' = tr @ es \<and> P b es"
  proof (cases c)
    case (Some e)
    with run m c have "b = (r, Some e) \<and> tr' = tr1" by (simp add: proceed_def check_ctx_def State_Monad.return_def)
    with es cut show ?thesis by blast
  next
    case None
    with es c have failed: "network_failed roles q es" by (simp add: ended_def)
    have "run_state (k q ()) (w2, tr1) = (b, (w', tr'))"
      using run m c None by (simp add: proceed_def check_ctx_def)
    from emits_run [OF full [OF es(2) failed] this] es(1) show ?thesis by auto
  qed
qed

section \<open>The report\<close>

fun reading_event :: "event \<Rightarrow> bool" where
  "reading_event e \<longleftrightarrow> \<not> writes_event e \<and> \<not> reads_value e"

text \<open>The rows of a report, by what \<open>status\<close> was told about the machine, the networks and the pods.\<close>

inductive status_rows :: "topology \<Rightarrow> machine list \<Rightarrow> report \<Rightarrow> event list \<Rightarrow> bool"
  for topo :: topology and ms :: "machine list" where
  rows_stopped: "\<not> snd (EvaluateMachine ms) \<Longrightarrow> status_rows topo ms [fst (EvaluateMachine ms)] es"
| rows_no_networks: "snd (EvaluateMachine ms) \<Longrightarrow> role \<in> set Roles \<Longrightarrow>
    EvNetworkExists (NetworkName role) (Inl e) \<in> set es \<Longrightarrow>
    status_rows topo ms [fst (EvaluateMachine ms), fail_check ''networks'' e] es"
| rows_no_pods: "snd (EvaluateMachine ms) \<Longrightarrow> network_answers Roles (\<lambda>_. False) up es \<Longrightarrow>
    EvListPods (Inl e) \<in> set es \<Longrightarrow>
    status_rows topo ms (fst (EvaluateMachine ms) # EvaluateNetworks topo Roles up @ [fail_check ''pods'' e]) es"
| rows_all: "snd (EvaluateMachine ms) \<Longrightarrow> network_answers Roles (\<lambda>_. False) up es \<Longrightarrow>
    EvListPods (Inr pods) \<in> set es \<Longrightarrow>
    status_rows topo ms (fst (EvaluateMachine ms) # EvaluateNetworks topo Roles up @ EvaluateWorkloads topo Roles pods) es"

definition status_contract :: "reported \<Rightarrow> event list \<Rightarrow> bool" where
  "status_contract q es \<longleftrightarrow>
     list_all reading_event es \<and>
     (snd q = None \<longrightarrow>
        (\<exists>fs topo. EvLoad fs (Inr topo) \<in> set es \<and> Validate topo (fsStat fs) = [] \<and>
           ((\<exists>e. EvListMachines (Inl e) \<in> set es \<and> fst q = [fail_check ''machine'' e]) \<or>
            (\<exists>ms. EvListMachines (Inr ms) \<in> set es \<and> status_rows topo ms (fst q) es))))"

lemma scaffold_reading: "list_all scaffold_event es \<Longrightarrow> list_all reading_event es"
proof -
  have "scaffold_event e \<Longrightarrow> reading_event e" for e by (cases e) auto
  then show "list_all scaffold_event es \<Longrightarrow> list_all reading_event es" by (auto simp: list_all_iff)
qed

lemma networks_reading: "networks_post roles before q es \<Longrightarrow> list_all reading_event es"
proof -
  have "network_question e \<Longrightarrow> reading_event e" for e by (cases e) auto
  then show "networks_post roles before q es \<Longrightarrow> list_all reading_event es"
    by (auto simp: networks_post_def list_all_iff)
qed

lemma network_answers_mono: "network_answers roles before f es \<Longrightarrow> set es \<subseteq> set es' \<Longrightarrow> network_answers roles before f es'"
  unfolding network_answers_def by (metis subsetD)

lemma status_rows_mono: "status_rows topo ms r es \<Longrightarrow> set es \<subseteq> set es' \<Longrightarrow> status_rows topo ms r es'"
  by (induction rule: status_rows.induct) (auto intro: status_rows.intros network_answers_mono)

text \<open>The report after the events \<open>es\<close>, once the topology was loaded and the machines listed.\<close>

lemma status_contractI:
  assumes "Validate topo (fsStat fs) = []" and "list_all reading_event es"
    and "snd q = None \<Longrightarrow> status_rows topo ms (fst q) es"
  shows "status_contract q (EvOpenDir dir (Inr fs) # EvLoad fs (Inr topo) # EvListMachines (Inr ms) # es)"
proof -
  let ?es = "EvOpenDir dir (Inr fs) # EvLoad fs (Inr topo) # EvListMachines (Inr ms) # es"
  have "list_all reading_event ?es" using assms(2) by simp
  moreover have "status_rows topo ms (fst q) ?es" if "snd q = None"
    using assms(3) [OF that] by (rule status_rows_mono) auto
  ultimately show ?thesis using assms(1) unfolding status_contract_def
    by (intro conjI impI exI [of _ fs] exI [of _ topo] disjI2 exI [of _ ms]) auto
qed

lemma emits_status_checks:
  assumes "sticky ctx" and "Validate topo (fsStat fs) = []"
  shows "emits (\<lambda>q es. status_contract q (EvOpenDir dir (Inr fs) # EvLoad fs (Inr topo) # es))
    (status_checks (untap ctx) (log_lifecycle l) topo)"
  unfolding status_checks_def log_lifecycle_sel log_runtime_sel log_workloads_sel
proof (intro emits_networks_then_ctx [OF assms(1)] emits_bind_tap emits_case_sum emits_case_prod emits_if emits_proceed_ctx
    emits_ret, goal_cases)
  case (1 a err)
  then show ?case using assms by (auto simp: status_contract_def)
next
  case (2 a ms machine running)
  then show ?case using rows_stopped [of ms topo] by (auto intro!: status_contractI assms)
next
  case (3 a ms machine running q es e)
  then show ?case by (auto simp: networks_reading intro!: status_contractI assms)
next
  case (4 a ms machine running q es err)
  then obtain role where "role \<in> set Roles" "EvNetworkExists (NetworkName role) (Inl err) \<in> set es"
    by (auto simp: network_failed_def)
  with 4 show ?case using rows_no_networks [of ms role err es topo]
    by (auto simp: networks_reading intro!: status_contractI assms)
next
  case (5 a ms machine running q es up b e)
  then show ?case by (auto simp: networks_reading intro!: status_contractI assms)
next
  case (6 a ms machine running q es up b)
  then have up: "network_answers Roles (\<lambda>_. False) up (es @ [EvListPods b])"
    by (auto simp: networks_post_def intro: network_answers_mono)
  have "status_rows topo ms (machine # EvaluateNetworks topo Roles up @
      (case b of Inl err \<Rightarrow> [fail_check ''pods'' err] | Inr pods \<Rightarrow> EvaluateWorkloads topo Roles pods)) (es @ [EvListPods b])"
    using rows_no_pods [of ms up, OF _ up] rows_all [of ms up, OF _ up] 6 by (cases b) fastforce+
  with 6 show ?case by (auto simp: networks_reading intro!: status_contractI assms)
qed

text \<open>
  C18: \<open>status\<close> only reads, and reports what it was told. Whatever the outside world
  answers it writes nothing and reads no secret. When it returns no error, the topology
  was valid and the report is one failed check when the machines could not be listed, or
  else the machine's check; when the machine runs, then the checks of every zone's network,
  each by the answer about that network, and then the checks of the workloads by the listed
  pods; or one failed check in the place of the networks with the error a question about a
  zone's network got, or in the place of the pods with the error of their listing.
\<close>

theorem Status_contract:
  assumes "sticky ctx"
  shows "emits status_contract (Status (untap ctx) (log_lifecycle l) dir)"
  unfolding Status_def
proof (intro emits_load, unfold sum.case prod.case)
  show "emits (\<lambda>b fs. status_contract b (es @ fs)) (ret ([], Some e))" if "list_all scaffold_event es" for e es
    using that by (intro emits_ret) (simp add: status_contract_def scaffold_reading)
qed (rule emits_status_checks [OF assms])

text \<open>Every zone up: the machine, three networks and the workloads pass.\<close>

lemma status_all_up:
  "\<exists>r. run_state (Status (ret None) test_lifecycle ''/s'') agent_world = ((r, None), agent_world) \<and>
     length r = 10 \<and> list_all (\<lambda>c. cStatus c = Pass) r"
proof -
  have zones: "Zone default_topology Infra = Some (default_zones ! 0)" "Zone default_topology Services = Some (default_zones ! 1)"
    "Zone default_topology Agent = Some (default_zones ! 2)"
    by (simp_all add: Zone_def default_topology_def default_zones_def)
  show ?thesis
    by (simp add: Status_def status_checks_def Roles_def run_ops agent_world_def services_world_def infra_world_def
        machine_world_def ready_world_def empty_world_def zones EvaluateNetworks_def network_check_def NetworkName_def
        EvaluateWorkloads_def workload_check_def Running_def fake_pod_def mkCheck_def Let_def)
qed

theorem Status_contract_witness:
  "\<exists>r es. run_state (Status (untap (ret None)) (log_lifecycle test_lifecycle) ''/s'') (agent_world, []) =
       ((r, None), (agent_world, es)) \<and> length r = 10 \<and> status_contract (r, None) es"
proof -
  obtain r where run: "run_state (Status (ret None) test_lifecycle ''/s'') agent_world = ((r, None), agent_world)"
    and len: "length r = 10"
    using status_all_up by blast
  obtain es where log: "run_state (Status (untap (ret None)) (log_lifecycle test_lifecycle) ''/s'') (agent_world, []) =
      ((r, None), (agent_world, [] @ es))"
    using mirrors_Status run by (rule mirrorsE)
  have "status_contract (r, None) es"
    by (rule emits_run [OF Status_contract [OF sticky_never] log]) simp
  with log len show ?thesis by auto
qed

end
