(* ===== verification/DoctorApp.thy ===== *)
theory DoctorApp
  imports StatusReport
begin

text \<open>
  \<open>internal/app/doctor.go\<close>: the checks of \<open>lclaw doctor\<close>, in their fixed order. The
  topology and the flag that it is usable are one optional topology.
\<close>

section \<open>The use case\<close>

record 'w doctor =
  drRuntime :: "'w machine_runtime"
  drWorkloads :: "'w workload_runtime"
  drEnvs :: "'w environment_manager"
  drScaffold :: "'w dir_opener"
  drTopology :: "'w topology_loader"
  drKeychain :: "'w keychain"

definition tool_check :: "requirement \<Rightarrow> go_error + version \<Rightarrow> check" where
  "tool_check req r =
     (case r of Inl err \<Rightarrow> EvaluateTool req zero_version (Some err) | Inr v \<Rightarrow> EvaluateTool req v None)"

definition scaffold_skipped :: "string \<Rightarrow> check" where
  "scaffold_skipped hint = mkCheck ''topology'' Warn ''skipped because the scaffold check failed'' hint"

definition topology_verdict :: "topology \<Rightarrow> finding list \<Rightarrow> check list" where
  "topology_verdict topo findings =
     (if findings = []
      then [mkCheck ''topology'' Pass (''1 machine, '' @ itoa (int (length (tZones topo))) @ '' zones, '' @
              itoa (int (length (Workloads topo))) @ '' workloads'') []]
      else map (\<lambda>f. mkCheck ''topology'' Fail (finding_string f) []) findings)"

definition scaffoldChecks :: "'w doctor \<Rightarrow> string \<Rightarrow> ('w, check list \<times> topology option) io" where
  "scaffoldChecks d dir = do {
     opened \<leftarrow> doOpenDir (drScaffold d) dir;
     case opened of
       Inl err \<Rightarrow>
         ret (if errors_is err FsNotExist
              then ([mkCheck ''scaffold'' Warn (dir @ '' not found'') ''run `lclaw init` to write the default files'',
                     scaffold_skipped ''run `lclaw init`, then `lclaw doctor` again''], None)
              else ([mkCheck ''scaffold'' Fail (err_text err) [],
                     scaffold_skipped ''fix the scaffold directory, then run `lclaw doctor` again''], None))
     | Inr fsys \<Rightarrow> do {
         loaded \<leftarrow> tlLoad (drTopology d) fsys;
         ret (case loaded of
                Inl err \<Rightarrow>
                  ([mkCheck ''scaffold'' Pass dir [],
                    mkCheck ''topology'' Fail (err_text err)
                      (if errors_is err FsNotExist then ''run `lclaw init` to write the default '' @ TopologyFile else [])], None)
              | Inr topo \<Rightarrow>
                  (mkCheck ''scaffold'' Pass dir [] # topology_verdict topo (Validate topo (fsStat fsys)), Some topo))
       }
   }"

text \<open>The user's entries, described one by one until the context ends.\<close>

fun declared_secrets_loop :: "'w ctx \<Rightarrow> 'w doctor \<Rightarrow> string \<Rightarrow> secret_spec list \<Rightarrow> check list \<Rightarrow> ('w, check list) io" where
  "declared_secrets_loop ctx d path [] checks = ret checks"
| "declared_secrets_loop ctx d path (spec # specs) checks = do {
     cancelled \<leftarrow> ctx;
     if cancelled \<noteq> None then ret checks
     else do {
       item \<leftarrow> kcDescribe (drKeychain d) path (sName spec);
       declared_secrets_loop ctx d path specs
         (checks @ [EvaluateSecret spec (case item of Inl err \<Rightarrow> Some err | Inr _ \<Rightarrow> None)])
     }
   }"

definition keychain_check :: "string \<Rightarrow> go_error + bool \<Rightarrow> check" where
  "keychain_check path r =
     (case r of Inl err \<Rightarrow> EvaluateKeychain path False (Some err) | Inr exists \<Rightarrow> EvaluateKeychain path exists None)"

definition declared_entries :: "topology \<Rightarrow> secret_spec list" where
  "declared_entries topo = filter (\<lambda>spec. sSource spec = User) (Entries (catalogue_of topo))"

definition secretChecks :: "'w ctx \<Rightarrow> 'w doctor \<Rightarrow> topology option \<Rightarrow> ('w, check list) io" where
  "secretChecks ctx d topology =
     (case topology of
        None \<Rightarrow> ret [mkCheck ''keychain'' Warn ''skipped because the topology check failed''
                      (''fix '' @ TopologyFile @ '', then run `lclaw doctor` again'')]
      | Some topo \<Rightarrow> do {
          r \<leftarrow> kcExists (drKeychain d) (tKeychainPath topo);
          if declared_entries topo = [] then ret [keychain_check (tKeychainPath topo) r]
          else if cStatus (keychain_check (tKeychainPath topo) r) = Fail then
            ret [keychain_check (tKeychainPath topo) r,
                 mkCheck ''secrets'' Warn ''skipped because the keychain check failed''
                   ''run `lclaw init`, then `lclaw doctor` again'']
          else declared_secrets_loop ctx d (tKeychainPath topo) (declared_entries topo)
                 [keychain_check (tKeychainPath topo) r]
        })"

definition machine_skipped :: check where
  "machine_skipped = mkCheck ''machine'' Warn ''skipped because the podman check failed''
     ''fix podman, then run `lclaw doctor` again''"

text \<open>The machine and, when it runs and the topology is usable, the networks.\<close>

definition machine_checks :: "'w ctx \<Rightarrow> 'w doctor \<Rightarrow> topology option \<Rightarrow> report \<Rightarrow> ('w, reported) io" where
  "machine_checks ctx d topology r = do {
     machines \<leftarrow> rtListMachines (drRuntime d);
     proceed (check_ctx ctx r (ret (Next ()))) (\<lambda>_.
       case machines of
         Inl err \<Rightarrow> ret (r @ [fail_check ''machine'' err], None)
       | Inr ms \<Rightarrow>
           (case EvaluateMachine ms of (machine, running) \<Rightarrow>
              if \<not> running \<or> topology = None then ret (r @ [machine], None)
              else do {
                present \<leftarrow> networksPresent ctx (drWorkloads d) Roles (\<lambda>_. False);
                proceed (check_ctx ctx (r @ [machine]) (ret (Next ()))) (\<lambda>_.
                  ret (case present of
                         Inl err \<Rightarrow> (r @ [machine, fail_check ''networks'' err], None)
                       | Inr up \<Rightarrow> (r @ machine # EvaluateNetworks (the topology) Roles up, None)))
              }))
   }"

definition RunDoctor :: "'w ctx \<Rightarrow> 'w doctor \<Rightarrow> string \<Rightarrow> ('w, reported) io" where
  "RunDoctor ctx d dir = do {
     fv \<leftarrow> emVersion (drEnvs d);
     proceed (check_ctx ctx [tool_check FloxRequirement fv] (ret (Next ()))) (\<lambda>_. do {
       pv \<leftarrow> rtVersion (drRuntime d);
       proceed (check_ctx ctx [tool_check FloxRequirement fv, tool_check PodmanRequirement pv] (ret (Next ()))) (\<lambda>_. do {
         scaffold \<leftarrow> scaffoldChecks d dir;
         secrets \<leftarrow> secretChecks ctx d (snd scaffold);
         let r = [tool_check FloxRequirement fv, tool_check PodmanRequirement pv] @ fst scaffold @ secrets;
         proceed (check_ctx ctx r (ret (Next ()))) (\<lambda>_.
           if cStatus (tool_check PodmanRequirement pv) = Fail then ret (r @ [machine_skipped], None)
           else machine_checks ctx d (snd scaffold) r)
       })
     })
   }"

section \<open>The logged use case\<close>

definition log_doctor :: "'w doctor \<Rightarrow> 'w logged doctor" where
  "log_doctor d =
     \<lparr>drRuntime = log_runtime (drRuntime d), drWorkloads = log_workloads (drWorkloads d),
      drEnvs = log_envs (drEnvs d), drScaffold = log_opener (drScaffold d),
      drTopology = log_loader (drTopology d), drKeychain = log_keychain (drKeychain d)\<rparr>"

lemma log_doctor_sel [simp]:
  "drRuntime (log_doctor d) = log_runtime (drRuntime d)" "drWorkloads (log_doctor d) = log_workloads (drWorkloads d)"
  "drEnvs (log_doctor d) = log_envs (drEnvs d)" "drScaffold (log_doctor d) = log_opener (drScaffold d)"
  "drTopology (log_doctor d) = log_loader (drTopology d)" "drKeychain (log_doctor d) = log_keychain (drKeychain d)"
  by (simp_all add: log_doctor_def)

section \<open>The declared secrets\<close>

definition all_pass :: "report \<Rightarrow> bool" where
  "all_pass r \<longleftrightarrow> (\<forall>c \<in> set r. cStatus c = Pass)"

lemma all_pass_simps [simp]:
  "all_pass []" "all_pass (c # r) \<longleftrightarrow> cStatus c = Pass \<and> all_pass r" "all_pass (r @ s) \<longleftrightarrow> all_pass r \<and> all_pass s"
  by (auto simp: all_pass_def)

lemma cStatus_mkCheck [simp]: "cStatus (mkCheck n st s h) = st"
  by (simp add: mkCheck_def)

definition described :: "string \<Rightarrow> secret_spec list \<Rightarrow> event list \<Rightarrow> bool" where
  "described path specs es \<longleftrightarrow> (\<forall>spec \<in> set specs. \<exists>it. EvDescribe path (sName spec) (Inr it) \<in> set es)"

text \<open>The loop describes every entry, or the context has ended.\<close>

lemma declared_secrets_run:
  assumes "sticky ctx"
    and "run_state (declared_secrets_loop (untap ctx) (log_doctor d) path specs checks) (w, tr) = (cs, (w', tr'))"
  shows "\<exists>es. tr' = tr @ es \<and> list_all reading_event es \<and>
    (ended ctx w' \<or> (all_pass cs \<longrightarrow> all_pass checks \<and> described path specs es))"
  using assms(2)
proof (induction specs arbitrary: checks w tr)
  case Nil
  then show ?case by (auto simp: described_def State_Monad.return_def)
next
  case (Cons spec specs)
  obtain c w1 where c: "run_state ctx w = (c, w1)" by fastforce
  show ?case
  proof (cases c)
    case (Some e)
    with Cons.prems c have "w' = w1 \<and> tr' = tr" by (simp add: State_Monad.return_def)
    moreover have "ended ctx w1" using assms(1) c Some unfolding sticky_def ended_def by blast
    ultimately show ?thesis by auto
  next
    case None
    obtain a w2 where a: "run_state (kcDescribe (drKeychain d) path (sName spec)) w1 = (a, w2)" by fastforce
    let ?c = "EvaluateSecret spec (case a of Inl err \<Rightarrow> Some err | Inr _ \<Rightarrow> None)"
    have "run_state (declared_secrets_loop (untap ctx) (log_doctor d) path specs (checks @ [?c]))
        (w2, tr @ [EvDescribe path (sName spec) a]) = (cs, (w', tr'))"
      using Cons.prems c None a by simp
    from Cons.IH [OF this] obtain es where es: "tr' = (tr @ [EvDescribe path (sName spec) a]) @ es"
      "list_all reading_event es" "ended ctx w' \<or> (all_pass cs \<longrightarrow> all_pass (checks @ [?c]) \<and> described path specs es)"
      by blast
    show ?thesis
    proof (intro exI conjI)
      show "tr' = tr @ EvDescribe path (sName spec) a # es" using es(1) by simp
      show "ended ctx w' \<or> (all_pass cs \<longrightarrow> all_pass checks \<and> described path (spec # specs) (EvDescribe path (sName spec) a # es))"
        using es(3) by (cases a) (auto simp: described_def EvaluateSecret_status)
    qed (use es(2) in \<open>auto simp: list_all_iff\<close>)
  qed
qed

definition secrets_checked :: "topology option \<Rightarrow> check list \<Rightarrow> event list \<Rightarrow> bool" where
  "secrets_checked topology cs es \<longleftrightarrow>
     (all_pass cs \<longrightarrow>
        (\<exists>topo. topology = Some topo \<and> EvExists (tKeychainPath topo) (Inr True) \<in> set es \<and>
           described (tKeychainPath topo) (declared_entries topo) es))"

lemma keychain_check_pass: "cStatus (keychain_check path r) = Pass \<longleftrightarrow> r = Inr True"
  by (cases r) (auto simp: keychain_check_def EvaluateKeychain_status)

lemma secretChecks_run:
  assumes "sticky ctx" and "run_state (secretChecks (untap ctx) (log_doctor d) topology) (w, tr) = (cs, (w', tr'))"
  shows "\<exists>es. tr' = tr @ es \<and> list_all reading_event es \<and> (ended ctx w' \<or> secrets_checked topology cs es)"
proof (cases topology)
  case None
  then show ?thesis using assms(2) by (auto simp: secretChecks_def secrets_checked_def State_Monad.return_def)
next
  case (Some topo)
  let ?path = "tKeychainPath topo"
  obtain r w1 where r: "run_state (kcExists (drKeychain d) ?path) w = (r, w1)" by fastforce
  let ?c = "keychain_check ?path r"
  show ?thesis
  proof (cases "declared_entries topo = [] \<or> cStatus ?c = Fail")
    case True
    with assms(2) r Some show ?thesis
      by (intro exI [of _ "[EvExists ?path r]"])
        (auto simp: secretChecks_def secrets_checked_def described_def keychain_check_pass State_Monad.return_def
          split: if_splits)
  next
    case False
    then have "run_state (declared_secrets_loop (untap ctx) (log_doctor d) ?path (declared_entries topo) [?c])
        (w1, tr @ [EvExists ?path r]) = (cs, (w', tr'))"
      using assms(2) r Some by (simp add: secretChecks_def)
    from declared_secrets_run [OF assms(1) this] Some show ?thesis
      by (fastforce simp: secrets_checked_def described_def keychain_check_pass)
  qed
qed

text \<open>The checks of the secrets, and then the context is asked.\<close>

lemma emits_secretChecks:
  assumes "sticky ctx" and cut: "\<And>cs es e. list_all reading_event es \<Longrightarrow> P (g cs, Some e) es"
    and full: "\<And>cs es. list_all reading_event es \<Longrightarrow> secrets_checked topology cs es \<Longrightarrow>
      emits (\<lambda>b fs. P b (es @ fs)) (k cs ())"
  shows "emits P (State_Monad.bind (secretChecks (untap ctx) (log_doctor d) topology)
    (\<lambda>cs. proceed (check_ctx (untap ctx) (g cs) (ret (Next ()))) (k cs)))"
proof (rule emitsI)
  fix w tr q w' tr'
  assume run: "run_state (State_Monad.bind (secretChecks (untap ctx) (log_doctor d) topology)
    (\<lambda>cs. proceed (check_ctx (untap ctx) (g cs) (ret (Next ()))) (k cs))) (w, tr) = (q, (w', tr'))"
  obtain cs w1 tr1 where m: "run_state (secretChecks (untap ctx) (log_doctor d) topology) (w, tr) = (cs, (w1, tr1))"
    by (metis prod.exhaust)
  obtain es where es: "tr1 = tr @ es" "list_all reading_event es" "ended ctx w1 \<or> secrets_checked topology cs es"
    using secretChecks_run [OF assms(1) m] by blast
  obtain c w2 where c: "run_state ctx w1 = (c, w2)" by fastforce
  show "\<exists>es. tr' = tr @ es \<and> P q es"
  proof (cases c)
    case (Some e)
    with run m c have "q = (g cs, Some e) \<and> tr' = tr1" by (simp add: proceed_def check_ctx_def State_Monad.return_def)
    with es cut show ?thesis by blast
  next
    case None
    with es c have checked: "secrets_checked topology cs es" by (simp add: ended_def)
    have "run_state (k cs ()) (w2, tr1) = (q, (w', tr'))"
      using run m c None by (simp add: proceed_def check_ctx_def)
    from emits_run [OF full [OF es(2) checked] this] es(1) show ?thesis by auto
  qed
qed

section \<open>Every run of doctor\<close>

text \<open>What a report of nothing but passes says about the host.\<close>

definition doctor_healthy :: "event list \<Rightarrow> bool" where
  "doctor_healthy es \<longleftrightarrow>
     (\<exists>fv pv fs topo. EvEnvVersion (Inr fv) \<in> set es \<and> AtLeast fv (rMin FloxRequirement) \<and>
        EvVersion (Inr pv) \<in> set es \<and> AtLeast pv (rMin PodmanRequirement) \<and>
        EvLoad fs (Inr topo) \<in> set es \<and> Validate topo (fsStat fs) = [] \<and>
        EvExists (tKeychainPath topo) (Inr True) \<in> set es \<and>
        described (tKeychainPath topo) (declared_entries topo) es \<and>
        (\<exists>ms. EvListMachines (Inr ms) \<in> set es \<and> MachineName \<in> mName ` set ms \<and>
           (snd (EvaluateMachine ms) \<longrightarrow>
              (\<forall>role \<in> set Roles. EvNetworkExists (NetworkName role) (Inr True) \<in> set es))))"

definition doctor_contract :: "reported \<Rightarrow> event list \<Rightarrow> bool" where
  "doctor_contract q es \<longleftrightarrow>
     list_all reading_event es \<and> (snd q = None \<and> all_pass (fst q) \<longrightarrow> doctor_healthy es)"

lemma doctor_contract_err [simp]: "doctor_contract (r, Some e) es \<longleftrightarrow> list_all reading_event es"
  by (simp add: doctor_contract_def)

lemma tool_check_pass: "cStatus (tool_check req r) = Pass \<longleftrightarrow> (\<exists>v. r = Inr v \<and> AtLeast v (rMin req))"
  by (cases r) (auto simp: tool_check_def EvaluateTool_status)

lemma tool_check_fail: "cStatus (tool_check req r) = Fail \<longleftrightarrow> cStatus (tool_check req r) \<noteq> Pass"
  by (cases r) (auto simp: tool_check_def EvaluateTool_status)

definition scaffold_checked :: "string \<Rightarrow> check list \<times> topology option \<Rightarrow> event list \<Rightarrow> bool" where
  "scaffold_checked dir q es \<longleftrightarrow> list_all scaffold_event es \<and>
     (all_pass (fst q) \<longrightarrow> (\<exists>fs topo. snd q = Some topo \<and> EvLoad fs (Inr topo) \<in> set es \<and> Validate topo (fsStat fs) = []))"

lemma topology_verdict_pass: "all_pass (topology_verdict topo findings) \<longleftrightarrow> findings = []"
  by (cases findings) (auto simp: topology_verdict_def)

lemma emits_scaffoldChecks: "emits (scaffold_checked dir) (scaffoldChecks (log_doctor d) dir)"
  unfolding scaffoldChecks_def log_doctor_sel log_files_sel
  by (intro emits_rules emits_ret)
    (auto simp: scaffold_checked_def scaffold_skipped_def topology_verdict_pass split: sum.splits)

definition machine_healthy :: "topology option \<Rightarrow> event list \<Rightarrow> bool" where
  "machine_healthy topology es \<longleftrightarrow>
     (\<exists>ms. EvListMachines (Inr ms) \<in> set es \<and> MachineName \<in> mName ` set ms \<and>
        (snd (EvaluateMachine ms) \<and> topology \<noteq> None \<longrightarrow>
           (\<forall>role \<in> set Roles. EvNetworkExists (NetworkName role) (Inr True) \<in> set es)))"

lemma EvaluateMachine_pass: "cStatus (fst (EvaluateMachine ms)) = Pass \<Longrightarrow> MachineName \<in> mName ` set ms"
  by (induction ms) (auto split: if_splits)

lemma network_check_status: "cStatus (network_check topo up role) = (if up (NetworkName role) then Pass else Warn)"
  by (simp add: network_check_def Let_def)

lemma EvaluateNetworks_pass: "all_pass (EvaluateNetworks topo roles up) \<Longrightarrow> role \<in> set roles \<Longrightarrow> up (NetworkName role)"
  by (auto simp: EvaluateNetworks_def all_pass_def network_check_status split: if_splits)

lemma emits_machine_checks:
  "emits (\<lambda>q es. list_all reading_event es \<and>
      (snd q = None \<and> all_pass (fst q) \<longrightarrow> all_pass r \<and> machine_healthy topology es))
    (machine_checks (untap ctx) (log_doctor d) topology r)"
  unfolding machine_checks_def log_doctor_sel log_runtime_sel
proof (intro emits_rules emits_ret, goal_cases)
  case (3 a ms machine running)
  then have "cStatus machine = Pass \<Longrightarrow> MachineName \<in> mName ` set ms"
    using EvaluateMachine_pass [of ms] by simp
  with 3 show ?case by (auto simp: machine_healthy_def)
next
  case (5 a ms machine running q es)
  then have named: "cStatus machine = Pass \<Longrightarrow> MachineName \<in> mName ` set ms"
    using EvaluateMachine_pass [of ms] by simp
  have read: "list_all reading_event (EvListMachines a # es @ [])"
    using networks_reading [OF 5(4)] by simp
  show ?case
  proof (cases q)
    case (Inr up)
    have "\<forall>role \<in> set Roles. EvNetworkExists (NetworkName role) (Inr True) \<in> set es"
      if "all_pass (EvaluateNetworks (the topology) Roles up)"
      using 5(4) EvaluateNetworks_pass [OF that] Inr unfolding networks_post_def network_answers_def
      by (metis (full_types) imageI)
    then have "machine_healthy topology (EvListMachines a # es @ [])"
      if "all_pass (EvaluateNetworks (the topology) Roles up)" and "cStatus machine = Pass"
      unfolding machine_healthy_def using that named 5(1) by (intro exI [of _ ms]) simp
    with Inr read show ?thesis by (simp only: sum.case fst_conv snd_conv all_pass_simps) blast
  qed (use read in simp)
qed (use networks_reading in \<open>auto\<close>)

lemma scaffold_checked_reading: "scaffold_checked dir q es \<Longrightarrow> list_all reading_event es"
  by (simp add: scaffold_checked_def scaffold_reading)

lemma emits_RunDoctor:
  assumes ctx: "sticky ctx"
  shows "emits doctor_contract (RunDoctor (untap ctx) (log_doctor d) dir)"
  unfolding RunDoctor_def log_doctor_sel log_files_sel log_runtime_sel Let_def
proof (intro emits_bind_tap emits_proceed_ctx, goal_cases)
  case (3 fv pv)
  let ?tools = "[tool_check FloxRequirement fv, tool_check PodmanRequirement pv]"
  show ?case
  proof (rule emits_bind [OF emits_scaffoldChecks], rule emits_secretChecks [OF ctx])
    fix scaffold es cs fs e
    assume "scaffold_checked dir scaffold es" and "list_all reading_event fs"
    then show "doctor_contract (?tools @ fst scaffold @ cs, Some e) (EvEnvVersion fv # EvVersion pv # es @ fs)"
      by (auto dest: scaffold_checked_reading)
  next
    fix scaffold es cs fs
    assume sc: "scaffold_checked dir scaffold es" and read: "list_all reading_event fs"
      and cs: "secrets_checked (snd scaffold) cs fs"
    let ?r = "?tools @ fst scaffold @ cs"
    have read': "list_all reading_event (EvEnvVersion fv # EvVersion pv # es @ fs)"
      using read scaffold_checked_reading [OF sc] by simp
    have healthy: "doctor_healthy (EvEnvVersion fv # EvVersion pv # es @ fs @ gs)"
      if ok: "all_pass ?r" and m: "machine_healthy (snd scaffold) gs" for gs
    proof -
      obtain fs' topo where topo: "snd scaffold = Some topo" "EvLoad fs' (Inr topo) \<in> set es" "Validate topo (fsStat fs') = []"
        using sc ok by (auto simp: scaffold_checked_def)
      moreover have "EvExists (tKeychainPath topo) (Inr True) \<in> set fs \<and> described (tKeychainPath topo) (declared_entries topo) fs"
        using cs ok topo(1) by (simp add: secrets_checked_def)
      moreover obtain v w where "fv = Inr v" "pv = Inr w" "AtLeast v (rMin FloxRequirement)" "AtLeast w (rMin PodmanRequirement)"
        using ok by (auto simp: tool_check_pass)
      moreover obtain ms where "EvListMachines (Inr ms) \<in> set gs" "MachineName \<in> mName ` set ms"
        "snd (EvaluateMachine ms) \<longrightarrow> (\<forall>role \<in> set Roles. EvNetworkExists (NetworkName role) (Inr True) \<in> set gs)"
        using m topo(1) by (auto simp: machine_healthy_def)
      ultimately show ?thesis
        unfolding doctor_healthy_def described_def
        by (intro exI [of _ v] exI [of _ w] exI [of _ fs'] exI [of _ topo] conjI exI [of _ ms]) auto
    qed
    show "emits (\<lambda>b gs. doctor_contract b (EvEnvVersion fv # EvVersion pv # es @ fs @ gs))
      (if cStatus (tool_check PodmanRequirement pv) = Fail then ret (?r @ [machine_skipped], None)
       else machine_checks (untap ctx) (log_doctor d) (snd scaffold) ?r)"
    proof (intro emits_if emits_ret)
      show "emits (\<lambda>b gs. doctor_contract b (EvEnvVersion fv # EvVersion pv # es @ fs @ gs))
          (machine_checks (untap ctx) (log_doctor d) (snd scaffold) ?r)"
        by (rule emits_conseq [OF emits_machine_checks]) (use read' healthy in \<open>auto simp: doctor_contract_def\<close>)
    qed (use read' in \<open>simp add: doctor_contract_def machine_skipped_def\<close>)
  qed
qed simp_all

section \<open>Logging and a run\<close>

lemma mirrors_declared_secrets_loop [mirror_rules]:
  "mirrors (declared_secrets_loop (untap ctx) (log_doctor d) p specs cs) (declared_secrets_loop ctx d p specs cs)"
proof (induction specs arbitrary: cs)
  case (Cons spec specs)
  show ?case unfolding declared_secrets_loop.simps log_doctor_sel by (intro mirror_rules Cons.IH)
qed (simp add: mirror_rules)

lemma mirrors_RunDoctor: "mirrors (RunDoctor (untap ctx) (log_doctor d) dir) (RunDoctor ctx d dir)"
  unfolding RunDoctor_def scaffoldChecks_def secretChecks_def machine_checks_def log_doctor_sel log_files_sel log_runtime_sel
    log_keychain_sel
  by (intro mirror_rules)

definition healthy_doctor :: "test_world doctor" where
  "healthy_doctor =
     \<lparr>drRuntime = fakeRuntime\<lparr>rtVersion := ret (Inr \<lparr>vMajor = 5, vMinor = 8, vPatch = 4, vRaw = ''5.8.4''\<rparr>)\<rparr>,
      drWorkloads = fakeWorkloads,
      drEnvs = \<lparr>emVersion = ret (Inr \<lparr>vMajor = 1, vMinor = 13, vPatch = 1, vRaw = ''1.13.1-g684cdfb''\<rparr>)\<rparr>,
      drScaffold = fakeScaffold, drTopology = fakeLoader, drKeychain = fakeKeychain\<rparr>"

lemma healthy_sel [simp]:
  "drWorkloads healthy_doctor = fakeWorkloads" "drKeychain healthy_doctor = fakeKeychain"
  "drScaffold healthy_doctor = fakeScaffold" "drTopology healthy_doctor = fakeLoader"
  "rtListMachines (drRuntime healthy_doctor) = rtListMachines fakeRuntime"
  by (simp_all add: healthy_doctor_def)

lemma healthy_tools:
  "run_state (emVersion (drEnvs healthy_doctor)) w = (Inr \<lparr>vMajor = 1, vMinor = 13, vPatch = 1, vRaw = ''1.13.1-g684cdfb''\<rparr>, w)"
  "run_state (rtVersion (drRuntime healthy_doctor)) w = (Inr \<lparr>vMajor = 5, vMinor = 8, vPatch = 4, vRaw = ''5.8.4''\<rparr>, w)"
  by (simp_all add: healthy_doctor_def)

lemma healthy_tool_checks:
  "cStatus (tool_check FloxRequirement (Inr \<lparr>vMajor = 1, vMinor = 13, vPatch = 1, vRaw = ''1.13.1-g684cdfb''\<rparr>)) = Pass"
  "cStatus (tool_check PodmanRequirement (Inr \<lparr>vMajor = 5, vMinor = 8, vPatch = 4, vRaw = ''5.8.4''\<rparr>)) = Pass"
  by (simp_all add: tool_check_def EvaluateTool_status FloxRequirement_def PodmanRequirement_def AtLeast_def
      zero_version_def)

lemma healthy_scaffold:
  "\<exists>cs. run_state (scaffoldChecks healthy_doctor ''/s'') w = ((cs, Some default_topology), w) \<and> length cs = 2 \<and> all_pass cs"
  by (simp add: scaffoldChecks_def fakeScaffold_def fakeLoader_def default_valid topology_verdict_def)

lemma healthy_secrets:
  "\<exists>cs. run_state (secretChecks (ret None) healthy_doctor (Some default_topology)) agent_world = (cs, agent_world) \<and>
     length cs = 2 \<and> all_pass cs"
proof -
  have "declared_entries default_topology = [user_spec ''anthropic-api-key'' [Services]]"
    by (simp add: declared_entries_def default_catalogue_of Entries_def default_catalogue_def)
  then show ?thesis
    by (simp add: secretChecks_def keychain_check_def EvaluateKeychain_status EvaluateSecret_status fakeKeychain_def world_defs)
qed

lemma healthy_machine:
  "\<exists>cs. run_state (machine_checks (ret None) healthy_doctor (Some default_topology) r) agent_world = ((r @ cs, None), agent_world) \<and>
     length cs = 4 \<and> all_pass cs"
  by (simp add: machine_checks_def fakeRuntime_def fakeWorkloads_def proceed_def check_ctx_def attempt_def Roles_def
      NetworkName_def EvaluateNetworks_def network_check_status world_defs)

lemma healthy_run:
  "\<exists>r. run_state (RunDoctor (ret None) healthy_doctor ''/s'') agent_world = ((r, None), agent_world) \<and>
     length r = 10 \<and> all_pass r"
proof -
  obtain cs where cs: "run_state (scaffoldChecks healthy_doctor ''/s'') agent_world = ((cs, Some default_topology), agent_world)"
    "length cs = 2" "all_pass cs"
    using healthy_scaffold by blast
  obtain ds where ds: "run_state (secretChecks (ret None) healthy_doctor (Some default_topology)) agent_world = (ds, agent_world)"
    "length ds = 2" "all_pass ds"
    using healthy_secrets by blast
  let ?r = "[tool_check FloxRequirement (Inr \<lparr>vMajor = 1, vMinor = 13, vPatch = 1, vRaw = ''1.13.1-g684cdfb''\<rparr>),
      tool_check PodmanRequirement (Inr \<lparr>vMajor = 5, vMinor = 8, vPatch = 4, vRaw = ''5.8.4''\<rparr>)] @ cs @ ds"
  obtain es where es: "run_state (machine_checks (ret None) healthy_doctor (Some default_topology) ?r) agent_world =
      ((?r @ es, None), agent_world)" "length es = 4" "all_pass es"
    using healthy_machine by blast
  have "run_state (RunDoctor (ret None) healthy_doctor ''/s'') agent_world = ((?r @ es, None), agent_world)"
    using es(1) by (simp add: RunDoctor_def healthy_tools healthy_tool_checks cs ds proceed_def check_ctx_def)
  then show ?thesis using cs ds es by (intro exI [of _ "?r @ es"]) (simp add: healthy_tool_checks)
qed

text \<open>
  C16: \<open>doctor\<close> only reads, and a clean bill of health is earned. Whatever the outside world
  answers, it writes nothing and reads no secret. When it returns no error and every check
  passes, then flox and podman have at least the required versions, the topology is valid,
  the keychain exists and has every declared secret, and there is a machine which, if it
  runs, has every zone's network.
\<close>

theorem Doctor_contract:
  assumes "sticky ctx"
  shows "emits doctor_contract (RunDoctor (untap ctx) (log_doctor d) dir)"
  using assms by (rule emits_RunDoctor)

theorem Doctor_contract_witness:
  "\<exists>r es. run_state (RunDoctor (untap (ret None)) (log_doctor healthy_doctor) ''/s'') (agent_world, []) =
       ((r, None), (agent_world, es)) \<and> length r = 10 \<and> all_pass r \<and> doctor_healthy es"
proof -
  obtain r where run: "run_state (RunDoctor (ret None) healthy_doctor ''/s'') agent_world = ((r, None), agent_world)"
    and r: "length r = 10" "all_pass r"
    using healthy_run by blast
  obtain es where es: "run_state (RunDoctor (untap (ret None)) (log_doctor healthy_doctor) ''/s'') (agent_world, []) =
      ((r, None), (agent_world, es))" "doctor_contract (r, None) es"
    using Doctor_contract [OF sticky_never] mirrors_RunDoctor run by (rule emits_mirrors)
  then have "doctor_healthy es" using r by (simp add: doctor_contract_def)
  with es r show ?thesis by blast
qed

end
