(* ===== verification/InitApp.thy ===== *)
theory InitApp
  imports DoctorApp
begin

text \<open>
  \<open>internal/app/init.go\<close>: writing the default files and creating the keychain. The
  callbacks that \<open>fs.WalkDir\<close> makes on the embedded default files, in their order, are the
  list \<open>inDefaults\<close>: a path, the error the walk reports about it, whether it is a
  directory, and what \<open>fs.ReadFile\<close> answers for it.
\<close>

section \<open>State\<close>

record walk_entry =
  wkPath :: string
  wkError :: "go_error option"
  wkDir :: bool
  wkData :: "go_error + string"

record 'w init_app =
  inDefaults :: "walk_entry list"
  inWriter :: "'w file_writer"
  inScaffold :: "'w dir_opener"
  inTopology :: "'w topology_loader"
  inKeychain :: "'w keychain"

record init_failure =
  ifPath :: string
  ifErr :: go_error

text \<open>\<open>KeychainUnset\<close> is the zero value, the empty string.\<close>

datatype keychain_state = KeychainUnset | KeychainCreated | KeychainSkipped | KeychainFailed

fun keychain_state_name :: "keychain_state \<Rightarrow> string" where
  "keychain_state_name KeychainUnset = []"
| "keychain_state_name KeychainCreated = ''created''"
| "keychain_state_name KeychainSkipped = ''skipped''"
| "keychain_state_name KeychainFailed = ''failed''"

record keychain_outcome =
  koPath :: string
  koState :: keychain_state
  koErr :: "go_error option"

record init_report =
  irDir :: string
  irWritten :: "string list"
  irSkipped :: "string list"
  irFailed :: "init_failure list"
  irKeychain :: keychain_outcome

definition init_ok :: "init_report \<Rightarrow> bool" where
  "init_ok r \<longleftrightarrow> length (irFailed r) = 0 \<and> koState (irKeychain r) \<noteq> KeychainFailed"

definition empty_report :: "string \<Rightarrow> init_report" where
  "empty_report dir =
     \<lparr>irDir = dir, irWritten = [], irSkipped = [], irFailed = [],
      irKeychain = \<lparr>koPath = [], koState = KeychainUnset, koErr = None\<rparr>\<rparr>"

section \<open>The keychain\<close>

definition wrap_init :: "string \<Rightarrow> go_error \<Rightarrow> go_error" where
  "wrap_init what err = Wrapf (''init: '' @ what) err []"

definition keychain_failed :: "string \<Rightarrow> go_error \<Rightarrow> keychain_outcome" where
  "keychain_failed path err = \<lparr>koPath = path, koState = KeychainFailed, koErr = Some err\<rparr>"

definition keychainStep :: "'w init_app \<Rightarrow> string \<Rightarrow> ('w, keychain_outcome) io" where
  "keychainStep i dir = do {
     opened \<leftarrow> doOpenDir (inScaffold i) dir;
     case opened of
       Inl err \<Rightarrow> ret (keychain_failed [] (wrap_init ''topology: '' err))
     | Inr fsys \<Rightarrow> do {
         loaded \<leftarrow> tlLoad (inTopology i) fsys;
         case loaded of
           Inl err \<Rightarrow> ret (keychain_failed [] (wrap_init ''topology: '' err))
         | Inr topo \<Rightarrow> do {
             found \<leftarrow> kcExists (inKeychain i) (tKeychainPath topo);
             case found of
               Inl err \<Rightarrow> ret (keychain_failed (tKeychainPath topo) (wrap_init ''keychain: '' err))
             | Inr exists \<Rightarrow>
                 if exists then ret \<lparr>koPath = tKeychainPath topo, koState = KeychainSkipped, koErr = None\<rparr>
                 else do {
                   created \<leftarrow> kcCreate (inKeychain i) (tKeychainPath topo);
                   ret (case created of
                          Some err \<Rightarrow> keychain_failed (tKeychainPath topo) (wrap_init ''keychain: '' err)
                        | None \<Rightarrow> \<lparr>koPath = tKeychainPath topo, koState = KeychainCreated, koErr = None\<rparr>)
                 }
           }
       }
   }"

section \<open>The files\<close>

text \<open>The walk stops at the first error a callback returns.\<close>

fun walk_loop :: "'w ctx \<Rightarrow> 'w init_app \<Rightarrow> string \<Rightarrow> bool \<Rightarrow> walk_entry list \<Rightarrow> init_report \<Rightarrow>
    ('w, init_report \<times> go_error option) io" where
  "walk_loop ctx i dir force [] r = ret (r, None)"
| "walk_loop ctx i dir force (d # ds) r =
     (case wkError d of
        Some err \<Rightarrow> ret (r, Some err)
      | None \<Rightarrow>
          if wkDir d then walk_loop ctx i dir force ds r
          else do {
            cancelled \<leftarrow> ctx;
            case cancelled of
              Some err \<Rightarrow> ret (r, Some err)
            | None \<Rightarrow>
                (case wkData d of
                   Inl err \<Rightarrow> ret (r, Some err)
                 | Inr data \<Rightarrow> do {
                     written \<leftarrow> fwWriteFile (inWriter i) (path_join dir (wkPath d)) data force;
                     walk_loop ctx i dir force ds
                       (case written of
                          None \<Rightarrow> r\<lparr>irWritten := irWritten r @ [wkPath d]\<rparr>
                        | Some err \<Rightarrow>
                            if errors_is err FsExist then r\<lparr>irSkipped := irSkipped r @ [wkPath d]\<rparr>
                            else r\<lparr>irFailed := irFailed r @ [\<lparr>ifPath = wkPath d, ifErr = err\<rparr>]\<rparr>)
                   })
          })"

definition RunInit :: "'w ctx \<Rightarrow> 'w init_app \<Rightarrow> string \<Rightarrow> bool \<Rightarrow> ('w, init_report \<times> go_error option) io" where
  "RunInit ctx i dir force = do {
     walked \<leftarrow> walk_loop ctx i dir force (inDefaults i) (empty_report dir);
     case walked of
       (r, Some err) \<Rightarrow> ret (r, Some (wrap_init [] err))
     | (r, None) \<Rightarrow> do {
         keychain \<leftarrow> keychainStep i dir;
         let r = r\<lparr>irKeychain := keychain\<rparr>;
         cancelled \<leftarrow> ctx;
         if cancelled \<noteq> None then do { err \<leftarrow> ctx; ret (r, err) }
         else ret (r, None)
       }
   }"

section \<open>The logged use case\<close>

definition log_init :: "'w init_app \<Rightarrow> 'w logged init_app" where
  "log_init i =
     \<lparr>inDefaults = inDefaults i, inWriter = log_writer (inWriter i), inScaffold = log_opener (inScaffold i),
      inTopology = log_loader (inTopology i), inKeychain = log_keychain (inKeychain i)\<rparr>"

lemma log_init_sel [simp]:
  "inDefaults (log_init i) = inDefaults i" "inWriter (log_init i) = log_writer (inWriter i)"
  "inScaffold (log_init i) = log_opener (inScaffold i)" "inTopology (log_init i) = log_loader (inTopology i)"
  "inKeychain (log_init i) = log_keychain (inKeychain i)"
  by (simp_all add: log_init_def)

section \<open>The course of a run\<close>

text \<open>One write per default file, in the order of the walk, and the list its path is reported in.\<close>

inductive visits :: "string \<Rightarrow> bool \<Rightarrow> walk_entry list \<Rightarrow> string list \<Rightarrow> string list \<Rightarrow> init_failure list \<Rightarrow>
    event list \<Rightarrow> bool" for dir :: string and force :: bool where
  visits_end: "visits dir force [] [] [] [] []"
| visits_dir: "visits dir force ds w s f es \<Longrightarrow> wkError d = None \<Longrightarrow> wkDir d \<Longrightarrow> visits dir force (d # ds) w s f es"
| visits_written: "visits dir force ds w s f es \<Longrightarrow> wkError d = None \<Longrightarrow> \<not> wkDir d \<Longrightarrow> wkData d = Inr data \<Longrightarrow>
    visits dir force (d # ds) (wkPath d # w) s f (EvWriteFile (path_join dir (wkPath d)) data force None # es)"
| visits_skipped: "visits dir force ds w s f es \<Longrightarrow> wkError d = None \<Longrightarrow> \<not> wkDir d \<Longrightarrow> wkData d = Inr data \<Longrightarrow>
    errors_is e FsExist \<Longrightarrow>
    visits dir force (d # ds) w (wkPath d # s) f (EvWriteFile (path_join dir (wkPath d)) data force (Some e) # es)"
| visits_failed: "visits dir force ds w s f es \<Longrightarrow> wkError d = None \<Longrightarrow> \<not> wkDir d \<Longrightarrow> wkData d = Inr data \<Longrightarrow>
    \<not> errors_is e FsExist \<Longrightarrow>
    visits dir force (d # ds) w s (\<lparr>ifPath = wkPath d, ifErr = e\<rparr> # f)
      (EvWriteFile (path_join dir (wkPath d)) data force (Some e) # es)"

text \<open>The keychain step: what it asked and did, and what it says about it.\<close>

inductive keychain_course :: "string \<Rightarrow> keychain_outcome \<Rightarrow> event list \<Rightarrow> bool" for dir :: string where
  course_not_opened: "keychain_course dir (keychain_failed [] (wrap_init ''topology: '' e)) [EvOpenDir dir (Inl e)]"
| course_not_loaded: "keychain_course dir (keychain_failed [] (wrap_init ''topology: '' e))
    [EvOpenDir dir (Inr fs), EvLoad fs (Inl e)]"
| course_unknown: "keychain_course dir (keychain_failed (tKeychainPath topo) (wrap_init ''keychain: '' e))
    [EvOpenDir dir (Inr fs), EvLoad fs (Inr topo), EvExists (tKeychainPath topo) (Inl e)]"
| course_exists: "keychain_course dir \<lparr>koPath = tKeychainPath topo, koState = KeychainSkipped, koErr = None\<rparr>
    [EvOpenDir dir (Inr fs), EvLoad fs (Inr topo), EvExists (tKeychainPath topo) (Inr True)]"
| course_created: "keychain_course dir \<lparr>koPath = tKeychainPath topo, koState = KeychainCreated, koErr = None\<rparr>
    [EvOpenDir dir (Inr fs), EvLoad fs (Inr topo), EvExists (tKeychainPath topo) (Inr False), EvCreate (tKeychainPath topo) None]"
| course_not_created: "keychain_course dir (keychain_failed (tKeychainPath topo) (wrap_init ''keychain: '' e))
    [EvOpenDir dir (Inr fs), EvLoad fs (Inr topo), EvExists (tKeychainPath topo) (Inr False), EvCreate (tKeychainPath topo) (Some e)]"

lemma emits_keychainStep: "emits (keychain_course dir) (keychainStep (log_init i) dir)"
  unfolding keychainStep_def log_init_sel log_files_sel log_keychain_sel
  by (intro emits_rules emits_ret) (auto intro: keychain_course.intros split: option.splits)

definition add_visits :: "init_report \<Rightarrow> string list \<Rightarrow> string list \<Rightarrow> init_failure list \<Rightarrow> init_report" where
  "add_visits r w s f =
     r\<lparr>irWritten := irWritten r @ w, irSkipped := irSkipped r @ s, irFailed := irFailed r @ f\<rparr>"

fun file_write :: "string \<Rightarrow> bool \<Rightarrow> walk_entry list \<Rightarrow> event \<Rightarrow> bool" where
  "file_write dir force ds (EvWriteFile f data ov _) \<longleftrightarrow>
     ov = force \<and> (\<exists>d \<in> set ds. \<not> wkDir d \<and> f = path_join dir (wkPath d) \<and> wkData d = Inr data)"
| "file_write dir force ds _ \<longleftrightarrow> False"

definition walk_post :: "string \<Rightarrow> bool \<Rightarrow> walk_entry list \<Rightarrow> init_report \<Rightarrow> init_report \<times> go_error option \<Rightarrow> event list \<Rightarrow> bool" where
  "walk_post dir force ds r q es \<longleftrightarrow>
     list_all (file_write dir force ds) es \<and>
     (snd q = None \<longrightarrow> (\<exists>w s f. visits dir force ds w s f es \<and> fst q = add_visits r w s f))"

lemma file_write_mono: "list_all (file_write dir force ds) es \<Longrightarrow> list_all (file_write dir force (d # ds)) es"
proof -
  have "file_write dir force ds e \<Longrightarrow> file_write dir force (d # ds) e" for e by (cases e) auto
  then show "list_all (file_write dir force ds) es \<Longrightarrow> list_all (file_write dir force (d # ds)) es"
    by (auto simp: list_all_iff)
qed

lemma emits_walk_loop: "emits (walk_post dir force ds r) (walk_loop (untap ctx) (log_init i) dir force ds r)"
proof (induction ds arbitrary: r)
  case Nil
  have "add_visits r [] [] [] = r" by (simp add: add_visits_def)
  then show ?case
    using visits_end [of dir force] by (auto simp: walk_post_def intro!: emits_ret exI [of _ "[]"])
next
  case (Cons d ds)
  have skip: "walk_post dir force (d # ds) r q es" if "walk_post dir force ds r q es" "wkError d = None" "wkDir d" for q es
    using that by (auto simp: walk_post_def file_write_mono intro: visits_dir)
  have wrote: "walk_post dir force (d # ds) r q (EvWriteFile (path_join dir (wkPath d)) data force a # es)"
    if post: "walk_post dir force ds
        (case a of None \<Rightarrow> r\<lparr>irWritten := irWritten r @ [wkPath d]\<rparr>
         | Some err \<Rightarrow> if errors_is err FsExist then r\<lparr>irSkipped := irSkipped r @ [wkPath d]\<rparr>
             else r\<lparr>irFailed := irFailed r @ [\<lparr>ifPath = wkPath d, ifErr = err\<rparr>]\<rparr>) q es"
      and d: "wkError d = None" "\<not> wkDir d" "wkData d = Inr data" for a data q es
  proof -
    let ?e = "EvWriteFile (path_join dir (wkPath d)) data force a"
    have "\<exists>w s f. visits dir force (d # ds) w s f (?e # es) \<and> fst q = add_visits r w s f" if fin: "snd q = None"
    proof (cases a)
      case None
      then obtain w s f where "visits dir force ds w s f es" "fst q = add_visits r (wkPath d # w) s f"
        using post fin by (auto simp: walk_post_def add_visits_def)
      with None d show ?thesis by (blast intro: visits_written)
    next
      case (Some e)
      then obtain w s f where v: "visits dir force ds w s f es" "fst q = (if errors_is e FsExist
          then add_visits r w (wkPath d # s) f else add_visits r w s (\<lparr>ifPath = wkPath d, ifErr = e\<rparr> # f))"
        using post fin by (auto simp: walk_post_def add_visits_def split: if_splits)
      with Some d show ?thesis by (cases "errors_is e FsExist") (auto intro: visits_skipped visits_failed)
    qed
    then show ?thesis using post d by (auto simp: walk_post_def file_write_mono)
  qed
  show ?case
    unfolding walk_loop.simps log_init_sel log_files_sel
    by (intro emits_rules emits_ret; (rule emits_conseq [OF Cons.IH])?)
      (simp_all add: skip wrote, simp_all add: walk_post_def)
qed

section \<open>What init promises\<close>

definition init_contract :: "string \<Rightarrow> bool \<Rightarrow> walk_entry list \<Rightarrow> init_report \<times> go_error option \<Rightarrow> event list \<Rightarrow> bool" where
  "init_contract dir force ds q es \<longleftrightarrow>
     (list_all (file_write dir force ds) es \<and> snd q \<noteq> None) \<or>
     (\<exists>w s f fs ko ks. es = fs @ ks \<and> visits dir force ds w s f fs \<and> keychain_course dir ko ks \<and>
        fst q = \<lparr>irDir = dir, irWritten = w, irSkipped = s, irFailed = f, irKeychain = ko\<rparr>)"

lemma init_contract_kept:
  assumes "walk_post dir force ds (empty_report dir) (r, None) fs" and "keychain_course dir ko ks"
  shows "init_contract dir force ds (r\<lparr>irKeychain := ko\<rparr>, err) (fs @ ks)"
proof -
  obtain w s f where "visits dir force ds w s f fs" "r = add_visits (empty_report dir) w s f"
    using assms(1) by (auto simp: walk_post_def)
  then show ?thesis
    using assms(2) unfolding init_contract_def
    by (intro disjI2 exI [of _ w] exI [of _ s] exI [of _ f] exI [of _ fs] exI [of _ ko] exI [of _ ks])
      (simp add: add_visits_def empty_report_def)
qed

lemma emits_RunInit:
  "emits (init_contract dir force (inDefaults i)) (RunInit (untap ctx) (log_init i) dir force)"
  unfolding RunInit_def log_init_sel Let_def
proof (rule emits_bind [OF emits_walk_loop])
  fix q fs
  assume walked: "walk_post dir force (inDefaults i) (empty_report dir) q fs"
  show "emits (\<lambda>b ks. init_contract dir force (inDefaults i) b (fs @ ks))
    (case q of
       (r, None) \<Rightarrow> keychainStep (log_init i) dir \<bind>
         (\<lambda>keychain. untap ctx \<bind>
           (\<lambda>cancelled. if cancelled \<noteq> None then untap ctx \<bind> (\<lambda>err. ret (r\<lparr>irKeychain := keychain\<rparr>, err))
                        else ret (r\<lparr>irKeychain := keychain\<rparr>, None)))
     | (r, Some err) \<Rightarrow> ret (r, Some (wrap_init [] err)))"
  proof (intro emits_case_prod emits_case_option emits_ret)
    fix r err
    assume "q = (r, err)" and "err = None"
    with walked have kept: "init_contract dir force (inDefaults i) (r\<lparr>irKeychain := ko\<rparr>, err') (fs @ ks)"
      if "keychain_course dir ko ks" for ko err' ks
      using init_contract_kept that by blast
    show "emits (\<lambda>b ks. init_contract dir force (inDefaults i) b (fs @ ks))
      (keychainStep (log_init i) dir \<bind>
         (\<lambda>keychain. untap ctx \<bind>
           (\<lambda>cancelled. if cancelled \<noteq> None then untap ctx \<bind> (\<lambda>err. ret (r\<lparr>irKeychain := keychain\<rparr>, err))
                        else ret (r\<lparr>irKeychain := keychain\<rparr>, None))))"
      by (rule emits_bind [OF emits_keychainStep], intro emits_rules emits_ret) (simp_all add: kept)
  qed (use walked in \<open>simp add: init_contract_def walk_post_def\<close>)
qed

lemma visits_writes: "visits dir force ds w s f es \<Longrightarrow> list_all (file_write dir force ds) es"
  by (induction rule: visits.induct) (auto intro: file_write_mono)

lemma visits_lists:
  "visits dir force ds w s f es \<Longrightarrow>
    mset (map wkPath (filter (\<lambda>d. \<not> wkDir d) ds)) = mset (w @ s @ map ifPath f)"
  by (induction rule: visits.induct) auto

lemma visits_present:
  "visits dir force ds w s [] es \<Longrightarrow> d \<in> set ds \<Longrightarrow> \<not> wkDir d \<Longrightarrow>
    \<exists>data a. EvWriteFile (path_join dir (wkPath d)) data force a \<in> set es \<and>
      (case a of None \<Rightarrow> True | Some e \<Rightarrow> errors_is e FsExist)"
  by (induction ds w s "[] :: init_failure list" es rule: visits.induct) fastforce+

text \<open>
  \<open>init\<close> visits every default file once, in order. A run either stops at an error of
  the walk, having written only default files to their place under the directory, or
  writes each file once, overwriting only under \<open>--force\<close>, lists its path as written,
  skipped or failed by the answer, and then does the keychain step; the keychain's outcome
  is what happened: not reachable, already there, created, or not created.
\<close>

theorem Init_contract:
  "emits (init_contract dir force (inDefaults i)) (RunInit (untap ctx) (log_init i) dir force)"
  by (rule emits_RunInit)

text \<open>
  Nothing is written but default files and a keychain that was seen to be absent; each
  default file that is not a directory is in exactly one list of the report; and when the
  report is fine, every default file and the keychain of the topology are there.
\<close>

definition init_sound :: "string \<Rightarrow> bool \<Rightarrow> walk_entry list \<Rightarrow> init_report \<times> go_error option \<Rightarrow> event list \<Rightarrow> bool" where
  "init_sound dir force ds q es \<longleftrightarrow>
     (\<forall>e \<in> set es. writes_event e \<longrightarrow> file_write dir force ds e \<or>
        (\<exists>p a. e = EvCreate p a \<and> EvExists p (Inr False) \<in> set es)) \<and>
     (\<forall>e \<in> set es. \<not> reads_value e) \<and>
     (snd q = None \<longrightarrow>
        mset (map wkPath (filter (\<lambda>d. \<not> wkDir d) ds)) =
          mset (irWritten (fst q) @ irSkipped (fst q) @ map ifPath (irFailed (fst q)))) \<and>
     (snd q = None \<and> init_ok (fst q) \<longrightarrow>
        (\<forall>d \<in> set ds. \<not> wkDir d \<longrightarrow>
           (\<exists>data a. EvWriteFile (path_join dir (wkPath d)) data force a \<in> set es \<and>
              (case a of None \<Rightarrow> True | Some e \<Rightarrow> errors_is e FsExist))) \<and>
        (\<exists>fs topo. EvLoad fs (Inr topo) \<in> set es \<and>
           (EvExists (tKeychainPath topo) (Inr True) \<in> set es \<or> EvCreate (tKeychainPath topo) None \<in> set es)))"

lemma file_write_reads: "file_write dir force ds e \<Longrightarrow> \<not> reads_value e"
  by (cases e) auto

lemma keychain_course_safe:
  "keychain_course dir ko ks \<Longrightarrow> e \<in> set ks \<Longrightarrow>
    (writes_event e \<longrightarrow> (\<exists>p a. e = EvCreate p a \<and> EvExists p (Inr False) \<in> set ks)) \<and> \<not> reads_value e"
  by (induction rule: keychain_course.induct) auto

lemma keychain_course_ok:
  "keychain_course dir ko ks \<Longrightarrow> koState ko \<noteq> KeychainFailed \<Longrightarrow>
    \<exists>fs topo. EvLoad fs (Inr topo) \<in> set ks \<and>
      (EvExists (tKeychainPath topo) (Inr True) \<in> set ks \<or> EvCreate (tKeychainPath topo) None \<in> set ks)"
  by (induction rule: keychain_course.induct) (auto simp: keychain_failed_def)

lemma init_contract_sound:
  assumes "init_contract dir force ds q es"
  shows "init_sound dir force ds q es"
  using assms unfolding init_contract_def
proof (elim disjE exE conjE)
  assume "list_all (file_write dir force ds) es" and "snd q \<noteq> None"
  then show ?thesis by (auto simp: init_sound_def list_all_iff file_write_reads)
next
  fix w s f fs ko ks
  assume es: "es = fs @ ks" and v: "visits dir force ds w s f fs" and k: "keychain_course dir ko ks"
    and q: "fst q = \<lparr>irDir = dir, irWritten = w, irSkipped = s, irFailed = f, irKeychain = ko\<rparr>"
  have writes: "\<forall>e \<in> set fs. file_write dir force ds e" using visits_writes [OF v] by (simp add: list_all_iff)
  show ?thesis
    unfolding init_sound_def
  proof (intro conjI impI)
    show "\<forall>e \<in> set es. writes_event e \<longrightarrow> file_write dir force ds e \<or>
        (\<exists>p a. e = EvCreate p a \<and> EvExists p (Inr False) \<in> set es)"
      using writes keychain_course_safe [OF k] unfolding es by auto
    show "\<forall>e \<in> set es. \<not> reads_value e"
      using writes file_write_reads keychain_course_safe [OF k] unfolding es by auto
    show "mset (map wkPath (filter (\<lambda>d. \<not> wkDir d) ds)) =
        mset (irWritten (fst q) @ irSkipped (fst q) @ map ifPath (irFailed (fst q)))"
      using visits_lists [OF v] by (simp add: q)
    assume "snd q = None \<and> init_ok (fst q)"
    then have ok: "f = []" "koState ko \<noteq> KeychainFailed" by (simp_all add: init_ok_def q)
    show "\<exists>fs topo. EvLoad fs (Inr topo) \<in> set es \<and>
        (EvExists (tKeychainPath topo) (Inr True) \<in> set es \<or> EvCreate (tKeychainPath topo) None \<in> set es)"
      using keychain_course_ok [OF k ok(2)] unfolding es by auto
    show "\<forall>d \<in> set ds. \<not> wkDir d \<longrightarrow>
        (\<exists>data a. EvWriteFile (path_join dir (wkPath d)) data force a \<in> set es \<and>
           (case a of None \<Rightarrow> True | Some e \<Rightarrow> errors_is e FsExist))"
      using visits_present [of dir force ds w s fs] v ok(1) unfolding es by fastforce
  qed
qed

text \<open>
  C17: \<open>init\<close> destroys nothing and its report is complete. Its only writes are default
  files, with leave to overwrite only under \<open>--force\<close>, and the creation of a keychain it
  saw to be absent, whatever \<open>--force\<close> says. Unless an error stops it, every default
  file is in exactly one list of the report; and when the report is fine, every default
  file and the keychain are there.
\<close>

theorem Init_sound:
  "emits (init_sound dir force (inDefaults i)) (RunInit (untap ctx) (log_init i) dir force)"
  by (rule emits_conseq [OF emits_RunInit]) (rule init_contract_sound)

end
