(* ===== verification/GoTime.thy ===== *)
theory GoTime
  imports Ports
begin

text \<open>
  \<open>time.ParseInLocation\<close> with the layout \<open>20060102150405\<close> in UTC, the one layout the
  program parses: the elements in turn, the first that does not fit is the error. A
  fraction may follow the seconds although the layout has none.
\<close>

definition compact_layout :: string where "compact_layout = ''20060102150405''"

text \<open>The quoting of parse errors: every byte outside printable ASCII in hexadecimal.\<close>

definition time_quote_char :: "char \<Rightarrow> string" where
  "time_quote_char c =
     (let n = (of_char c :: nat) in
      if 128 \<le> n \<or> n < 32 then [backslash, CHR ''x'', hex_digit (n div 16), hex_digit (n mod 16)]
      else if c = dquote \<or> c = backslash then [backslash, c] else [c])"

definition time_quote :: "string \<Rightarrow> string" where
  "time_quote s = [dquote] @ concat (map time_quote_char s) @ [dquote]"

definition cannot_parse :: "string \<Rightarrow> string \<Rightarrow> string \<Rightarrow> go_error" where
  "cannot_parse v hold elem =
     Plain (''parsing time '' @ time_quote v @ '' as '' @ time_quote compact_layout @
            '': cannot parse '' @ time_quote hold @ '' as '' @ time_quote elem)"

definition out_of_range :: "string \<Rightarrow> string \<Rightarrow> go_error" where
  "out_of_range v what = Plain (''parsing time '' @ time_quote v @ '': '' @ what @ '' out of range'')"

text \<open>One or two digits, exactly two when the element is fixed.\<close>

fun getnum :: "bool \<Rightarrow> string \<Rightarrow> (int \<times> string) option" where
  "getnum fixed [] = None"
| "getnum fixed [c] = (if \<not> is_digit c \<or> fixed then None else Some (int (digit_val c), []))"
| "getnum fixed (c # d # cs) =
     (if \<not> is_digit c then None
      else if \<not> is_digit d then (if fixed then None else Some (int (digit_val c), d # cs))
      else Some (int (digit_val c) * 10 + int (digit_val d), cs))"

definition time_elem :: "string \<Rightarrow> bool \<Rightarrow> string \<Rightarrow> (int \<Rightarrow> bool) \<Rightarrow> string \<Rightarrow> string \<Rightarrow> go_error + int \<times> string" where
  "time_elem v fixed elem ok what hold =
     (case getnum fixed hold of
        None \<Rightarrow> Inl (cannot_parse v hold elem)
      | Some (n, rest) \<Rightarrow> if ok n then Inr (n, rest) else Inl (out_of_range v what))"

definition time_year :: "string \<Rightarrow> go_error + int \<times> string" where
  "time_year v =
     (if length v < 4 \<or> \<not> list_all is_digit (take 4 v) then Inl (cannot_parse v v ''2006'')
      else Inr (int (digits_val (take 4 v)), drop 4 v))"

text \<open>A fraction of the second, to the nanosecond; further digits are read over.\<close>

definition time_fraction :: "string \<Rightarrow> int \<times> string" where
  "time_fraction s =
     (case s of
        c # d # cs \<Rightarrow>
          if (c = CHR ''.'' \<or> c = CHR '','') \<and> is_digit d
          then (let ds = takeWhile is_digit (d # cs); kept = take 9 ds in
                (int (digits_val kept) * 10 ^ (9 - length kept), drop (length ds) (d # cs)))
          else (0, s)
      | _ \<Rightarrow> (0, s))"

definition leap_year :: "int \<Rightarrow> bool" where
  "leap_year y \<longleftrightarrow> y mod 4 = 0 \<and> (y mod 100 \<noteq> 0 \<or> y mod 400 = 0)"

definition days_in :: "int \<Rightarrow> int \<Rightarrow> int" where
  "days_in m y =
     (if m = 2 then (if leap_year y then 29 else 28) else if m \<in> {4, 6, 9, 11} then 30 else 31)"

definition sum_bind :: "'e + 'a \<Rightarrow> ('a \<Rightarrow> 'e + 'b) \<Rightarrow> 'e + 'b" where
  "sum_bind r f = (case r of Inl e \<Rightarrow> Inl e | Inr x \<Rightarrow> f x)"

lemma sum_bind_simps [simp]: "sum_bind (Inl e) f = Inl e" "sum_bind (Inr x) f = f x"
  by (simp_all add: sum_bind_def)

definition parse_compact_time :: "string \<Rightarrow> go_error + gotime" where
  "parse_compact_time v =
     sum_bind (time_year v) (\<lambda>(y, s).
     sum_bind (time_elem v True ''01'' (\<lambda>n. 0 < n \<and> n \<le> 12) ''month'' s) (\<lambda>(mo, s).
     sum_bind (time_elem v True ''02'' (\<lambda>_. True) ''day'' s) (\<lambda>(d, s).
     sum_bind (time_elem v False ''15'' (\<lambda>n. n < 24) ''hour'' s) (\<lambda>(h, s).
     sum_bind (time_elem v True ''04'' (\<lambda>n. n < 60) ''minute'' s) (\<lambda>(mi, s).
     sum_bind (time_elem v True ''05'' (\<lambda>n. n < 60) ''second'' s) (\<lambda>(sec, s).
     let (ns, s) = time_fraction s in
     if s \<noteq> [] then Inl (Plain (''parsing time '' @ time_quote v @ '': extra text: '' @ time_quote s))
     else if d < 1 \<or> days_in mo y < d then Inl (out_of_range v ''day'')
     else Inr \<lparr>gtYear = y, gtMonth = mo, gtDay = d, gtHour = h, gtMinute = mi, gtSecond = sec, gtNano = ns\<rparr>))))))"

text \<open>The times the layout can render, and their rendering.\<close>

definition valid_time :: "gotime \<Rightarrow> bool" where
  "valid_time t \<longleftrightarrow> 0 \<le> gtYear t \<and> gtYear t \<le> 9999 \<and> 1 \<le> gtMonth t \<and> gtMonth t \<le> 12 \<and>
     1 \<le> gtDay t \<and> gtDay t \<le> days_in (gtMonth t) (gtYear t) \<and> 0 \<le> gtHour t \<and> gtHour t < 24 \<and>
     0 \<le> gtMinute t \<and> gtMinute t < 60 \<and> 0 \<le> gtSecond t \<and> gtSecond t < 60"

definition pad2 :: "int \<Rightarrow> string" where
  "pad2 n = [digit_char (nat n div 10), digit_char (nat n mod 10)]"

definition render_time :: "gotime \<Rightarrow> string" where
  "render_time t = pad2 (gtYear t div 100) @ pad2 (gtYear t mod 100) @ pad2 (gtMonth t) @ pad2 (gtDay t) @
     pad2 (gtHour t) @ pad2 (gtMinute t) @ pad2 (gtSecond t)"

lemma getnum_pad2 [simp]:
  assumes "0 \<le> n" and "n < 100" shows "getnum fixed (pad2 n @ s) = Some (n, s)"
proof -
  obtain k where n: "n = int k" using assms(1) by (rule nonneg_int_cases)
  then have "k div 10 < 10" using assms(2) by linarith
  then have "getnum fixed (pad2 n @ s) = Some (int (k div 10) * 10 + int (k mod 10), s)"
    by (simp add: pad2_def n)
  also have "int (k div 10) * 10 + int (k mod 10) = n" unfolding n by presburger
  finally show ?thesis .
qed

lemma getnum_pad2_end [simp]: "0 \<le> n \<Longrightarrow> n < 100 \<Longrightarrow> getnum fixed (pad2 n) = Some (n, [])"
  using getnum_pad2 [of n fixed "[]"] by simp

lemma time_elem_pad2 [simp]:
  "0 \<le> n \<Longrightarrow> n < 100 \<Longrightarrow> ok n \<Longrightarrow> time_elem v fixed elem ok what (pad2 n @ s) = Inr (n, s)"
  "0 \<le> n \<Longrightarrow> n < 100 \<Longrightarrow> ok n \<Longrightarrow> time_elem v fixed elem ok what (pad2 n) = Inr (n, [])"
  by (simp_all add: time_elem_def)

lemma pad2_facts: "0 \<le> n \<Longrightarrow> n < 100 \<Longrightarrow> list_all is_digit (pad2 n)" "length (pad2 n) = 2"
  "0 \<le> n \<Longrightarrow> n < 100 \<Longrightarrow> digits_val (pad2 n) = nat n"
  by (auto simp: pad2_def digits_val_def)

lemma digits_val_snoc: "digits_val (s @ [c]) = digits_val s * 10 + digit_val c"
  by (simp add: digits_val_def)

lemma digits_val_append: "digits_val (a @ b) = digits_val a * 10 ^ length b + digits_val b"
proof (induction b rule: rev_induct)
  case (snoc c b)
  have "digits_val (a @ b @ [c]) = digits_val (a @ b) * 10 + digit_val c"
    using digits_val_snoc [of "a @ b" c] by simp
  also have "\<dots> = digits_val a * 10 ^ length (b @ [c]) + digits_val (b @ [c])"
    unfolding snoc digits_val_snoc by (simp add: add_mult_distrib)
  finally show ?case .
qed (simp add: digits_val_def)

lemma time_year_pad2:
  assumes "0 \<le> y" and "y \<le> 9999"
  shows "time_year (pad2 (y div 100) @ pad2 (y mod 100) @ s) = Inr (y, s)"
proof -
  have q: "0 \<le> y div 100" "y div 100 < 100" "0 \<le> y mod 100" "y mod 100 < 100" using assms by auto
  let ?p = "pad2 (y div 100) @ pad2 (y mod 100)"
  have len: "length ?p = 4" by (simp add: pad2_facts)
  have "take 4 (?p @ s) = ?p" "drop 4 (?p @ s) = s" using len by simp_all
  moreover have "list_all is_digit ?p" using q by (simp add: pad2_facts)
  moreover have "int (digits_val ?p) = y"
    using q by (simp add: digits_val_append pad2_facts)
  ultimately show ?thesis using len by (simp add: time_year_def)
qed

lemma days_in_bounds: "d \<le> days_in m y \<Longrightarrow> d \<le> 31"
  by (auto simp: days_in_def split: if_splits)

lemma parse_render_time:
  assumes "valid_time t"
  shows "parse_compact_time (render_time t) = Inr (t\<lparr>gtNano := 0\<rparr>)"
proof -
  have "gtDay t \<le> 31" using assms days_in_bounds unfolding valid_time_def by blast
  moreover have "time_fraction [] = (0, [])" by (simp add: time_fraction_def)
  ultimately show ?thesis
    using assms time_year_pad2 [of "gtYear t"]
    by (cases t) (simp add: parse_compact_time_def render_time_def valid_time_def)
qed

end
