(* ===== verification/ExecAdapter.thy ===== *)
theory ExecAdapter
  imports Ports
begin

text \<open>
  \<open>internal/adapters/exec\<close>: the one way external commands run. \<open>runner.go\<close> is the
  interface, \<open>system.go\<close> its production form over \<open>os/exec\<close>, \<open>redact.go\<close> removes secrets
  from errors, \<open>fake.go\<close> is the scripted runner of the adapters' tests.
\<close>

section \<open>The runner\<close>

text \<open>Standard input is what the child can read: the content of the reader, or nothing.\<close>

record command =
  cmName :: string
  cmArgs :: "string list"
  cmStdin :: "string option"
  cmEnv :: "string list"
  cmSensitive :: bool

record cmd_result =
  coStdout :: string
  coStderr :: string

record 'w runner =
  rnRun :: "command \<Rightarrow> ('w, cmd_result \<times> go_error option) io"
  rnInteractive :: "command \<Rightarrow> ('w, go_error option) io"

section \<open>The operating system's runner\<close>

text \<open>
  What \<open>os/exec\<close> reports: the child exited with a status, or it could not run. The debug
  log is one more operation; an entry holds what the code passes to the logger, without
  the duration.
\<close>

datatype os_error = OsExit int | OsFailed go_error

datatype log_attr =
    LgName string | LgArgs "string list" | LgErr "os_error option" | LgSensitive | LgStderr string

record 'w os_exec =
  oxRun :: "string \<Rightarrow> string list \<Rightarrow> string option \<Rightarrow> string list option \<Rightarrow> ('w, cmd_result \<times> os_error option) io"
  oxTerminal :: "string \<Rightarrow> string list \<Rightarrow> string list option \<Rightarrow> ('w, os_error option) io"
  oxEnviron :: "('w, string list) io"
  oxLog :: "string \<Rightarrow> log_attr list \<Rightarrow> ('w, unit) io"

definition maxStderrTail :: nat where "maxStderrTail = 1024"

definition tail :: "string \<Rightarrow> string" where
  "tail s =
     (let s = trim_space s in
      if maxStderrTail < length s then drop (length s - maxStderrTail) s else s)"

text \<open>\<open>nil\<close> means that the child inherits the environment.\<close>

definition environ :: "'w os_exec \<Rightarrow> string list \<Rightarrow> ('w, string list option) io" where
  "environ os extra =
     (if extra = [] then ret None
      else do { inherited \<leftarrow> oxEnviron os; ret (Some (inherited @ extra)) })"

definition classify :: "'w ctx \<Rightarrow> string \<Rightarrow> os_error option \<Rightarrow> string \<Rightarrow> ('w, go_error option) io" where
  "classify ctx name err stderrTail =
     (case err of
        None \<Rightarrow> ret None
      | Some e \<Rightarrow> do {
          cancelled \<leftarrow> ctx;
          ret (Some (case cancelled of
                 Some ctxErr \<Rightarrow> Wrapf (name @ '': '') ctxErr []
               | None \<Rightarrow>
                   (case e of
                      OsExit code \<Rightarrow> ExitError code stderrTail
                    | OsFailed err \<Rightarrow> Wrapf (name @ '': '') err [])))
        })"

definition log_attrs :: "command \<Rightarrow> cmd_result \<Rightarrow> os_error option \<Rightarrow> log_attr list" where
  "log_attrs c res err =
     [LgName (cmName c), LgArgs (cmArgs c), LgErr err] @
     (if cmSensitive c then [LgSensitive] else [LgStderr (tail (coStderr res))])"

definition SystemRun :: "'w os_exec \<Rightarrow> 'w ctx \<Rightarrow> command \<Rightarrow> ('w, cmd_result \<times> go_error option) io" where
  "SystemRun os ctx c = do {
     env \<leftarrow> environ os (cmEnv c);
     (res, err) \<leftarrow> oxRun os (cmName c) (cmArgs c) (cmStdin c) env;
     _ \<leftarrow> oxLog os ''exec'' (log_attrs c res err);
     e \<leftarrow> classify ctx (cmName c) err (tail (coStderr res));
     ret (res, e)
   }"

definition SystemInteractive :: "'w os_exec \<Rightarrow> 'w ctx \<Rightarrow> command \<Rightarrow> ('w, go_error option) io" where
  "SystemInteractive os ctx c = do {
     env \<leftarrow> environ os (cmEnv c);
     err \<leftarrow> oxTerminal os (cmName c) (cmArgs c) env;
     _ \<leftarrow> oxLog os ''exec interactive'' [LgName (cmName c), LgArgs (cmArgs c), LgErr err];
     classify ctx (cmName c) err []
   }"

definition System :: "'w os_exec \<Rightarrow> 'w ctx \<Rightarrow> 'w runner" where
  "System os ctx = \<lparr>rnRun = SystemRun os ctx, rnInteractive = SystemInteractive os ctx\<rparr>"

section \<open>Redacting\<close>

definition FragmentLen :: nat where "FragmentLen = 16"

text \<open>Every window of \<open>FragmentLen\<close> characters.\<close>

definition windows :: "string \<Rightarrow> string list" where
  "windows s = map (\<lambda>i. take FragmentLen (drop i s)) [0 ..< length s + 1 - FragmentLen]"

definition fragmentSet :: "string \<Rightarrow> string set option" where
  "fragmentSet secret = (if length secret < FragmentLen then None else Some (set (windows secret)))"

definition carries :: "string \<Rightarrow> string \<Rightarrow> string set option \<Rightarrow> bool" where
  "carries line secret fragments =
     (case fragments of
        None \<Rightarrow> sublist secret line
      | Some fs \<Rightarrow> list_ex (\<lambda>w. w \<in> fs) (windows line))"

definition Redact :: "go_error \<Rightarrow> string \<Rightarrow> go_error" where
  "Redact err secret =
     (case as_exit err of
        None \<Rightarrow> err
      | Some (code, stderr) \<Rightarrow>
          if secret = [] \<or> stderr = [] then err
          else ExitError code (trim_space (join_with [newline]
                 (filter (\<lambda>l. \<not> carries l secret (fragmentSet secret)) (split_on newline stderr)))))"

section \<open>The scripted runner\<close>

record call =
  caName :: string
  caArgs :: "string list"
  caStdin :: string
  caEnv :: "string list"
  caSensitive :: bool
  caInteractive :: bool

record response =
  rpStdout :: string
  rpStderr :: string
  rpErr :: "go_error option"

record fake =
  fkResponses :: "string \<Rightarrow> response list option"
  fkCalls :: "call list"

definition NewFake :: fake where
  "NewFake = \<lparr>fkResponses = Map.empty, fkCalls = []\<rparr>"

definition key :: "string \<Rightarrow> string list \<Rightarrow> string" where
  "key name args = join_with '' '' (name # args)"

definition Script :: "string \<Rightarrow> string list \<Rightarrow> response list \<Rightarrow> fake \<Rightarrow> fake" where
  "Script name args rs f = f\<lparr>fkResponses := (fkResponses f)(key name args \<mapsto> rs)\<rparr>"

definition fake_next :: "command \<Rightarrow> (fake, go_error + response) io" where
  "fake_next c = State (\<lambda>f.
     let k = key (cmName c) (cmArgs c) in
     case fkResponses f k of
       None \<Rightarrow> (Inl (Plain (''exec.Fake: no response scripted for '' @ quote k)), f)
     | Some [] \<Rightarrow> (Inl (Plain (''exec.Fake: no response scripted for '' @ quote k)), f)
     | Some (r # rs) \<Rightarrow>
         (Inr r, if rs \<noteq> [] then f\<lparr>fkResponses := (fkResponses f)(k \<mapsto> rs)\<rparr> else f))"

definition record_call :: "call \<Rightarrow> (fake, unit) io" where
  "record_call c = State (\<lambda>f. ((), f\<lparr>fkCalls := fkCalls f @ [c]\<rparr>))"

definition empty_result :: cmd_result where
  "empty_result = \<lparr>coStdout = [], coStderr = []\<rparr>"

definition FakeRun :: "fake ctx \<Rightarrow> command \<Rightarrow> (fake, cmd_result \<times> go_error option) io" where
  "FakeRun ctx c = do {
     _ \<leftarrow> record_call \<lparr>caName = cmName c, caArgs = cmArgs c,
       caStdin = (case cmStdin c of None \<Rightarrow> [] | Some s \<Rightarrow> s), caEnv = cmEnv c,
       caSensitive = cmSensitive c, caInteractive = False\<rparr>;
     cancelled \<leftarrow> ctx;
     case cancelled of
       Some err \<Rightarrow> ret (empty_result, Some err)
     | None \<Rightarrow> do {
         r \<leftarrow> fake_next c;
         ret (case r of
                Inl err \<Rightarrow> (empty_result, Some err)
              | Inr r \<Rightarrow> (\<lparr>coStdout = rpStdout r, coStderr = rpStderr r\<rparr>, rpErr r))
       }
   }"

definition FakeInteractive :: "fake ctx \<Rightarrow> command \<Rightarrow> (fake, go_error option) io" where
  "FakeInteractive ctx c = do {
     _ \<leftarrow> record_call \<lparr>caName = cmName c, caArgs = cmArgs c, caStdin = [], caEnv = cmEnv c,
       caSensitive = False, caInteractive = True\<rparr>;
     cancelled \<leftarrow> ctx;
     case cancelled of
       Some err \<Rightarrow> ret (Some err)
     | None \<Rightarrow> do {
         r \<leftarrow> fake_next c;
         ret (case r of Inl err \<Rightarrow> Some err | Inr r \<Rightarrow> rpErr r)
       }
   }"

definition Fake :: "fake ctx \<Rightarrow> fake runner" where
  "Fake ctx = \<lparr>rnRun = FakeRun ctx, rnInteractive = FakeInteractive ctx\<rparr>"

section \<open>A sensitive command is never logged\<close>

definition log_os :: "'w os_exec \<Rightarrow> ('w \<times> (string \<times> log_attr list) list) os_exec" where
  "log_os os =
     \<lparr>oxRun = (\<lambda>n a i e. untap (oxRun os n a i e)), oxTerminal = (\<lambda>n a e. untap (oxTerminal os n a e)),
      oxEnviron = untap (oxEnviron os), oxLog = (\<lambda>m attrs. tap (\<lambda>_. (m, attrs)) (oxLog os m attrs))\<rparr>"

lemma log_os_sel [simp]:
  "oxRun (log_os os) n a i e = untap (oxRun os n a i e)"
  "oxTerminal (log_os os) n a e = untap (oxTerminal os n a e)"
  "oxLog (log_os os) m as = tap (\<lambda>_. (m, as)) (oxLog os m as)"
  by (simp_all add: log_os_def)

text \<open>What may be logged of a command's output: the tail of its stderr, unless it is sensitive.\<close>

definition may_log :: "command \<Rightarrow> log_attr \<Rightarrow> bool" where
  "may_log c a \<longleftrightarrow>
     (case a of LgName n \<Rightarrow> n = cmName c | LgArgs as \<Rightarrow> as = cmArgs c | LgErr _ \<Rightarrow> True
      | LgSensitive \<Rightarrow> cmSensitive c | LgStderr t \<Rightarrow> \<not> cmSensitive c \<and> length t \<le> maxStderrTail)"

definition log_entry :: "command \<Rightarrow> string \<times> log_attr list \<Rightarrow> bool" where
  "log_entry c e \<longleftrightarrow> list_all (may_log c) (snd e)"

definition terminal_entry :: "command \<Rightarrow> string \<times> log_attr list \<Rightarrow> bool" where
  "terminal_entry c e \<longleftrightarrow> log_entry c e \<and> (\<forall>t. LgStderr t \<notin> set (snd e))"

lemma tail_bounds:
  "length (tail s) \<le> maxStderrTail" "suffix (tail s) (trim_space s)"
  "length (trim_space s) \<le> maxStderrTail \<Longrightarrow> tail s = trim_space s"
  by (auto simp: tail_def Let_def suffix_drop)

lemma logs_environ [io_rules]: "logs A (environ (log_os os) extra)"
  unfolding environ_def log_os_def by (auto intro!: io_rules)

lemma logs_classify [io_rules]: "logs A (classify (untap ctx) n e t)"
  unfolding classify_def by (intro io_rules)

text \<open>
  Values stay out of the log. Whatever a command prints, the log gets its name, its
  arguments and its status, and the tail of at most 1024 bytes of its stderr only when the
  command is not sensitive; an interactive command never has output logged.
\<close>

theorem System_logs:
  "logs (log_entry c) (SystemRun (log_os os) (untap ctx) c) \<and>
   logs (terminal_entry c) (SystemInteractive (log_os os) (untap ctx) c)"
proof
  show "logs (log_entry c) (SystemRun (log_os os) (untap ctx) c)"
    unfolding SystemRun_def log_os_sel
    by (intro io_rules) (auto simp: log_entry_def log_attrs_def may_log_def tail_bounds)
  show "logs (terminal_entry c) (SystemInteractive (log_os os) (untap ctx) c)"
    unfolding SystemInteractive_def log_os_sel
    by (intro io_rules) (auto simp: terminal_entry_def log_entry_def may_log_def)
qed

section \<open>Redacting removes every fragment\<close>

lemma windows_iff: "w \<in> set (windows s) \<longleftrightarrow> length w = FragmentLen \<and> sublist w s"
proof
  assume "w \<in> set (windows s)"
  then obtain i where "i < length s + 1 - FragmentLen" and w: "w = take FragmentLen (drop i s)"
    by (auto simp: windows_def)
  then have "length w = FragmentLen" by simp
  moreover have "sublist w s" unfolding w by (metis append_take_drop_id sublist_appendI)
  ultimately show "length w = FragmentLen \<and> sublist w s" by simp
next
  assume w: "length w = FragmentLen \<and> sublist w s"
  then obtain p q where s: "s = p @ w @ q" by (auto simp: sublist_def)
  then have "w = take FragmentLen (drop (length p) s)" and "length p < length s + 1 - FragmentLen"
    using w by simp_all
  then show "w \<in> set (windows s)" unfolding windows_def by auto
qed

text \<open>Part of a secret is in a text: a fragment of it, or all of it when it is shorter.\<close>

definition leaks :: "string \<Rightarrow> string \<Rightarrow> bool" where
  "leaks secret text \<longleftrightarrow>
     (if length secret < FragmentLen then sublist secret text
      else (\<exists>f. length f = FragmentLen \<and> sublist f secret \<and> sublist f text))"

lemma carries_leaks: "carries line secret (fragmentSet secret) \<longleftrightarrow> leaks secret line"
  unfolding carries_def fragmentSet_def leaks_def by (auto simp: list_ex_iff windows_iff)

lemma sublist_between:
  assumes "sublist f (a @ c # b)" and "c \<notin> set f" shows "sublist f a \<or> sublist f b"
proof (cases "f = []")
  case False
  with assms show ?thesis
    by (auto simp: sublist_append sublist_Cons_right prefix_Cons Cons_prefix_Cons)
qed simp

lemma sublist_join:
  "sublist f (join_with [c] ls) \<Longrightarrow> c \<notin> set f \<Longrightarrow> f \<noteq> [] \<Longrightarrow> \<exists>l \<in> set ls. sublist f l"
proof (induction ls rule: induct_list012)
  case (3 x y ls)
  then show ?case using sublist_between [of f x c "join_with [c] (y # ls)"] by auto
qed auto

text \<open>
  Redacting works line by line, so what it can promise of a secret with line breaks is about
  the fragments that have none; of a secret on one line those are all.
\<close>

definition line_leaks :: "string \<Rightarrow> string \<Rightarrow> bool" where
  "line_leaks secret text \<longleftrightarrow>
     (\<exists>f. f \<noteq> [] \<and> length f = min FragmentLen (length secret) \<and> newline \<notin> set f \<and> sublist f secret \<and> sublist f text)"

lemma sublist_whole: "sublist f s \<Longrightarrow> length s \<le> length f \<Longrightarrow> f = s"
  by (auto simp: sublist_def)

lemma line_leaks_leaks: "line_leaks secret text \<Longrightarrow> leaks secret text"
proof -
  assume "line_leaks secret text"
  then obtain f where f: "length f = min FragmentLen (length secret)" "sublist f secret" "sublist f text"
    unfolding line_leaks_def by blast
  show "leaks secret text"
  proof (cases "length secret < FragmentLen")
    case True
    then have "f = secret" using f(1) by (intro sublist_whole f) simp
    with True f(3) show ?thesis by (simp add: leaks_def)
  next
    case False
    then have "length f = FragmentLen" using f(1) by simp
    with False f(2,3) show ?thesis unfolding leaks_def by (simp only: if_False) blast
  qed
qed

lemma leaks_line_leaks:
  assumes "newline \<notin> set secret" and "secret \<noteq> []" shows "leaks secret text = line_leaks secret text"
proof
  assume l: "leaks secret text"
  show "line_leaks secret text"
  proof (cases "length secret < FragmentLen")
    case True
    with l have "sublist secret text" by (simp add: leaks_def)
    with True assms show ?thesis unfolding line_leaks_def by (intro exI [of _ secret]) simp
  next
    case False
    with l obtain f where f: "length f = FragmentLen" "sublist f secret" "sublist f text" by (auto simp: leaks_def)
    moreover from f(2) have "newline \<notin> set f" using assms(1) set_mono_sublist by blast
    moreover have "f \<noteq> []" using f(1) by (auto simp: FragmentLen_def)
    ultimately show ?thesis
      using False unfolding line_leaks_def by (intro exI [of _ f]) simp
  qed
qed (rule line_leaks_leaks)

lemma line_leaks_lines:
  assumes "line_leaks secret (trim_space (join_with [newline] ls))"
  shows "\<exists>l \<in> set ls. line_leaks secret l"
proof -
  obtain f where f: "f \<noteq> []" "length f = min FragmentLen (length secret)" "newline \<notin> set f" "sublist f secret"
    and "sublist f (trim_space (join_with [newline] ls))"
    using assms unfolding line_leaks_def by blast
  then have "sublist f (join_with [newline] ls)" by (blast intro: sublist_order.order_trans sublist_trim_space)
  then obtain l where "l \<in> set ls" "sublist f l" using sublist_join f(1,3) by blast
  with f show ?thesis unfolding line_leaks_def by blast
qed

lemma leaks_lines:
  assumes "leaks secret (trim_space (join_with [newline] ls))" and "newline \<notin> set secret" and "secret \<noteq> []"
  shows "\<exists>l \<in> set ls. leaks secret l"
  using assms(1) line_leaks_lines unfolding leaks_line_leaks [OF assms(2,3)] by blast

lemma Redact_line_free:
  assumes "as_exit (Redact err secret) = Some (code, t)"
  shows "\<not> line_leaks secret t"
proof -
  obtain t' where old: "as_exit err = Some (code, t')"
    using assms by (auto simp: Redact_def split: option.splits prod.splits if_splits)
  show ?thesis
  proof (cases "secret = [] \<or> t' = []")
    case True
    then have "secret = [] \<or> t = []" using assms old by (auto simp: Redact_def)
    then show ?thesis by (auto simp: line_leaks_def)
  next
    case False
    let ?kept = "filter (\<lambda>l. \<not> carries l secret (fragmentSet secret)) (split_on newline t')"
    have t: "t = trim_space (join_with [newline] ?kept)" using assms old False by (simp add: Redact_def)
    show ?thesis
    proof
      assume "line_leaks secret t"
      then obtain l where "l \<in> set ?kept" "leaks secret l"
        using line_leaks_lines [of secret ?kept] line_leaks_leaks unfolding t by blast
      then show False by (simp add: carries_leaks)
    qed
  qed
qed

lemma Redact_leak_free:
  assumes "newline \<notin> set secret" and "secret \<noteq> []" and "as_exit (Redact err secret) = Some (code, t)"
  shows "\<not> leaks secret t"
  using Redact_line_free [OF assms(3)] leaks_line_leaks [OF assms(1,2)] by simp

text \<open>A value echoed with its own line breaks is kept, when every line of it is short.\<close>

lemma Redact_across_lines:
  "Redact (ExitError 1 (''12345678'' @ [newline] @ ''abcdefgh'')) (''12345678'' @ [newline] @ ''abcdefgh'') =
     ExitError 1 (''12345678'' @ [newline] @ ''abcdefgh'')"
  by code_simp

text \<open>
  C30: redacting. Of any secret, what is left of an exit error's stderr holds no fragment of
  \<open>FragmentLen\<close> characters without a line break, and not the whole of a shorter secret
  without one; so of a secret on one line it holds no fragment at all. The exit status is
  kept, and an error that is no exit error passes through untouched.
\<close>

theorem Redact_clean:
  "(case as_exit (Redact err secret) of
       None \<Rightarrow> as_exit err = None \<and> Redact err secret = err
     | Some (code, t) \<Rightarrow>
         \<not> line_leaks secret t \<and> (newline \<notin> set secret \<and> secret \<noteq> [] \<longrightarrow> \<not> leaks secret t) \<and>
         map_option fst (as_exit err) = Some code)"
proof (cases "as_exit (Redact err secret)")
  case None
  then show ?thesis by (auto simp: Redact_def split: option.splits prod.splits if_splits)
next
  case (Some p)
  then obtain code t where p: "as_exit (Redact err secret) = Some (code, t)" by (cases p) simp
  then have "map_option fst (as_exit err) = Some code"
    by (auto simp: Redact_def split: option.splits prod.splits if_splits)
  with p Redact_line_free [OF p] Redact_leak_free [OF _ _ p] show ?thesis by auto
qed

theorem Redact_clean_witness:
  "Redact (ExitError 1 (''bad'' @ [newline] @ ''-X 6162636465666768696a'')) ''6162636465666768'' = ExitError 1 ''bad'' \<and>
   \<not> leaks ''6162636465666768'' ''bad''"
proof
  show run: "Redact (ExitError 1 (''bad'' @ [newline] @ ''-X 6162636465666768696a'')) ''6162636465666768'' = ExitError 1 ''bad''"
    by code_simp
  have "newline \<notin> set ''6162636465666768''" "''6162636465666768'' \<noteq> []" by (simp_all add: newline_def)
  with Redact_clean [of "ExitError 1 (''bad'' @ [newline] @ ''-X 6162636465666768696a'')" "''6162636465666768''", unfolded run]
  show "\<not> leaks ''6162636465666768'' ''bad''" by simp
qed

section \<open>The scripted runner answers in order\<close>

fun run_times :: "nat \<Rightarrow> fake ctx \<Rightarrow> command \<Rightarrow> (fake, (cmd_result \<times> go_error option) list) io" where
  "run_times 0 ctx c = ret []"
| "run_times (Suc n) ctx c = do { r \<leftarrow> FakeRun ctx c; rs \<leftarrow> run_times n ctx c; ret (r # rs) }"

definition answer :: "response \<Rightarrow> cmd_result \<times> go_error option" where
  "answer r = (\<lparr>coStdout = rpStdout r, coStderr = rpStderr r\<rparr>, rpErr r)"

text \<open>The first \<open>n\<close> answers of a script: its responses in order, the last one repeated.\<close>

definition scripted :: "nat \<Rightarrow> response list \<Rightarrow> (cmd_result \<times> go_error option) list" where
  "scripted n rs = map (\<lambda>i. answer (rs ! min i (length rs - 1))) [0 ..< n]"

lemma scripted_Suc:
  "scripted (Suc n) (r # rs) = answer r # scripted n (if rs = [] then [r] else rs)"
  unfolding scripted_def by (rule nth_equalityI) (auto simp: nth_Cons min_def simp del: upt_Suc split: nat.splits)

lemma run_scripted:
  "fkResponses f (key (cmName c) (cmArgs c)) = Some (r # rs) \<Longrightarrow>
    fst (run_state (run_times n (ret None) c) f) = scripted n (r # rs) \<and>
    length (fkCalls (snd (run_state (run_times n (ret None) c) f))) = length (fkCalls f) + n"
proof (induction n arbitrary: f r rs)
  case (Suc n)
  let ?k = "key (cmName c) (cmArgs c)"
  let ?c = "\<lparr>caName = cmName c, caArgs = cmArgs c, caStdin = (case cmStdin c of None \<Rightarrow> [] | Some s \<Rightarrow> s),
    caEnv = cmEnv c, caSensitive = cmSensitive c, caInteractive = False\<rparr>"
  let ?f = "f\<lparr>fkCalls := fkCalls f @ [?c], fkResponses := (fkResponses f)(?k \<mapsto> (if rs = [] then [r] else rs))\<rparr>"
  have step: "run_state (FakeRun (ret None) c) f = (answer r, ?f)"
    using Suc.prems by (cases f) (auto simp: FakeRun_def record_call_def fake_next_def answer_def Let_def
        State_Monad.return_def fun_upd_idem)
  obtain r' rs' where follow: "(if rs = [] then [r] else rs) = r' # rs'" by (cases rs) auto
  have "fkResponses ?f ?k = Some (r' # rs')" by (simp add: follow)
  from Suc.IH [OF this] show ?case
    by (auto simp: step scripted_Suc follow split: prod.splits)
qed (simp add: scripted_def State_Monad.return_def)

text \<open>
  The scripted runner tells the script. With responses scripted for an argument
  list, any number of runs of it get the responses in order, the last one repeated, and
  every run is recorded; without a script a run is an error that names the command.
\<close>

definition tells_script :: "fake \<Rightarrow> command \<Rightarrow> nat \<Rightarrow> bool" where
  "tells_script f c n \<longleftrightarrow>
     (case fkResponses f (key (cmName c) (cmArgs c)) of
        Some (r # rs) \<Rightarrow>
          fst (run_state (run_times n (ret None) c) f) = scripted n (r # rs) \<and>
          length (fkCalls (snd (run_state (run_times n (ret None) c) f))) = length (fkCalls f) + n
      | _ \<Rightarrow> \<exists>e. snd (fst (run_state (FakeRun (ret None) c) f)) = Some e)"

theorem Fake_tells_script: "tells_script f c n"
proof (cases "fkResponses f (key (cmName c) (cmArgs c))")
  case None
  then show ?thesis
    by (simp add: tells_script_def FakeRun_def record_call_def fake_next_def State_Monad.return_def)
next
  case (Some rs)
  then show ?thesis
    using run_scripted [of f c]
    by (cases rs) (simp_all add: tells_script_def FakeRun_def record_call_def fake_next_def State_Monad.return_def)
qed

end
