(* ===== verification/KeychainParse.thy ===== *)
theory KeychainParse
  imports GoTime ExecAdapter Encodings SecretSpecs
begin

text \<open>
  \<open>internal/adapters/keychain/parse.go\<close>: what the adapter reads from the output of the
  \<open>security\<close> tool, and how it removes password lines from an error.
\<close>

section \<open>The password line\<close>

text \<open>The text of \<open>%#U\<close> for one byte, and the errors of \<open>hex.DecodeString\<close>.\<close>

definition utf8_char :: "char \<Rightarrow> string" where
  "utf8_char c =
     (let n = byte_of c in
      if n < 128 then [c] else [char_of (192 + n div 64), char_of (128 + n mod 64)])"

definition printable_latin :: "char \<Rightarrow> bool" where
  "printable_latin c \<longleftrightarrow>
     (let n = byte_of c in (32 \<le> n \<and> n < 127) \<or> (161 \<le> n \<and> n \<noteq> 173))"

definition hash_u :: "char \<Rightarrow> string" where
  "hash_u c =
     (let up = (\<lambda>d. to_upper (hex_digit d)); n = byte_of c in
      ''U+00'' @ [up (n div 16), up (n mod 16)] @
      (if printable_latin c then '' '' @ [CHR 0x27] @ utf8_char c @ [CHR 0x27] else []))"

fun hex_error :: "string \<Rightarrow> go_error" where
  "hex_error [] = Plain ''encoding/hex: odd length hex string''"
| "hex_error [a] =
     (if hex_val a = None then Plain (''encoding/hex: invalid byte: '' @ hash_u a)
      else Plain ''encoding/hex: odd length hex string'')"
| "hex_error (a # b # cs) =
     (if hex_val a = None then Plain (''encoding/hex: invalid byte: '' @ hash_u a)
      else if hex_val b = None then Plain (''encoding/hex: invalid byte: '' @ hash_u b)
      else hex_error cs)"

definition password_prefix :: string where "password_prefix = ''password: ''"

text \<open>The rest of the password line: hexadecimal, quoted, or empty.\<close>

definition password_value :: "string \<Rightarrow> go_error + string" where
  "password_value rest =
     (if prefix ''0x'' rest then
        (let h = fst (cut_at (CHR '' '') (drop 2 rest)) in
         case hex_decode h of
           None \<Rightarrow> Inl (Wrapf ''decode hexadecimal password: '' (hex_error h) [])
         | Some v \<Rightarrow> Inr v)
      else if prefix [dquote] rest then
        (let inner = tl rest in
         if dquote \<notin> set inner then Inl (Plain ''unterminated quoted password'')
         else Inr (rev (tl (dropWhile (\<lambda>c. c \<noteq> dquote) (rev inner)))))
      else Inr [])"

fun password_lines :: "string list \<Rightarrow> go_error + string" where
  "password_lines [] = Inl (Plain ''no password line in security output'')"
| "password_lines (l # ls) =
     (if prefix password_prefix l then password_value (drop (length password_prefix) l)
      else password_lines ls)"

definition parsePassword :: "string \<Rightarrow> go_error + string" where
  "parsePassword stderr = password_lines (split_on newline stderr)"

definition stripPassword :: "string \<Rightarrow> string" where
  "stripPassword s =
     trim_space (join_with [newline]
       (filter (\<lambda>l. \<not> prefix ''password:'' (trim_space l)) (split_on newline s)))"

section \<open>The attributes\<close>

text \<open>White space and word characters of the regular expression \<open>attrLine\<close>.\<close>

definition re_space :: "char \<Rightarrow> bool" where
  "re_space c \<longleftrightarrow> c \<in> {CHR 0x20, CHR 0x09, CHR 0x0A, CHR 0x0C, CHR 0x0D}"

definition re_word :: "char \<Rightarrow> bool" where
  "re_word c \<longleftrightarrow> is_digit c \<or> is_lower c \<or> is_upper c \<or> c = CHR ''_''"

text \<open>
  \<open>attrLine.FindStringSubmatch\<close>: the attribute and the rendering of its value. Every part
  of the pattern ends at a character the part cannot contain, so there is one match.
\<close>

definition attrLine :: "string \<Rightarrow> (string \<times> string) option" where
  "attrLine line =
     (case dropWhile re_space line of
        q # s \<Rightarrow>
          (let name = takeWhile re_word s; t = dropWhile re_word s in
           if q \<noteq> dquote \<or> name = [] \<or> \<not> prefix [dquote, CHR ''<''] t then None
           else
             (let u = drop 2 t; ty = takeWhile re_word u; r = dropWhile re_word u in
              if ty = [] \<or> \<not> prefix ''>='' r \<or> newline \<in> set (drop 2 r) then None
              else Some (name, drop 2 r)))
      | [] \<Rightarrow> None)"

definition unquote :: "string \<Rightarrow> string" where
  "unquote s =
     (if 2 \<le> length s \<and> prefix [dquote] s \<and> suffix [dquote] s then butlast (tl s) else [])"

definition nul_escape :: string where "nul_escape = [backslash] @ ''000''"

definition parseTime :: "string \<Rightarrow> go_error + gotime" where
  "parseTime s =
     (case cut_at dquote s of
        (_, q, ok) \<Rightarrow>
          if \<not> ok then Inl (Plain (''no quoted time in '' @ quote s))
          else
            (let q = fst (cut_at dquote q)
             in parse_compact_time (trim_suffix ''Z'' (trim_suffix nul_escape q))))"

definition attr_step :: "secret_item \<Rightarrow> string \<times> string \<Rightarrow> go_error + secret_item" where
  "attr_step item m =
     (if fst m = ''icmt'' then
        Inr (case ParseSource (unquote (snd m)) of None \<Rightarrow> item | Some src \<Rightarrow> item\<lparr>siSource := src\<rparr>)
      else if fst m = ''cdat'' then
        (case parseTime (snd m) of
           Inl err \<Rightarrow> Inl (Wrapf ''parse cdat: '' err [])
         | Inr t \<Rightarrow> Inr (item\<lparr>siCreated := t\<rparr>))
      else if fst m = ''mdat'' then
        (case parseTime (snd m) of
           Inl err \<Rightarrow> Inl (Wrapf ''parse mdat: '' err [])
         | Inr t \<Rightarrow> Inr (item\<lparr>siModified := t\<rparr>))
      else Inr item)"

fun attr_loop :: "string list \<Rightarrow> secret_item \<Rightarrow> go_error + secret_item" where
  "attr_loop [] item = Inr item"
| "attr_loop (l # ls) item =
     (case attrLine l of
        None \<Rightarrow> attr_loop ls item
      | Some m \<Rightarrow> sum_bind (attr_step item m) (attr_loop ls))"

definition new_item :: secret_item where
  "new_item = \<lparr>siName = [], siSource = User, siCreated = zero_time, siModified = zero_time\<rparr>"

definition parseAttributes :: "string \<Rightarrow> go_error + secret_item" where
  "parseAttributes stdout = attr_loop (split_on newline stdout) new_item"

section \<open>Reading what the tool prints\<close>

text \<open>
  How \<open>security find-generic-password -g\<close> prints a value: quoted and unescaped when every
  byte is printable ASCII and no backslash, in hexadecimal followed by a rendering for
  the eye otherwise, nothing when it is empty.
\<close>

definition quotable :: "char \<Rightarrow> bool" where
  "quotable c \<longleftrightarrow> 32 \<le> byte_of c \<and> byte_of c < 127 \<and> c \<noteq> backslash"

definition upper_hex :: "string \<Rightarrow> string" where
  "upper_hex v = map to_upper (hex_encode v)"

definition prints :: "string \<Rightarrow> string \<Rightarrow> bool" where
  "prints v line \<longleftrightarrow>
     (if v = [] then line = password_prefix
      else if list_all quotable v then line = password_prefix @ [dquote] @ v @ [dquote]
      else (\<exists>shown. newline \<notin> set shown \<and> line = password_prefix @ ''0x'' @ upper_hex v @ '' '' @ shown))"

text \<open>An output whose first password line renders the value.\<close>

definition shown_by :: "string \<Rightarrow> string \<Rightarrow> bool" where
  "shown_by v out \<longleftrightarrow>
     (\<exists>before line after. split_on newline out = before @ line # after \<and> prints v line \<and>
        list_all (\<lambda>l. \<not> prefix password_prefix l) before)"

lemma to_upper_digit: "d < 16 \<Longrightarrow> hex_val (to_upper (hex_digit d)) = Some d"
proof -
  assume "d < 16"
  then consider "d < 10" | "10 \<le> d" "d < 16" by linarith
  then show ?thesis
  proof cases
    case 1
    then have "\<not> is_lower (hex_digit d)" "is_digit (hex_digit d)"
      by (auto simp: hex_digit_def is_lower_of_char char_ranges byte_of_char_of)
    with 1 show ?thesis by (simp add: to_upper_def hex_val_digit)
  next
    case 2
    then have l: "is_lower (hex_digit d)" and b: "byte_of (hex_digit d) = 87 + d"
      by (auto simp: hex_digit_def is_lower_of_char byte_of_char_of)
    then have "to_upper (hex_digit d) = char_of (55 + d)" by (simp add: to_upper_def flip: byte_of_def)
    with 2 show ?thesis by (simp add: hex_val_def is_digit_of_char byte_of_char_of less_eq_char_def byte_of_def)
  qed
qed

lemma upper_hex_cases:
  "upper_hex [] = []"
  "upper_hex (c # v) = to_upper (hex_digit (byte_of c div 16)) # to_upper (hex_digit (byte_of c mod 16)) # upper_hex v"
  by (simp_all add: upper_hex_def hex_encode_def)

lemma hex_decode_upper: "hex_decode (upper_hex v) = Some v"
  by (induction v) (simp_all add: upper_hex_cases to_upper_digit)

lemma hex_decode_no_space: "hex_decode h = Some v \<Longrightarrow> CHR '' '' \<notin> set h"
  by (induction h arbitrary: v rule: hex_decode.induct)
    (auto split: option.splits simp: hex_val_def is_digit_def less_eq_char_def)

lemma password_value_hex: "password_value (''0x'' @ upper_hex v @ '' '' @ shown) = Inr v"
proof -
  have "CHR '' '' \<notin> set (upper_hex v)" using hex_decode_upper by (rule hex_decode_no_space)
  then have "cut_at (CHR '' '') (upper_hex v @ '' '' @ shown) = (upper_hex v, shown, True)"
    using cut_at_append by simp
  then show ?thesis by (simp add: password_value_def hex_decode_upper)
qed

lemma password_value_quoted: "password_value ([dquote] @ v @ [dquote]) = Inr v"
  by (simp add: password_value_def dquote_def)

lemma prints_value: "prints v line \<Longrightarrow> prefix password_prefix line \<and> password_value (drop (length password_prefix) line) = Inr v"
  using password_value_hex [of v] password_value_quoted [of v]
  by (auto simp: prints_def split: if_splits) (simp add: password_value_def)

lemma password_lines_skip:
  "list_all (\<lambda>l. \<not> prefix password_prefix l) ls \<Longrightarrow> password_lines (ls @ ms) = password_lines ms"
  by (induction ls) simp_all

lemma shown_parse: "shown_by v out \<Longrightarrow> parsePassword out = Inr v"
  by (auto simp: shown_by_def parsePassword_def password_lines_skip prints_value)

text \<open>
  C27: the value comes back. Whatever the tool prints around it, the first password line
  gives back exactly the bytes of the value, whether it was printed quoted (also with
  quotes inside), in hexadecimal or empty.
\<close>

theorem parsePassword_shows: "shown_by v out \<Longrightarrow> parsePassword out = Inr v"
  by (rule shown_parse)

theorem parsePassword_shows_witness:
  "parsePassword (''keychain: x'' @ newline # ''password: '' @ [dquote] @ ''a'' @ [dquote] @ ''b'' @ [dquote]) =
    Inr (''a'' @ [dquote] @ ''b'')"
proof (rule parsePassword_shows)
  let ?v = "''a'' @ [dquote] @ ''b''"
  have "prints ?v (password_prefix @ [dquote] @ ?v @ [dquote])"
    by (simp add: prints_def quotable_def byte_of_def dquote_def backslash_def)
  then show "shown_by ?v (''keychain: x'' @ newline # ''password: '' @ [dquote] @ ''a'' @ [dquote] @ ''b'' @ [dquote])"
    unfolding shown_by_def
    by (intro exI [of _ "[''keychain: x'']"] exI [of _ "password_prefix @ [dquote] @ ?v @ [dquote]"] exI [of _ "[]"])
      (simp add: password_prefix_def newline_def dquote_def)
qed

section \<open>Attribute lines\<close>

lemma attrLine_line:
  assumes "list_all re_space sp" and "list_all re_word name" and "name \<noteq> []"
    and "list_all re_word ty" and "ty \<noteq> []" and "newline \<notin> set v"
  shows "attrLine (sp @ [dquote] @ name @ [dquote, CHR ''<''] @ ty @ ''>='' @ v) = Some (name, v)"
proof -
  have sep: "\<not> re_space dquote" "\<not> re_word dquote" "\<not> re_word (CHR ''>'')"
    by (auto simp: re_space_def re_word_def dquote_def is_digit_def is_lower_def is_upper_def)
  have stop: "takeWhile P (a @ c # b) = a" "dropWhile P (a @ c # b) = c # b"
    if "list_all P a" "\<not> P c" for P and a b and c :: char
    using that by (auto simp: list_all_iff takeWhile_append dropWhile_append takeWhile_eq_all_conv)
  have "dropWhile re_space (sp @ dquote # name @ dquote # CHR ''<'' # ty @ ''>='' @ v) =
      dquote # name @ dquote # CHR ''<'' # ty @ ''>='' @ v"
    using assms(1) sep(1) by (rule stop(2))
  then show ?thesis
    using assms stop [OF assms(2) sep(2)] stop [OF assms(4) sep(3)] by (simp add: attrLine_def)
qed

text \<open>The rendering of a moment: hexadecimal first, then the quoted text with a trailing NUL.\<close>

definition timedate :: "gotime \<Rightarrow> string" where
  "timedate t =
     (let text = render_time t @ ''Z'' in
      ''0x'' @ upper_hex (text @ [CHR 0x00]) @ ''  '' @ [dquote] @ text @ nul_escape @ [dquote])"

lemma render_time_digits: "valid_time t \<Longrightarrow> list_all is_digit (render_time t)"
proof -
  assume t: "valid_time t"
  then have "gtDay t \<le> 31" using days_in_bounds unfolding valid_time_def by blast
  moreover have "0 \<le> gtYear t div 100" "gtYear t div 100 < 100" using t by (auto simp: valid_time_def)
  ultimately show ?thesis using t by (simp add: render_time_def valid_time_def pad2_facts)
qed

lemma upper_hex_chars: "list_all (\<lambda>c. hex_val c \<noteq> None) (upper_hex v)"
  by (induction v) (simp_all add: upper_hex_cases to_upper_digit byte_of_less less_mult_imp_div_less)

lemma parseTime_timedate:
  assumes "valid_time t" shows "parseTime (timedate t) = Inr (t\<lparr>gtNano := 0\<rparr>)"
proof -
  let ?text = "render_time t @ ''Z''"
  let ?hex = "''0x'' @ upper_hex (?text @ [CHR 0x00]) @ ''  ''"
  have "hex_val dquote = None" by (simp add: hex_val_def dquote_def is_digit_def)
  then have "dquote \<notin> set (upper_hex (?text @ [CHR 0x00]))"
    using upper_hex_chars by (force simp: list_all_iff)
  then have hex: "dquote \<notin> set ?hex" by (simp add: dquote_def)
  have digits: "list_all is_digit (render_time t)" using assms by (rule render_time_digits)
  have "\<not> is_digit dquote" by (simp add: dquote_def is_digit_def)
  then have inner: "dquote \<notin> set (?text @ nul_escape)"
    using digits by (auto simp: list_all_iff nul_escape_def dquote_def backslash_def)
  have "cut_at dquote (timedate t) = (?hex, (?text @ nul_escape) @ [dquote], True)"
    using cut_at_append [OF hex, of "(?text @ nul_escape) @ [dquote]"] by (simp add: timedate_def Let_def)
  moreover have "fst (cut_at dquote ((?text @ nul_escape) @ [dquote])) = ?text @ nul_escape"
    using cut_at_append [OF inner, of "[]"] by simp
  moreover have "trim_suffix ''Z'' (trim_suffix nul_escape (?text @ nul_escape)) = render_time t"
    by (simp only: trim_suffix_append)
  ultimately show ?thesis using parse_render_time [OF assms] by (simp add: parseTime_def)
qed

text \<open>How \<open>security\<close> prints the three attributes the adapter reads, in this order.\<close>

definition attr_line :: "string \<Rightarrow> string \<Rightarrow> string \<Rightarrow> string" where
  "attr_line name ty v = ''    '' @ [dquote] @ name @ [dquote, CHR ''<''] @ ty @ ''>='' @ v"

definition item_lines :: "gotime \<Rightarrow> string \<Rightarrow> gotime \<Rightarrow> string list" where
  "item_lines created comment modified =
     [attr_line ''cdat'' ''timedate'' (timedate created),
      attr_line ''icmt'' ''blob'' ([dquote] @ comment @ [dquote]),
      attr_line ''mdat'' ''timedate'' (timedate modified)]"

text \<open>A line the adapter has no use for: no attribute, or another one.\<close>

definition idle_line :: "string \<Rightarrow> bool" where
  "idle_line l \<longleftrightarrow>
     (case attrLine l of None \<Rightarrow> True | Some (n, _) \<Rightarrow> n \<notin> {''icmt'', ''cdat'', ''mdat''})"

lemma attr_loop_idle [simp]: "idle_line l \<Longrightarrow> attr_loop (l # ls) item = attr_loop ls item"
  by (auto simp: idle_line_def attr_step_def split: option.splits)

lemma attr_loop_filter: "attr_loop ls item = attr_loop (filter (\<lambda>l. \<not> idle_line l) ls) item"
proof (induction ls arbitrary: item)
  case (Cons l ls)
  show ?case
  proof (cases "idle_line l")
    case False
    have "sum_bind r (attr_loop ls) = sum_bind r (attr_loop (filter (\<lambda>l. \<not> idle_line l) ls))" for r :: "go_error + secret_item"
      by (cases r) (simp_all add: Cons.IH)
    with False show ?thesis by (simp split: option.splits add: Cons.IH)
  next
    case True
    then show ?thesis using attr_loop_idle [of l ls item] by (simp add: Cons.IH del: attr_loop.simps)
  qed
qed simp

lemma unquote_quoted: "unquote ([dquote] @ s @ [dquote]) = s"
  by (simp add: unquote_def suffix_def)

lemma newline_timedate: "valid_time t \<Longrightarrow> newline \<notin> set (timedate t)"
proof -
  assume t: "valid_time t"
  have "hex_val newline = None" "\<not> is_digit newline" by (simp_all add: hex_val_def newline_def is_digit_def)
  moreover have "newline \<notin> set nul_escape" "newline \<noteq> dquote"
    by (simp_all add: nul_escape_def newline_def backslash_def dquote_def)
  ultimately show ?thesis
    using upper_hex_chars [of "render_time t @ ''Z'' @ [CHR 0x00]"] render_time_digits [OF t]
    unfolding timedate_def Let_def by (auto simp: list_all_iff) (simp_all add: newline_def)
qed

lemma attrLine_attr_line:
  "name \<in> {''cdat'', ''icmt'', ''mdat''} \<Longrightarrow> ty \<in> {''timedate'', ''blob''} \<Longrightarrow> newline \<notin> set v \<Longrightarrow>
    attrLine (attr_line name ty v) = Some (name, v)"
  unfolding attr_line_def
  by (rule attrLine_line) (auto simp: re_space_def re_word_def is_lower_def)

lemma attrs_item_lines:
  assumes "valid_time c" and "valid_time m" and "newline \<notin> set comment"
  shows "attr_loop (item_lines c comment m) new_item =
    Inr \<lparr>siName = [], siSource = (case ParseSource comment of None \<Rightarrow> User | Some src \<Rightarrow> src),
         siCreated = c\<lparr>gtNano := 0\<rparr>, siModified = m\<lparr>gtNano := 0\<rparr>\<rparr>"
proof -
  have "newline \<notin> set ([dquote] @ comment @ [dquote])" using assms(3) by (simp add: newline_def dquote_def)
  then have lines: "attrLine (attr_line ''cdat'' ''timedate'' (timedate c)) = Some (''cdat'', timedate c)"
    "attrLine (attr_line ''icmt'' ''blob'' ([dquote] @ comment @ [dquote])) = Some (''icmt'', [dquote] @ comment @ [dquote])"
    "attrLine (attr_line ''mdat'' ''timedate'' (timedate m)) = Some (''mdat'', timedate m)"
    using assms(1,2) by (simp_all add: attrLine_attr_line newline_timedate)
  show ?thesis
    unfolding item_lines_def attr_loop.simps lines
    by (simp add: attr_step_def parseTime_timedate [OF assms(1)] parseTime_timedate [OF assms(2)]
        unquote_quoted [simplified] new_item_def split: option.split)
qed

text \<open>
  C28: the attributes come back. When the lines of the output that carry the source comment
  and the two moments are as the tool prints them, whatever else it prints, the item has
  those moments to the second and that source, or \<open>user\<close> for a comment that is no source.
\<close>

theorem parseAttributes_item:
  assumes "filter (\<lambda>l. \<not> idle_line l) (split_on newline out) = item_lines created comment modified"
    and "valid_time created" and "valid_time modified" and "newline \<notin> set comment"
  shows "parseAttributes out =
    Inr \<lparr>siName = [], siSource = (case ParseSource comment of None \<Rightarrow> User | Some src \<Rightarrow> src),
         siCreated = created\<lparr>gtNano := 0\<rparr>, siModified = modified\<lparr>gtNano := 0\<rparr>\<rparr>"
  unfolding parseAttributes_def
  by (subst attr_loop_filter) (simp add: assms attrs_item_lines)

definition sample_time :: gotime where
  "sample_time = \<lparr>gtYear = 2026, gtMonth = 9, gtDay = 21, gtHour = 7, gtMinute = 3, gtSecond = 45, gtNano = 0\<rparr>"

definition sample_output :: string where
  "sample_output = join_with [newline]
     ([''keychain: x'', attr_line ''acct'' ''blob'' ([dquote] @ ''a'' @ [dquote])] @
      item_lines sample_time ''minted'' sample_time @ [[]])"

theorem parseAttributes_item_witness:
  "parseAttributes sample_output =
    Inr \<lparr>siName = [], siSource = Minted, siCreated = sample_time, siModified = sample_time\<rparr>"
proof -
  have f: "filter (\<lambda>l. \<not> idle_line l) (split_on newline sample_output) = item_lines sample_time ''minted'' sample_time"
    by code_simp
  have v: "valid_time sample_time" and n: "newline \<notin> set ''minted''" by code_simp+
  have "ParseSource ''minted'' = Some Minted" by code_simp
  with parseAttributes_item [OF f v v n] show ?thesis by (simp add: sample_time_def)
qed

section \<open>Stripping passwords\<close>

lemma trim_left_Cons: "trim_left (c # s) = (if is_space c then trim_left s else c # s)"
  by (simp add: trim_left_def)

lemma trim_right_snoc: "trim_right (s @ [c]) = (if is_space c then trim_right s else s @ [c])"
  by (simp add: trim_right_def)

lemma trim_space_Cons: "is_space c \<Longrightarrow> trim_space (c # s) = trim_space s"
  by (simp add: trim_space_def trim_left_Cons)

lemma trim_space_snoc:
  assumes "is_space c" shows "trim_space (s @ [c]) = trim_space s"
proof (cases "\<forall>x \<in> set s. is_space x")
  case True
  then have "trim_left (s @ [c]) = []" "trim_left s = []"
    using assms by (simp_all add: trim_left_def dropWhile_append3)
  then show ?thesis by (simp add: trim_space_def)
next
  case False
  then have "trim_left (s @ [c]) = trim_left s @ [c]"
    unfolding trim_left_def by (auto intro: dropWhile_append1)
  with assms show ?thesis by (simp add: trim_space_def trim_right_snoc)
qed

text \<open>Trimming a text trims its lines and drops blank ones.\<close>

lemma lines_trim_left:
  "l \<in> set (split_on newline (trim_left s)) \<Longrightarrow> \<exists>k \<in> set (split_on newline s). trim_space k = trim_space l"
proof (induction s)
  case (Cons c s)
  show ?case
  proof (cases "is_space c")
    case True
    then obtain k where k: "k \<in> set (split_on newline s)" "trim_space k = trim_space l"
      using Cons by (auto simp: trim_left_Cons)
    obtain y ys where "split_on newline s = y # ys" by (cases "split_on newline s") auto
    with k True show ?thesis by (auto simp: trim_space_Cons)
  next
    case False
    with Cons.prems show ?thesis by (auto simp: trim_left_Cons)
  qed
qed (auto simp: trim_left_def)

lemma split_on_snoc:
  "split_on c (s @ [x]) =
    (if x = c then split_on c s @ [[]] else butlast (split_on c s) @ [last (split_on c s) @ [x]])"
proof (induction s)
  case (Cons y s)
  obtain z zs where "split_on c s = z # zs" by (cases "split_on c s") auto
  with Cons show ?case by auto
qed simp

lemma lines_trim_right:
  "l \<in> set (split_on newline (trim_right s)) \<Longrightarrow> \<exists>k \<in> set (split_on newline s). trim_space k = trim_space l"
proof (induction s rule: rev_induct)
  case (snoc c s)
  show ?case
  proof (cases "is_space c")
    case True
    then obtain k where k: "k \<in> set (split_on newline s)" "trim_space k = trim_space l"
      using snoc by (auto simp: trim_right_snoc)
    have "set (split_on newline s) = insert (last (split_on newline s)) (set (butlast (split_on newline s)))"
      by (metis append_butlast_last_id list.simps(15) rotate1.simps(2) set_rotate1 split_on_ne)
    with k True show ?thesis by (auto simp: split_on_snoc trim_space_snoc)
  next
    case False
    with snoc.prems show ?thesis by (auto simp: trim_right_snoc)
  qed
qed (auto simp: trim_right_def)

lemma lines_trim_space:
  "l \<in> set (split_on newline (trim_space s)) \<Longrightarrow> \<exists>k \<in> set (split_on newline s). trim_space k = trim_space l"
  unfolding trim_space_def [of s] using lines_trim_left lines_trim_right by (metis (full_types))

lemma lines_join:
  assumes "\<forall>k \<in> set ks. newline \<notin> set k" and "l \<in> set (split_on newline (join_with [newline] ks))"
  shows "l \<in> set ks \<or> l = []"
  using assms split_join [of ks newline] by (cases "ks = []") auto

definition password_line :: "string \<Rightarrow> bool" where
  "password_line l \<longleftrightarrow> prefix ''password:'' (trim_space l)"

lemma stripPassword_lines: "l \<in> set (split_on newline (stripPassword s)) \<Longrightarrow> \<not> password_line l"
proof -
  let ?kept = "filter (\<lambda>l. \<not> prefix ''password:'' (trim_space l)) (split_on newline s)"
  assume "l \<in> set (split_on newline (stripPassword s))"
  then obtain k where k: "k \<in> set (split_on newline (join_with [newline] ?kept))" "trim_space k = trim_space l"
    unfolding stripPassword_def using lines_trim_space by blast
  then have "k \<in> set ?kept \<or> k = []"
    by (intro lines_join) (auto dest: split_on_no_sep)
  with k show ?thesis by (auto simp: password_line_def trim_space_def trim_left_def trim_right_def)
qed

end
