(* ===== verification/Processes.thy ===== *)
theory Processes
  imports ExecAdapter
begin

text \<open>
  What the adapters that start processes share: the two operations of the host beside the
  runner, and the logged form of both, which records every call with its answer.
\<close>

section \<open>The host and what is logged of it\<close>

record 'w host =
  hsStat :: "string \<Rightarrow> ('w, go_error option) io"
  hsMkdirAll :: "string \<Rightarrow> ('w, go_error option) io"

datatype sys_event =
    SyStat string "go_error option"
  | SyMkdir string "go_error option"
  | SyRun command "cmd_result \<times> go_error option"
  | SyInteract command "go_error option"

definition log_host :: "'w host \<Rightarrow> ('w \<times> sys_event list) host" where
  "log_host h = \<lparr>hsStat = (\<lambda>p. tap (SyStat p) (hsStat h p)), hsMkdirAll = (\<lambda>p. tap (SyMkdir p) (hsMkdirAll h p))\<rparr>"

definition log_runner :: "'w runner \<Rightarrow> ('w \<times> sys_event list) runner" where
  "log_runner r =
     \<lparr>rnRun = (\<lambda>c. tap (SyRun c) (rnRun r c)), rnInteractive = (\<lambda>c. tap (SyInteract c) (rnInteractive r c))\<rparr>"

lemma log_sys_sel [simp]:
  "hsStat (log_host h) p = tap (SyStat p) (hsStat h p)"
  "hsMkdirAll (log_host h) p = tap (SyMkdir p) (hsMkdirAll h p)"
  "rnRun (log_runner r) c = tap (SyRun c) (rnRun r c)"
  "rnInteractive (log_runner r) c = tap (SyInteract c) (rnInteractive r c)"
  by (simp_all add: log_host_def log_runner_def)

text \<open>A command without standard input, environment or mark.\<close>

definition plain_command :: "string \<Rightarrow> string list \<Rightarrow> command" where
  "plain_command name args =
     \<lparr>cmName = name, cmArgs = args, cmStdin = None, cmEnv = [], cmSensitive = False\<rparr>"

end
