(* ===== verification/KeychainClient.thy ===== *)
theory KeychainClient
  imports KeychainParse Processes Paths
begin

text \<open>
  \<open>internal/adapters/keychain/client.go\<close>: the keychain port over the \<open>security\<close> tool.
  The tool is reached through the runner; \<open>os.Stat\<close> and \<open>os.MkdirAll\<close> are the
  operations of the host.
\<close>

section \<open>Errors\<close>

definition kc_tool :: string where "kc_tool = ''security''"
definition kc_service :: string where "kc_service = ''lclaw''"
definition kc_kind :: string where "kc_kind = ''LocalClaw secret''"
definition lockTimeout :: string where "lockTimeout = ''900''"

definition exitNotFound :: int where "exitNotFound = 44"
definition exitDuplicate :: int where "exitDuplicate = 45"
definition exitLocked :: int where "exitLocked = 36"
definition exitNoKeychain :: int where "exitNoKeychain = 50"
definition exitAuthFailed :: int where "exitAuthFailed = 51"

lemmas kc_codes = exitNotFound_def exitDuplicate_def exitLocked_def exitNoKeychain_def exitAuthFailed_def

definition exitCode :: "go_error option \<Rightarrow> int" where
  "exitCode err =
     (case err of None \<Rightarrow> -1
      | Some e \<Rightarrow> (case as_exit e of None \<Rightarrow> -1 | Some (code, _) \<Rightarrow> code))"

definition kc_wrap :: "string \<Rightarrow> go_error \<Rightarrow> go_error" where
  "kc_wrap op err =
     (let w = (\<lambda>e. Wrapf (''keychain: '' @ op @ '': '') e []) in
      if errors_is err ExecNotFound then w (Sentinel ErrToolNotFound)
      else
        (case as_exit err of
           None \<Rightarrow> w err
         | Some (code, stderr) \<Rightarrow>
             if code = exitNotFound then w (Sentinel ErrSecretNotFound)
             else if code = exitDuplicate then w (Sentinel ErrSecretExists)
             else if code = exitLocked then w (Sentinel ErrKeychainLocked)
             else if code = exitNoKeychain then w (Sentinel ErrKeychainMissing)
             else if code = exitAuthFailed then w (Sentinel ErrWrongPassword)
             else w (ExitError code (stripPassword stderr))))"

definition checkPath :: "string \<Rightarrow> go_error option" where
  "checkPath path =
     (if list_ex (\<lambda>c. c \<in> {dquote, backslash, newline, cret}) path
      then Some (Plain (''keychain: path '' @ quote path @ '' must not contain quotes, backslashes or newlines''))
      else None)"

section \<open>Running the tool\<close>

definition KcExists :: "'w host \<Rightarrow> string \<Rightarrow> ('w, go_error + bool) io" where
  "KcExists host path = do {
     err \<leftarrow> hsStat host path;
     ret (case err of
            None \<Rightarrow> Inr True
          | Some e \<Rightarrow>
              if errors_is e FsNotExist then Inr False
              else Inl (Wrapf (''keychain: stat '' @ path @ '': '') e []))
   }"

definition kc_require :: "'w host \<Rightarrow> string \<Rightarrow> ('w, go_error option) io" where
  "kc_require host path = do {
     r \<leftarrow> KcExists host path;
     ret (case r of
            Inl err \<Rightarrow> Some err
          | Inr exists \<Rightarrow>
              if \<not> exists then Some (Wrapf ''keychain: '' (Sentinel ErrKeychainMissing) ('' at '' @ path)) else None)
   }"

definition kc_command :: "string list \<Rightarrow> string option \<Rightarrow> command" where
  "kc_command args stdin =
     \<lparr>cmName = kc_tool, cmArgs = args, cmStdin = stdin, cmEnv = [], cmSensitive = True\<rparr>"

text \<open>A command that owns the terminal.\<close>

definition kc_terminal :: "string list \<Rightarrow> command" where
  "kc_terminal args =
     \<lparr>cmName = kc_tool, cmArgs = args, cmStdin = None, cmEnv = [], cmSensitive = False\<rparr>"

definition kc_run :: "'w runner \<Rightarrow> string \<Rightarrow> string option \<Rightarrow> string list \<Rightarrow> ('w, cmd_result \<times> go_error option) io" where
  "kc_run rn path stdin args = do {
     (res, err) \<leftarrow> rnRun rn (kc_command args stdin);
     if exitCode err \<noteq> exitLocked then ret (res, err)
     else do {
       uerr \<leftarrow> rnInteractive rn (kc_terminal [''unlock-keychain'', path]);
       case uerr of
         Some e \<Rightarrow> ret (res, Some e)
       | None \<Rightarrow> rnRun rn (kc_command args stdin)
     }
   }"

section \<open>The operations\<close>

definition KcCreate :: "'w host \<Rightarrow> 'w runner \<Rightarrow> string \<Rightarrow> ('w, go_error option) io" where
  "KcCreate host rn path =
     (case checkPath path of
        Some err \<Rightarrow> ret (Some err)
      | None \<Rightarrow> do {
          made \<leftarrow> hsMkdirAll host (path_dir path);
          case made of
            Some err \<Rightarrow> ret (Some (Wrapf (''keychain: create '' @ path @ '': '') err []))
          | None \<Rightarrow> do {
              created \<leftarrow> rnInteractive rn (kc_terminal [''create-keychain'', path]);
              case created of
                Some err \<Rightarrow> ret (Some (kc_wrap ''create-keychain'' err))
              | None \<Rightarrow> do {
                  (_, err) \<leftarrow> rnRun rn (kc_command [''set-keychain-settings'', ''-l'', ''-u'', ''-t'', lockTimeout, path] None);
                  ret (map_option (kc_wrap ''set-keychain-settings'') err)
                }
            }
        })"

definition get_args :: "string \<Rightarrow> string \<Rightarrow> string list" where
  "get_args path name = [''find-generic-password'', ''-a'', name, ''-s'', kc_service, ''-g'', path]"

definition describe_args :: "string \<Rightarrow> string \<Rightarrow> string list" where
  "describe_args path name = [''find-generic-password'', ''-a'', name, ''-s'', kc_service, path]"

definition delete_args :: "string \<Rightarrow> string \<Rightarrow> string list" where
  "delete_args path name = [''delete-generic-password'', ''-a'', name, ''-s'', kc_service, path]"

definition KcGet :: "'w host \<Rightarrow> 'w runner \<Rightarrow> string \<Rightarrow> string \<Rightarrow> ('w, go_error + string) io" where
  "KcGet host rn path name = ensure id (kc_require host path) (do {
     (res, err) \<leftarrow> kc_run rn path None (get_args path name);
     ret (case err of
            Some e \<Rightarrow> Inl (kc_wrap (''get '' @ name) e)
          | None \<Rightarrow>
              (case parsePassword (coStderr res) of
                 Inl e \<Rightarrow> Inl (Wrapf (''keychain: get '' @ name @ '': '') e [])
               | Inr v \<Rightarrow> Inr v))
   })"

definition KcDescribe :: "'w host \<Rightarrow> 'w runner \<Rightarrow> string \<Rightarrow> string \<Rightarrow> ('w, go_error + secret_item) io" where
  "KcDescribe host rn path name = ensure id (kc_require host path) (do {
     (res, err) \<leftarrow> kc_run rn path None (describe_args path name);
     ret (case err of
            Some e \<Rightarrow> Inl (kc_wrap (''describe '' @ name) e)
          | None \<Rightarrow>
              (case parseAttributes (coStdout res) of
                 Inl e \<Rightarrow> Inl (Wrapf (''keychain: describe '' @ name @ '': '') e [])
               | Inr item \<Rightarrow> Inr (item\<lparr>siName := name\<rparr>)))
   })"

text \<open>The one line of interactive mode that carries a value, in hexadecimal.\<close>

definition put_line :: "string \<Rightarrow> string \<Rightarrow> string \<Rightarrow> source \<Rightarrow> bool \<Rightarrow> string" where
  "put_line path name hexValue source replace =
     ''add-generic-password -a '' @ name @ '' -s '' @ kc_service @ '' -D '' @ [dquote] @ kc_kind @ [dquote] @
     '' -j '' @ source_name source @ (if replace then '' -U'' else []) @
     '' -X '' @ hexValue @ '' '' @ [dquote] @ path @ [dquote] @ [newline]"

definition KcPut :: "'w host \<Rightarrow> 'w runner \<Rightarrow> string \<Rightarrow> string \<Rightarrow> string \<Rightarrow> source \<Rightarrow> bool \<Rightarrow> ('w, go_error option) io" where
  "KcPut host rn path name value source replace = do {
     required \<leftarrow> kc_require host path;
     case required of
       Some err \<Rightarrow> ret (Some err)
     | None \<Rightarrow>
       (case ValidateName name of
          Some err \<Rightarrow> ret (Some (Wrapf ''keychain: put: '' err []))
        | None \<Rightarrow>
          (case ValidateValue value of
             Some err \<Rightarrow> ret (Some (Wrapf (''keychain: put '' @ name @ '': '') err []))
           | None \<Rightarrow>
             (case checkPath path of
                Some err \<Rightarrow> ret (Some err)
              | None \<Rightarrow> do {
                  (_, err) \<leftarrow> kc_run rn path (Some (put_line path name (hex_encode value) source replace)) [''-i''];
                  ret (case err of
                         Some e \<Rightarrow> Some (kc_wrap (''put '' @ name) (Redact e (hex_encode value)))
                       | None \<Rightarrow> None)
                })))
   }"

definition KcDelete :: "'w host \<Rightarrow> 'w runner \<Rightarrow> string \<Rightarrow> string \<Rightarrow> ('w, go_error option) io" where
  "KcDelete host rn path name = do {
     required \<leftarrow> kc_require host path;
     case required of
       Some err \<Rightarrow> ret (Some err)
     | None \<Rightarrow> do {
         (_, err) \<leftarrow> kc_run rn path None (delete_args path name);
         ret (map_option (kc_wrap (''delete '' @ name)) err)
       }
   }"

definition KeychainPort :: "'w host \<Rightarrow> 'w runner \<Rightarrow> 'w keychain" where
  "KeychainPort host rn =
     \<lparr>kcExists = KcExists host, kcCreate = KcCreate host rn, kcGet = KcGet host rn,
      kcDescribe = KcDescribe host rn, kcPut = KcPut host rn, kcDelete = KcDelete host rn\<rparr>"

end
