(* ===== verification/KeychainProperties.thy ===== *)
theory KeychainProperties
  imports KeychainClient
begin

text \<open>
  What the keychain adapter does to the host: which processes it starts and when, what
  its errors say, and that no value leaves through an argument list or an error.
\<close>

section \<open>The course of an operation\<close>

text \<open>
  One command, started once, or once more after it found the keychain locked and the
  terminal unlocked it. \<open>a\<close> is what is handed on.
\<close>

definition unlock_command :: "string \<Rightarrow> command" where
  "unlock_command path = kc_terminal [''unlock-keychain'', path]"

definition run_course :: "string \<Rightarrow> command \<Rightarrow> cmd_result \<times> go_error option \<Rightarrow> sys_event list \<Rightarrow> bool" where
  "run_course path cmd a es \<longleftrightarrow>
     (es = [SyRun cmd a] \<and> exitCode (snd a) \<noteq> exitLocked) \<or>
     (\<exists>b u. exitCode (snd b) = exitLocked \<and> a = (fst b, Some u) \<and>
        es = [SyRun cmd b, SyInteract (unlock_command path) (Some u)]) \<or>
     (\<exists>b. exitCode (snd b) = exitLocked \<and>
        es = [SyRun cmd b, SyInteract (unlock_command path) None, SyRun cmd a])"

lemma emits_kc_run:
  "emits (run_course path (kc_command args stdin)) (kc_run (log_runner rn) path stdin args)"
  unfolding kc_run_def log_sys_sel unlock_command_def [symmetric]
  by (intro emits_rules emits_ret emits_tap) (auto simp: run_course_def split: if_splits)

text \<open>What the check of the keychain file answers.\<close>

definition absent :: "string \<Rightarrow> go_error option \<Rightarrow> go_error option" where
  "absent path so =
     map_option (\<lambda>e. if errors_is e FsNotExist
       then Wrapf ''keychain: '' (Sentinel ErrKeychainMissing) ('' at '' @ path)
       else Wrapf (''keychain: stat '' @ path @ '': '') e []) so"

lemma emits_kc_require:
  "emits (\<lambda>r es. \<exists>so. es = [SyStat path so] \<and> r = absent path so) (kc_require (log_host h) path)"
  unfolding kc_require_def KcExists_def log_sys_sel
  by (intro emits_rules emits_ret) (auto simp: absent_def split: option.splits)

lemma absent_None [simp]: "absent path None = None" "absent path so = None \<longleftrightarrow> so = None" "None = absent path so \<longleftrightarrow> so = None"
  by (auto simp: absent_def)

text \<open>
  An operation on an item: it stops at the check of the file, is refused for its
  arguments, or runs its one command. \<open>stops\<close> relates a stop to the result, \<open>done_with\<close>
  the end of the command.
\<close>

definition item_course ::
  "string \<Rightarrow> command \<Rightarrow> (go_error option \<Rightarrow> 'r \<Rightarrow> bool) \<Rightarrow> (cmd_result \<times> go_error option \<Rightarrow> 'r \<Rightarrow> bool)
    \<Rightarrow> 'r \<Rightarrow> sys_event list \<Rightarrow> bool" where
  "item_course path cmd stops done_with r es \<longleftrightarrow>
     (\<exists>so. es = [SyStat path so] \<and> stops so r) \<or>
     (\<exists>a fs. es = SyStat path None # fs \<and> run_course path cmd a fs \<and> done_with a r)"

lemma item_courseI:
  "stops so r \<Longrightarrow> item_course path cmd stops done_with r [SyStat path so]"
  "run_course path cmd a fs \<Longrightarrow> done_with a r \<Longrightarrow> item_course path cmd stops done_with r (SyStat path None # fs)"
  unfolding item_course_def by blast+

definition got :: "string \<Rightarrow> cmd_result \<times> go_error option \<Rightarrow> go_error + string \<Rightarrow> bool" where
  "got name a r \<longleftrightarrow>
     (case snd a of
        Some e \<Rightarrow> r = Inl (kc_wrap (''get '' @ name) e)
      | None \<Rightarrow>
          (case parsePassword (coStderr (fst a)) of
             Inl e \<Rightarrow> r = Inl (Wrapf (''keychain: get '' @ name @ '': '') e [])
           | Inr v \<Rightarrow> r = Inr v))"

definition item_described :: "string \<Rightarrow> cmd_result \<times> go_error option \<Rightarrow> go_error + secret_item \<Rightarrow> bool" where
  "item_described name a r \<longleftrightarrow>
     (case snd a of
        Some e \<Rightarrow> r = Inl (kc_wrap (''describe '' @ name) e)
      | None \<Rightarrow>
          (case parseAttributes (coStdout (fst a)) of
             Inl e \<Rightarrow> r = Inl (Wrapf (''keychain: describe '' @ name @ '': '') e [])
           | Inr item \<Rightarrow> r = Inr (item\<lparr>siName := name\<rparr>)))"

definition put_command :: "string \<Rightarrow> string \<Rightarrow> string \<Rightarrow> source \<Rightarrow> bool \<Rightarrow> command" where
  "put_command path name value source replace =
     kc_command [''-i''] (Some (put_line path name (hex_encode value) source replace))"

definition refused :: "string \<Rightarrow> string \<Rightarrow> string \<Rightarrow> go_error option" where
  "refused path name value =
     (case ValidateName name of
        Some err \<Rightarrow> Some (Wrapf ''keychain: put: '' err [])
      | None \<Rightarrow>
          (case ValidateValue value of
             Some err \<Rightarrow> Some (Wrapf (''keychain: put '' @ name @ '': '') err [])
           | None \<Rightarrow> checkPath path))"

definition get_course :: "string \<Rightarrow> string \<Rightarrow> go_error + string \<Rightarrow> sys_event list \<Rightarrow> bool" where
  "get_course path name =
     item_course path (kc_command (get_args path name) None)
       (\<lambda>so r. \<exists>e. absent path so = Some e \<and> r = Inl e) (got name)"

definition describe_course :: "string \<Rightarrow> string \<Rightarrow> go_error + secret_item \<Rightarrow> sys_event list \<Rightarrow> bool" where
  "describe_course path name =
     item_course path (kc_command (describe_args path name) None)
       (\<lambda>so r. \<exists>e. absent path so = Some e \<and> r = Inl e) (item_described name)"

definition delete_course :: "string \<Rightarrow> string \<Rightarrow> go_error option \<Rightarrow> sys_event list \<Rightarrow> bool" where
  "delete_course path name =
     item_course path (kc_command (delete_args path name) None)
       (\<lambda>so r. r \<noteq> None \<and> r = absent path so) (\<lambda>a r. r = map_option (kc_wrap (''delete '' @ name)) (snd a))"

definition put_course :: "string \<Rightarrow> string \<Rightarrow> string \<Rightarrow> source \<Rightarrow> bool \<Rightarrow> go_error option \<Rightarrow> sys_event list \<Rightarrow> bool" where
  "put_course path name value source replace =
     item_course path (put_command path name value source replace)
       (\<lambda>so r. r \<noteq> None \<and> (r = absent path so \<or> so = None \<and> r = refused path name value))
       (\<lambda>a r. refused path name value = None \<and>
          r = map_option (\<lambda>e. kc_wrap (''put '' @ name) (Redact e (hex_encode value))) (snd a))"

lemma emits_KcGet: "emits (get_course path name) (KcGet (log_host h) (log_runner rn) path name)"
  unfolding KcGet_def get_course_def
  by (rule emits_ensure [OF emits_kc_require])
    (auto intro!: item_courseI emits_bind [OF emits_kc_run] emits_ret split: option.splits sum.splits simp: got_def)

lemma emits_KcDescribe: "emits (describe_course path name) (KcDescribe (log_host h) (log_runner rn) path name)"
  unfolding KcDescribe_def describe_course_def
  by (rule emits_ensure [OF emits_kc_require])
    (auto intro!: item_courseI emits_bind [OF emits_kc_run] emits_ret split: option.splits sum.splits simp: item_described_def)

lemma emits_KcDelete: "emits (delete_course path name) (KcDelete (log_host h) (log_runner rn) path name)"
  unfolding KcDelete_def delete_course_def
  by (rule emits_bind [OF emits_kc_require])
    (auto intro!: item_courseI emits_bind [OF emits_kc_run] emits_ret split: option.splits)

lemma emits_KcPut:
  "emits (put_course path name value source replace)
    (KcPut (log_host h) (log_runner rn) path name value source replace)"
  unfolding KcPut_def put_command_def put_course_def
  by (rule emits_bind [OF emits_kc_require])
    (auto intro!: item_courseI emits_bind [OF emits_kc_run] emits_ret split: option.splits simp: refused_def)

text \<open>Creating: refused for its path, or the parent directory, the terminal, the settings.\<close>

definition create_course :: "string \<Rightarrow> go_error option \<Rightarrow> sys_event list \<Rightarrow> bool" where
  "create_course path r es \<longleftrightarrow>
     (es = [] \<and> r \<noteq> None \<and> r = checkPath path) \<or>
     (checkPath path = None \<and>
       ((\<exists>e. es = [SyMkdir (path_dir path) (Some e)] \<and> r = Some (Wrapf (''keychain: create '' @ path @ '': '') e [])) \<or>
        (\<exists>e. es = [SyMkdir (path_dir path) None, SyInteract (kc_terminal [''create-keychain'', path]) (Some e)] \<and>
           r = Some (kc_wrap ''create-keychain'' e)) \<or>
        (\<exists>a. es = [SyMkdir (path_dir path) None, SyInteract (kc_terminal [''create-keychain'', path]) None,
                  SyRun (kc_command [''set-keychain-settings'', ''-l'', ''-u'', ''-t'', lockTimeout, path] None) a] \<and>
           r = map_option (kc_wrap ''set-keychain-settings'') (snd a))))"

lemma emits_KcCreate: "emits (create_course path) (KcCreate (log_host h) (log_runner rn) path)"
  unfolding KcCreate_def log_sys_sel
  by (intro emits_rules emits_ret) (auto simp: create_course_def)

text \<open>
  C24: the processes of the keychain adapter. Getting, describing, putting and deleting an
  item look at the keychain file first and start nothing when it is absent; then they
  run one command of \<open>security\<close>, marked sensitive, and run the same again only after exit
  status 36 and an unlock at the terminal. A put runs only for a legal name, value and
  path, its arguments are \<open>-i\<close> alone, and the value is in its standard input only.
  Creating makes the directory, the keychain and its settings, in this order.
\<close>

theorem keychain_courses:
  "emits (get_course path name) (KcGet (log_host h) (log_runner rn) path name) \<and>
   emits (describe_course path name) (KcDescribe (log_host h) (log_runner rn) path name) \<and>
   emits (delete_course path name) (KcDelete (log_host h) (log_runner rn) path name) \<and>
   emits (put_course path name value source replace)
     (KcPut (log_host h) (log_runner rn) path name value source replace) \<and>
   emits (create_course path) (KcCreate (log_host h) (log_runner rn) path)"
  by (intro conjI emits_KcGet emits_KcDescribe emits_KcDelete emits_KcPut emits_KcCreate)

section \<open>What the errors say\<close>

















definition error_of :: "go_error + 'a \<Rightarrow> go_error option" where
  "error_of r = (case r of Inl e \<Rightarrow> Some e | Inr _ \<Rightarrow> None)"

lemma error_of_simps [simp]: "error_of (Inl e) = Some e" "error_of (Inr x) = None"
  by (simp_all add: error_of_def)













section \<open>Errors carry no value\<close>

lemma sublist_line: "l \<in> set (split_on newline t) \<Longrightarrow> sublist l t"
proof (induction t arbitrary: l)
  case (Cons c t)
  obtain y ys where y: "split_on newline t = y # ys" by (cases "split_on newline t") auto
  have "prefix y t" using join_split [of newline t] y by (cases ys) (auto simp: prefix_def)
  with Cons y show ?case
    by (auto simp: sublist_Cons_right split: if_splits)
qed simp

lemma leaks_sublist: "leaks secret l \<Longrightarrow> sublist l t \<Longrightarrow> leaks secret t"
  unfolding leaks_def by (meson sublist_order.order_trans)

lemma strip_leaks:
  assumes "newline \<notin> set secret" and "secret \<noteq> []" and "leaks secret (stripPassword t)"
  shows "leaks secret t"
proof -
  obtain l where "l \<in> set (split_on newline t)" "leaks secret l"
    using leaks_lines [OF assms(3) [unfolded stripPassword_def] assms(1,2)] by auto
  then show ?thesis using leaks_sublist sublist_line by blast
qed

definition no_password :: "string \<Rightarrow> bool" where
  "no_password t \<longleftrightarrow> list_all (\<lambda>l. \<not> password_line l) (split_on newline t)"

lemma kc_wrap_exit:
  "as_exit (kc_wrap op e) = Some (c, t) \<Longrightarrow> \<exists>u. as_exit e = Some (c, u) \<and> t = stripPassword u"
  by (auto simp: kc_wrap_def Let_def split: if_splits option.splits)

lemma kc_wrap_no_password: "as_exit (kc_wrap op e) = Some (c, t) \<Longrightarrow> no_password t"
  using kc_wrap_exit [of op e c t] stripPassword_lines by (auto simp: no_password_def list_all_iff)

lemma put_wrap_clean:
  assumes "value \<noteq> []" and "as_exit (kc_wrap op (Redact e (hex_encode value))) = Some (c, t)"
  shows "\<not> leaks (hex_encode value) t"
proof
  assume l: "leaks (hex_encode value) t"
  have hex: "newline \<notin> set (hex_encode value)" "hex_encode value \<noteq> []"
    using assms(1) hexc.enc_one_line by (auto simp: hex_encode_def neq_Nil_conv)
  obtain u where u: "as_exit (Redact e (hex_encode value)) = Some (c, u)" "t = stripPassword u"
    using kc_wrap_exit [OF assms(2)] by blast
  then have "leaks (hex_encode value) u" using l strip_leaks [OF hex] by simp
  with Redact_leak_free [OF hex u(1)] show False by simp
qed

text \<open>What an error may tell once a command ran: no password line, nothing of the value.\<close>

definition clean_error :: "(string \<Rightarrow> bool) \<Rightarrow> go_error option \<Rightarrow> sys_event list \<Rightarrow> bool" where
  "clean_error ok r es \<longleftrightarrow>
     (case es of
        [SyStat _ _] \<Rightarrow> True
      | _ \<Rightarrow> (case r of None \<Rightarrow> True
              | Some e \<Rightarrow> (case as_exit e of None \<Rightarrow> True | Some (_, t) \<Rightarrow> no_password t \<and> ok t)))"

lemma clean_error_stat [simp]: "clean_error ok r [SyStat p so]"
  by (simp add: clean_error_def)

lemma clean_errorI:
  "(\<And>e c t. r = Some e \<Longrightarrow> as_exit e = Some (c, t) \<Longrightarrow> no_password t \<and> ok t) \<Longrightarrow> clean_error ok r es"
  by (auto simp: clean_error_def split: list.splits sys_event.splits option.splits)

lemma parse_no_exit:
  "parsePassword out = Inl e \<Longrightarrow> as_exit e = None" "parseAttributes out = Inl e \<Longrightarrow> as_exit e = None"
proof -
  have hex: "as_exit (hex_error h) = None" for h by (induction h rule: hex_error.induct) auto
  have "password_value rest = Inl e \<Longrightarrow> as_exit e = None" for rest
    by (auto simp: password_value_def Let_def hex split: if_splits option.splits)
  then have "password_lines ls = Inl e \<Longrightarrow> as_exit e = None" for ls
    by (induction ls) (auto split: if_splits)
  then show "parsePassword out = Inl e \<Longrightarrow> as_exit e = None" by (simp add: parsePassword_def)
  have time: "parseTime v = Inl f \<Longrightarrow> as_exit f = None" for v f
    by (auto simp: parseTime_def parse_compact_time_def sum_bind_def time_year_def time_elem_def Let_def
      cannot_parse_def out_of_range_def split: if_splits prod.splits option.splits sum.splits)
  have step: "attr_step item m = Inl e \<Longrightarrow> as_exit e = None" for item m
    by (auto simp: attr_step_def time split: if_splits sum.splits)
  have "attr_loop ls item = Inl e \<Longrightarrow> as_exit e = None" for ls item
    by (induction ls arbitrary: item) (auto simp: sum_bind_def step split: option.splits sum.splits)
  then show "parseAttributes out = Inl e \<Longrightarrow> as_exit e = None" by (simp add: parseAttributes_def)
qed

lemma get_clean: "get_course path name r es \<Longrightarrow> clean_error (\<lambda>_. True) (error_of r) es"
  unfolding get_course_def item_course_def
  by (elim disjE exE conjE)
    (auto simp: got_def parse_no_exit intro!: clean_errorI kc_wrap_no_password split: option.splits sum.splits)

lemma describe_clean: "describe_course path name r es \<Longrightarrow> clean_error (\<lambda>_. True) (error_of r) es"
  unfolding describe_course_def item_course_def
  by (elim disjE exE conjE)
    (auto simp: item_described_def parse_no_exit intro!: clean_errorI kc_wrap_no_password split: option.splits sum.splits)

lemma delete_clean: "delete_course path name r es \<Longrightarrow> clean_error (\<lambda>_. True) r es"
  unfolding delete_course_def item_course_def
  by (elim disjE exE conjE) (auto intro!: clean_errorI kc_wrap_no_password)

lemma put_clean: "put_course path name value src rep r es \<Longrightarrow> clean_error (\<lambda>t. \<not> leaks (hex_encode value) t) r es"
proof -
  have "refused path name value = None \<Longrightarrow> value \<noteq> []"
    by (auto simp: refused_def ValidateValue_def split: option.splits)
  then show "put_course path name value src rep r es \<Longrightarrow> clean_error (\<lambda>t. \<not> leaks (hex_encode value) t) r es"
    unfolding put_course_def item_course_def
    by (elim disjE exE conjE) (auto intro!: clean_errorI dest: kc_wrap_no_password put_wrap_clean)
qed

text \<open>
  C26: no value in an error. Once \<open>security\<close> ran, what an error of the adapter shows of its
  output has no password line, and for a put no sixteen characters of the encoded value
  nor the whole of a shorter one.
\<close>

theorem keychain_error_clean:
  "emits (\<lambda>r. clean_error (\<lambda>_. True) (error_of r)) (KcGet (log_host h) (log_runner rn) path name) \<and>
   emits (\<lambda>r. clean_error (\<lambda>_. True) (error_of r)) (KcDescribe (log_host h) (log_runner rn) path name) \<and>
   emits (clean_error (\<lambda>_. True)) (KcDelete (log_host h) (log_runner rn) path name) \<and>
   emits (clean_error (\<lambda>t. \<not> leaks (hex_encode value) t))
     (KcPut (log_host h) (log_runner rn) path name value source replace)"
  by (intro conjI emits_conseq [OF emits_KcGet] emits_conseq [OF emits_KcDescribe]
      emits_conseq [OF emits_KcDelete] emits_conseq [OF emits_KcPut])
    (auto intro: get_clean describe_clean delete_clean put_clean)

end
