(* ===== verification/SecretsOverKeychain.thy ===== *)
theory SecretsOverKeychain
  imports SecretsApp KeychainProperties
begin

text \<open>
  The secrets use cases over the keychain adapter. A locale collects what the ports of
  the use cases may do to a log; its lemmas carry that over to every operation. It is
  interpreted on the adapter twice: over a logged host and runner, and over the
  operating system's runner with its debug log.
\<close>

section \<open>What the ports do, the operations do\<close>

locale secrets_ports =
  fixes ctx :: "('w \<times> 'e list) ctx" and s :: "('w \<times> 'e list) secrets_app" and A :: "'e \<Rightarrow> bool"
  assumes ctx: "logs A ctx"
    and opener: "logs A (doOpenDir (saScaffold s) d)"
    and loader: "logs A (tlLoad (saTopology s) fs)"
    and key_exists: "logs A (kcExists (saKeychain s) path)"
    and key_get: "logs A (kcGet (saKeychain s) path n)"
    and key_describe: "logs A (kcDescribe (saKeychain s) path n)"
    and key_put: "logs A (kcPut (saKeychain s) path n v src rep)"
    and key_delete: "logs A (kcDelete (saKeychain s) path n)"
    and store_running: "logs A (tgMachineRunning (saTarget s))"
    and store_set: "logs A (tgStoreSecret (saTarget s) n v)"
    and store_exists: "logs A (tgSecretExists (saTarget s) n)"
    and store_remove: "logs A (tgRemoveSecret (saTarget s) n)"
    and mint: "logs A (kmMint (saMinter s) n)"
    and random: "logs A (saRandom s k)"
begin

lemmas ports = ctx opener loader key_exists key_get key_describe key_put key_delete store_running
  store_set store_exists store_remove mint random

lemma from_prepare: "logs A (prepare s dir)"
  unfolding prepare_def by (intro io_rules ports)

lemma from_require: "logs A (requireKeychain (saKeychain s) path)"
  unfolding requireKeychain_def by (intro io_rules ports)

lemma from_inspect: "logs A (inspect s n)"
  unfolding inspect_def by (intro io_rules ports)

lemma from_push: "logs A (push ctx s spec v)"
  unfolding push_def by (intro io_rules ports)

lemma from_produce: "logs A (produce s spec)"
  unfolding produce_def Generate_def by (intro io_rules ports)

lemma from_list_loop: "logs A (list_loop ctx s path specs out)"
  by (induction specs arbitrary: out) (auto intro!: io_rules ports)

lemmas shared = from_prepare from_require from_inspect from_push from_produce from_list_loop

lemma all_operations:
  "logs A (List ctx s dir) \<and> logs A (Describe s dir name) \<and> logs A (Get s dir name) \<and>
   logs A (Set ctx s dir name value) \<and> logs A (Update ctx s dir name value generate) \<and> logs A (Delete s dir name)"
  unfolding List_def Describe_def Get_def Set_def Update_def Delete_def
  by (intro conjI io_rules ports shared)

end

section \<open>The use cases over the adapter\<close>

text \<open>The ports beside the keychain, which leave the log alone.\<close>

definition beside_opener :: "'w dir_opener \<Rightarrow> ('w \<times> 'e list) dir_opener" where
  "beside_opener p = \<lparr>doOpenDir = (\<lambda>d. untap (doOpenDir p d))\<rparr>"

definition beside_loader :: "'w topology_loader \<Rightarrow> ('w \<times> 'e list) topology_loader" where
  "beside_loader p = \<lparr>tlLoad = (\<lambda>f. untap (tlLoad p f))\<rparr>"

definition beside_target :: "'w secret_target \<Rightarrow> ('w \<times> 'e list) secret_target" where
  "beside_target p =
     \<lparr>tgMachineRunning = untap (tgMachineRunning p), tgStoreSecret = (\<lambda>n v. untap (tgStoreSecret p n v)),
      tgSecretExists = (\<lambda>n. untap (tgSecretExists p n)), tgRemoveSecret = (\<lambda>n. untap (tgRemoveSecret p n)),
      tgListSecrets = untap (tgListSecrets p), tgRemoveVolume = (\<lambda>n. untap (tgRemoveVolume p n))\<rparr>"

definition beside_minter :: "'w key_minter \<Rightarrow> ('w \<times> 'e list) key_minter" where
  "beside_minter p =
     \<lparr>kmReady = untap (kmReady p), kmMint = (\<lambda>n. untap (kmMint p n)), kmRevoke = (\<lambda>n v. untap (kmRevoke p n v))\<rparr>"

text \<open>The application with its keychain replaced by the adapter over a host and a runner.\<close>

definition over_security ::
  "('w \<times> 'e list) host \<Rightarrow> ('w \<times> 'e list) runner \<Rightarrow> 'w secrets_app \<Rightarrow> ('w \<times> 'e list) secrets_app" where
  "over_security host rn s =
     \<lparr>saScaffold = beside_opener (saScaffold s), saTopology = beside_loader (saTopology s),
      saKeychain = KeychainPort host rn, saTarget = beside_target (saTarget s),
      saMinter = beside_minter (saMinter s), saRandom = (\<lambda>k. untap (saRandom s k))\<rparr>"

lemmas over_security_defs = over_security_def beside_opener_def beside_loader_def beside_target_def
  beside_minter_def KeychainPort_def

text \<open>
  The commands on items: the security tool, sensitive, nothing of the environment, and
  either one of three argument lists made of path and name, or interactive mode with
  one line that ends in the hexadecimal form of a value.
\<close>

definition item_command :: "command \<Rightarrow> bool" where
  "item_command c \<longleftrightarrow>
     cmName c = kc_tool \<and> cmSensitive c \<and> cmEnv c = [] \<and>
     (\<exists>path name.
        (cmArgs c \<in> {get_args path name, describe_args path name, delete_args path name} \<and> cmStdin c = None) \<or>
        (cmArgs c = [''-i''] \<and> (\<exists>v src rep. ValidateName name = None \<and> ValidateValue v = None \<and> checkPath path = None \<and>
            cmStdin c = Some (put_line path name (hex_encode v) src rep))))"

definition item_call :: "sys_event \<Rightarrow> bool" where
  "item_call e \<longleftrightarrow>
     (case e of
        SyStat _ _ \<Rightarrow> True
      | SyMkdir _ _ \<Rightarrow> False
      | SyRun c _ \<Rightarrow> item_command c
      | SyInteract c _ \<Rightarrow> (\<exists>path. c = unlock_command path))"

lemma item_commands:
  "item_command (kc_command (get_args path name) None)"
  "item_command (kc_command (describe_args path name) None)"
  "item_command (kc_command (delete_args path name) None)"
  by (auto simp: item_command_def kc_command_def)

lemma item_command_put:
  "ValidateName name = None \<Longrightarrow> ValidateValue v = None \<Longrightarrow> checkPath path = None \<Longrightarrow>
    item_command (kc_command [''-i''] (Some (put_line path name (hex_encode v) src rep)))"
  unfolding item_command_def kc_command_def by simp blast

text \<open>
  What a log says when the runner is used for \<open>c\<close>. The laws the keychain adapter needs
  of a host and a runner so that its item operations log only \<open>A\<close>.
\<close>

locale guarded_runner =
  fixes host :: "('w \<times> 'e list) host" and rn :: "('w \<times> 'e list) runner" and A :: "'e \<Rightarrow> bool"
  assumes stat: "logs A (hsStat host path)"
    and item: "item_command c \<Longrightarrow> logs A (rnRun rn c)"
    and unlock: "logs A (rnInteractive rn (unlock_command path))"
begin

lemma guarded_exists: "logs A (KcExists host path)"
  unfolding KcExists_def by (intro io_rules stat)

lemma guarded_require: "logs A (kc_require host path)"
  unfolding kc_require_def by (intro io_rules guarded_exists)

lemma guarded_run: "item_command (kc_command args stdin) \<Longrightarrow> logs A (kc_run rn path stdin args)"
  unfolding kc_run_def unlock_command_def [symmetric] by (intro io_rules item unlock)

lemma guarded_get: "logs A (KcGet host rn path name)"
  unfolding KcGet_def by (intro io_rules guarded_require guarded_run item_commands)

lemma guarded_describe: "logs A (KcDescribe host rn path name)"
  unfolding KcDescribe_def by (intro io_rules guarded_require guarded_run item_commands)

lemma guarded_delete: "logs A (KcDelete host rn path name)"
  unfolding KcDelete_def by (intro io_rules guarded_require guarded_run item_commands)

lemma guarded_put: "logs A (KcPut host rn path name v src rep)"
  unfolding KcPut_def
  by (auto intro!: io_rules guarded_require guarded_run item_command_put split: option.split)

text \<open>So the secrets use cases over the adapter log only that.\<close>

lemma provides_ports: "secrets_ports (untap ctx) (over_security host rn s) A"
  by unfold_locales
    (simp_all add: over_security_defs io_rules guarded_exists guarded_get guarded_describe guarded_put guarded_delete)

end

interpretation logged_sys: guarded_runner "log_host h" "log_runner rn" item_call for h rn
  by unfold_locales (auto simp: item_call_def intro!: io_rules)

interpretation sys_secrets:
  secrets_ports "untap ctx" "over_security (log_host h) (log_runner rn) s" item_call for ctx h rn s
  by (rule logged_sys.provides_ports)

text \<open>
  What the keychain adapter starts below \<open>lclaw secrets\<close>, with the podman store and the
  minter beside the log: every process is the security tool, marked sensitive, with the
  item's name and path as its arguments, or interactive mode with no argument of its own; a
  value is only ever in the standard input of a put of a legal name and value, and the
  terminal is only ever used to unlock.
\<close>

theorem keychain_processes:
  "logs item_call (List (untap ctx) (over_security (log_host h) (log_runner rn) s) dir) \<and>
   logs item_call (Describe (over_security (log_host h) (log_runner rn) s) dir name) \<and>
   logs item_call (Get (over_security (log_host h) (log_runner rn) s) dir name) \<and>
   logs item_call (Set (untap ctx) (over_security (log_host h) (log_runner rn) s) dir name value) \<and>
   logs item_call (Update (untap ctx) (over_security (log_host h) (log_runner rn) s) dir name value generate) \<and>
   logs item_call (Delete (over_security (log_host h) (log_runner rn) s) dir name)"
  by (rule sys_secrets.all_operations)

section \<open>The debug log\<close>

definition beside_host :: "'w host \<Rightarrow> ('w \<times> 'e list) host" where
  "beside_host h = \<lparr>hsStat = (\<lambda>p. untap (hsStat h p)), hsMkdirAll = (\<lambda>p. untap (hsMkdirAll h p))\<rparr>"

text \<open>An entry about the keychain: the tool, arguments of path and name, the status, and no output.\<close>

definition value_free :: "log_attr \<Rightarrow> bool" where
  "value_free a \<longleftrightarrow>
     (case a of
        LgName n \<Rightarrow> n = kc_tool
      | LgArgs as \<Rightarrow> as = [''-i''] \<or>
          (\<exists>path name. as \<in> {get_args path name, describe_args path name, delete_args path name, [''unlock-keychain'', path]})
      | LgStderr _ \<Rightarrow> False
      | _ \<Rightarrow> True)"

definition quiet_log :: "string \<times> log_attr list \<Rightarrow> bool" where
  "quiet_log e \<longleftrightarrow> list_all value_free (snd e)"

lemma logs_SystemRun:
  assumes "item_command c" shows "logs quiet_log (SystemRun (log_os os) (untap ctx) c)"
  using assms unfolding SystemRun_def log_os_sel
  by (intro io_rules) (auto simp: quiet_log_def log_attrs_def value_free_def item_command_def)

interpretation logged_os:
  guarded_runner "beside_host h" "System (log_os os) (untap ctx)" quiet_log for h os ctx
proof unfold_locales
  show "logs quiet_log (hsStat (beside_host h) path)" for path :: string
    by (simp add: beside_host_def io_rules)
  show "logs quiet_log (rnRun (System (log_os os) (untap ctx)) c)" if "item_command c" for c
    using logs_SystemRun [OF that] by (simp add: System_def)
  show "logs quiet_log (rnInteractive (System (log_os os) (untap ctx)) (unlock_command path))" for path
    unfolding System_def runner.select_convs SystemInteractive_def log_os_sel
    by (intro io_rules) (auto simp: quiet_log_def value_free_def unlock_command_def kc_terminal_def)
qed

interpretation os_secrets:
  secrets_ports "untap ctx" "over_security (beside_host h) (System (log_os os) (untap ctx)) s"
    quiet_log for ctx h os s
  by (rule logged_os.provides_ports)

text \<open>
  Nothing of a value is logged. With the operating system's runner below the keychain
  adapter, whatever \<open>security\<close> prints and whatever value is set, every entry of the debug
  log of every operation of \<open>lclaw secrets\<close> tells only the tool, arguments made of path and
  name, and the exit status; no output is ever in it.
\<close>

theorem secrets_debug_log:
  "logs quiet_log (List (untap ctx) (over_security (beside_host h) (System (log_os os) (untap ctx)) s) dir) \<and>
   logs quiet_log (Describe (over_security (beside_host h) (System (log_os os) (untap ctx)) s) dir name) \<and>
   logs quiet_log (Get (over_security (beside_host h) (System (log_os os) (untap ctx)) s) dir name) \<and>
   logs quiet_log (Set (untap ctx) (over_security (beside_host h) (System (log_os os) (untap ctx)) s) dir name value) \<and>
   logs quiet_log (Update (untap ctx) (over_security (beside_host h) (System (log_os os) (untap ctx)) s) dir name value generate) \<and>
   logs quiet_log (Delete (over_security (beside_host h) (System (log_os os) (untap ctx)) s) dir name)"
  by (rule os_secrets.all_operations)

end
