(* ===== verification/GoJson.thy ===== *)
theory GoJson
  imports GoErrors
begin

text \<open>
  \<open>encoding/json\<close> as the adapters use it. A text is parsed by the library, which is a
  parameter; what the code relies on is how \<open>Unmarshal\<close> fills a struct, a slice and a map of
  strings from the parsed value, and how \<open>Marshal\<close> writes a string. An object is taken to
  name a field once. The texts of type errors are the library's, too.
\<close>

datatype json =
    JNull | JBool bool | JNum string | JStr string | JArr "json list" | JObj "(string \<times> json) list"

record json_lib =
  jlParse :: "string \<Rightarrow> go_error + json"
  jlMismatch :: "string \<Rightarrow> go_error"

text \<open>The value of a field: its exact name first, else the name without regard to case.\<close>

definition json_field :: "(string \<times> json) list \<Rightarrow> string \<Rightarrow> json option" where
  "json_field obj name =
     (case find (\<lambda>(k, _). k = name) obj of
        Some (_, v) \<Rightarrow> Some v
      | None \<Rightarrow> map_option snd (find (\<lambda>(k, _). map to_upper k = map to_upper name) obj))"

text \<open>
  Filling a variable of a type from a value; \<open>None\<close> is a type error. An absent field and
  \<open>null\<close> leave the zero value.
\<close>

fun json_string :: "json option \<Rightarrow> string option" where
  "json_string (Some (JStr s)) = Some s"
| "json_string (Some JNull) = Some []"
| "json_string None = Some []"
| "json_string _ = None"

fun json_bool :: "json option \<Rightarrow> bool option" where
  "json_bool (Some (JBool b)) = Some b"
| "json_bool (Some JNull) = Some False"
| "json_bool None = Some False"
| "json_bool _ = None"

fun map_options :: "('a \<Rightarrow> 'b option) \<Rightarrow> 'a list \<Rightarrow> 'b list option" where
  "map_options f [] = Some []"
| "map_options f (x # xs) =
     (case f x of None \<Rightarrow> None
      | Some y \<Rightarrow> (case map_options f xs of None \<Rightarrow> None | Some ys \<Rightarrow> Some (y # ys)))"

fun json_slice :: "(json \<Rightarrow> 'a option) \<Rightarrow> json option \<Rightarrow> 'a list option" where
  "json_slice f (Some (JArr xs)) = map_options f xs"
| "json_slice f (Some JNull) = Some []"
| "json_slice f None = Some []"
| "json_slice f _ = None"

fun json_object :: "json option \<Rightarrow> (string \<times> json) list option" where
  "json_object (Some (JObj fs)) = Some fs"
| "json_object (Some JNull) = Some []"
| "json_object None = Some []"
| "json_object _ = None"

definition json_map :: "json option \<Rightarrow> (string \<times> string) list option" where
  "json_map j =
     (case json_object j of None \<Rightarrow> None
      | Some fs \<Rightarrow> map_options (\<lambda>(k, v). map_option (Pair k) (json_string (Some v))) fs)"

definition Unmarshal :: "json_lib \<Rightarrow> (json \<Rightarrow> 'a option) \<Rightarrow> string \<Rightarrow> go_error + 'a" where
  "Unmarshal lib decode text =
     (case jlParse lib text of
        Inl err \<Rightarrow> Inl err
      | Inr j \<Rightarrow> (case decode j of None \<Rightarrow> Inl (jlMismatch lib text) | Some x \<Rightarrow> Inr x))"

text \<open>
  \<open>Marshal\<close> of a string: quotes, backslashes, control bytes and the three characters of
  HTML are escaped; bytes from 128 up are written as they are (valid UTF-8).
\<close>

definition json_char :: "char \<Rightarrow> string" where
  "json_char c =
     (let n = (of_char c :: nat) in
      if c = dquote \<or> c = backslash then [backslash, c]
      else if n = 8 then [backslash, CHR ''b'']
      else if n = 12 then [backslash, CHR ''f'']
      else if n = 10 then [backslash, CHR ''n'']
      else if n = 13 then [backslash, CHR ''r'']
      else if n = 9 then [backslash, CHR ''t'']
      else if n < 32 \<or> n = 60 \<or> n = 62 \<or> n = 38
      then [backslash] @ ''u00'' @ [hex_digit (n div 16), hex_digit (n mod 16)]
      else [c])"

definition json_quote :: "string \<Rightarrow> string" where
  "json_quote s = [dquote] @ concat (map json_char s) @ [dquote]"

lemma map_options_Some: "map_options f xs = Some ys \<longleftrightarrow> map f xs = map Some ys"
proof (induction xs arbitrary: ys)
  case (Cons x xs)
  show ?case by (cases ys) (auto simp: Cons.IH [symmetric] split: option.splits)
qed auto

lemma json_char_plain: "is_digit c \<or> is_lower c \<or> is_upper c \<or> c \<in> {CHR ''+'', CHR ''/'', CHR ''='', CHR ''-''} \<Longrightarrow> json_char c = [c]"
  by (auto simp: json_char_def Let_def dquote_def backslash_def is_digit_def is_lower_def is_upper_def less_eq_char_def)

lemma json_quote_plain: "\<forall>c \<in> set s. json_char c = [c] \<Longrightarrow> json_quote s = [dquote] @ s @ [dquote]"
  by (induction s) (auto simp: json_quote_def)

end
