(* ===== verification/PodmanClient.thy ===== *)
theory PodmanClient
  imports Processes GoJson Encodings
begin

text \<open>
  \<open>internal/adapters/podman\<close>: the machine, workload and secret ports over the \<open>podman\<close>
  command line, as \<open>client.go\<close>, \<open>workloads.go\<close> and \<open>secrets.go\<close> have them.
\<close>

section \<open>Running podman\<close>

definition providerEnv :: string where "providerEnv = ''CONTAINERS_MACHINE_PROVIDER''"

definition podman_tool :: string where "podman_tool = ''podman''"

definition pm_run :: "'w runner \<Rightarrow> string list \<Rightarrow> ('w, cmd_result \<times> go_error option) io" where
  "pm_run rn args = rnRun rn (plain_command podman_tool args)"

definition machine_command :: "string \<Rightarrow> string list \<Rightarrow> command" where
  "machine_command provider args =
     (plain_command podman_tool (''machine'' # args))
       \<lparr>cmEnv := if provider \<noteq> [] then [providerEnv @ ''='' @ provider] else []\<rparr>"

definition runMachine :: "'w runner \<Rightarrow> string \<Rightarrow> string list \<Rightarrow> ('w, cmd_result \<times> go_error option) io" where
  "runMachine rn provider args = rnRun rn (machine_command provider args)"

definition connection :: "string list \<Rightarrow> string list" where
  "connection args = [''--connection'', MachineName] @ args"

definition pm_wrap :: "string \<Rightarrow> go_error \<Rightarrow> go_error" where
  "pm_wrap op err =
     (if errors_is err ExecNotFound then Wrapf (''podman: '' @ op @ '': '') (Sentinel ErrToolNotFound) []
      else Wrapf (''podman: '' @ op @ '': '') err [])"

text \<open>\<open>if _, err := ...; err != nil { return wrap(op, err) }; return nil\<close>\<close>

definition only_error :: "string \<Rightarrow> ('w, cmd_result \<times> go_error option) io \<Rightarrow> ('w, go_error option) io" where
  "only_error op m = do { (_, err) \<leftarrow> m; ret (map_option (pm_wrap op) err) }"

section \<open>The machine\<close>

definition PmVersion :: "'w runner \<Rightarrow> ('w, go_error + version) io" where
  "PmVersion rn = do {
     (res, err) \<leftarrow> pm_run rn [''--version''];
     ret (case err of
            Some e \<Rightarrow> Inl (pm_wrap ''version'' e)
          | None \<Rightarrow>
              (let fs = GoStrings.fields (coStdout res) in
               if fs = [] then Inl (Plain ''podman: version: empty output'')
               else (case ParseVersion (last fs) of
                       Inl e \<Rightarrow> Inl (Wrapf ''podman: version: '' e [])
                     | Inr v \<Rightarrow> Inr v)))
   }"

definition machine_row :: "json \<Rightarrow> machine option" where
  "machine_row j =
     (case json_object (Some j) of None \<Rightarrow> None
      | Some fs \<Rightarrow>
          (case (json_string (json_field fs ''Name''), json_bool (json_field fs ''Running'')) of
             (Some n, Some r) \<Rightarrow> Some \<lparr>mName = n, mRunning = r\<rparr>
           | _ \<Rightarrow> None))"

definition PmListMachines :: "json_lib \<Rightarrow> 'w runner \<Rightarrow> ('w, go_error + machine list) io" where
  "PmListMachines lib rn = do {
     (res, err) \<leftarrow> pm_run rn [''machine'', ''list'', ''--format'', ''json''];
     ret (case err of
            Some e \<Rightarrow> Inl (pm_wrap ''list machines'' e)
          | None \<Rightarrow>
              (let out = trim_space (coStdout res) in
               if out = [] then Inr []
               else (case Unmarshal lib (\<lambda>j. json_slice machine_row (Some j)) out of
                       Inl e \<Rightarrow> Inl (Wrapf ''podman: list machines: decode: '' e [])
                     | Inr rows \<Rightarrow> Inr rows)))
   }"

definition init_args :: "machine_init \<Rightarrow> string list" where
  "init_args m =
     [''init'', miName m, ''--cpus'', itoa (miCPUs m), ''--memory'', itoa (miMemoryMiB m),
      ''--disk-size'', itoa (miDiskGiB m), ''--playbook'', miPlaybook m] @
     (if miVolumes m = [] then [''--volume'', []] else []) @
     concat (map (\<lambda>v. [''--volume'', v]) (miVolumes m))"

definition PmInitMachine :: "'w runner \<Rightarrow> machine_init \<Rightarrow> ('w, go_error option) io" where
  "PmInitMachine rn m =
     only_error (''init machine '' @ miName m) (runMachine rn (miProvider m) (init_args m))"

definition PmStartMachine :: "'w runner \<Rightarrow> string \<Rightarrow> string \<Rightarrow> ('w, go_error option) io" where
  "PmStartMachine rn provider name =
     only_error (''start machine '' @ name) (runMachine rn provider [''start'', ''--no-info'', name])"

definition PmStopMachine :: "'w runner \<Rightarrow> string \<Rightarrow> string \<Rightarrow> ('w, go_error option) io" where
  "PmStopMachine rn provider name =
     only_error (''stop machine '' @ name) (runMachine rn provider [''stop'', name])"

definition PmRemoveMachine :: "'w runner \<Rightarrow> string \<Rightarrow> string \<Rightarrow> ('w, go_error option) io" where
  "PmRemoveMachine rn provider name =
     only_error (''remove machine '' @ name) (runMachine rn provider [''rm'', ''--force'', name])"

definition PodmanMachines :: "json_lib \<Rightarrow> 'w runner \<Rightarrow> 'w machine_runtime" where
  "PodmanMachines lib rn =
     \<lparr>rtVersion = PmVersion rn, rtListMachines = PmListMachines lib rn, rtInitMachine = PmInitMachine rn,
      rtStartMachine = PmStartMachine rn, rtStopMachine = PmStopMachine rn, rtRemoveMachine = PmRemoveMachine rn\<rparr>"

section \<open>Networks and pods\<close>

definition existsResult :: "string \<Rightarrow> go_error option \<Rightarrow> go_error + bool" where
  "existsResult op err =
     (case err of
        None \<Rightarrow> Inr True
      | Some e \<Rightarrow>
          (case as_exit e of
             Some (code, _) \<Rightarrow> if code = 1 then Inr False else Inl (pm_wrap op e)
           | None \<Rightarrow> Inl (pm_wrap op e)))"

definition PmNetworkExists :: "'w runner \<Rightarrow> string \<Rightarrow> ('w, go_error + bool) io" where
  "PmNetworkExists rn name = do {
     (_, err) \<leftarrow> pm_run rn (connection [''network'', ''exists'', name]);
     ret (existsResult (''network exists '' @ name) err)
   }"

definition PmCreateNetwork :: "'w runner \<Rightarrow> string \<Rightarrow> bool \<Rightarrow> ('w, go_error option) io" where
  "PmCreateNetwork rn name internal =
     only_error (''create network '' @ name)
       (pm_run rn (connection ([''network'', ''create''] @ (if internal then [''--internal''] else []) @ [name])))"

definition PmRemoveNetwork :: "'w runner \<Rightarrow> string \<Rightarrow> ('w, go_error option) io" where
  "PmRemoveNetwork rn name =
     only_error (''remove network '' @ name) (pm_run rn (connection [''network'', ''rm'', name]))"

definition PmBuild :: "'w runner \<Rightarrow> string \<Rightarrow> string \<Rightarrow> ('w, go_error option) io" where
  "PmBuild rn tag contextDir =
     only_error (''build '' @ tag) (pm_run rn (connection [''build'', ''--quiet'', ''--tag'', tag, contextDir]))"

definition play_args :: "string \<Rightarrow> string list \<Rightarrow> string \<Rightarrow> string list" where
  "play_args file networks userns =
     [''kube'', ''play'', ''--replace''] @ concat (map (\<lambda>n. [''--network'', n]) networks) @
     (if userns \<noteq> [] then [''--userns'', userns] else []) @ [file]"

definition PmPlay :: "'w runner \<Rightarrow> string \<Rightarrow> string list \<Rightarrow> string \<Rightarrow> ('w, go_error option) io" where
  "PmPlay rn file networks userns =
     only_error (''kube play '' @ file) (pm_run rn (connection (play_args file networks userns)))"

definition PmDown :: "'w runner \<Rightarrow> string \<Rightarrow> ('w, go_error option) io" where
  "PmDown rn file = only_error (''kube down '' @ file) (pm_run rn (connection [''kube'', ''down'', file]))"

definition partOfKey :: string where "partOfKey = ''app.kubernetes.io/part-of''"
definition partOfValue :: string where "partOfValue = ''localclaw''"

definition container_row :: "json \<Rightarrow> container option" where
  "container_row j =
     (case json_object (Some j) of None \<Rightarrow> None
      | Some fs \<Rightarrow>
          (case (json_string (json_field fs ''Names''), json_string (json_field fs ''Status'')) of
             (Some n, Some s) \<Rightarrow> Some \<lparr>ctName = n, ctState = s\<rparr>
           | _ \<Rightarrow> None))"

definition infra_container :: "container \<Rightarrow> bool" where
  "infra_container c \<longleftrightarrow> 6 < length (ctName c) \<and> drop (length (ctName c) - 6) (ctName c) = ''-infra''"

definition pod_row :: "json \<Rightarrow> pod option" where
  "pod_row j =
     (case json_object (Some j) of None \<Rightarrow> None
      | Some fs \<Rightarrow>
          (case (json_string (json_field fs ''Name''), json_slice container_row (json_field fs ''Containers'')) of
             (Some n, Some cs) \<Rightarrow> Some \<lparr>pName = n, pContainers = filter (\<lambda>c. \<not> infra_container c) cs\<rparr>
           | _ \<Rightarrow> None))"

definition PmListPods :: "json_lib \<Rightarrow> 'w runner \<Rightarrow> ('w, go_error + pod list) io" where
  "PmListPods lib rn = do {
     (res, err) \<leftarrow> pm_run rn (connection [''pod'', ''ps'', ''--filter'', ''label='' @ partOfKey @ ''='' @ partOfValue, ''--format'', ''json'']);
     ret (case err of
            Some e \<Rightarrow> Inl (pm_wrap ''list pods'' e)
          | None \<Rightarrow>
              (let out = trim_space (coStdout res) in
               if out = [] then Inr []
               else (case Unmarshal lib (\<lambda>j. json_slice pod_row (Some j)) out of
                       Inl e \<Rightarrow> Inl (Wrapf ''podman: list pods: decode: '' e [])
                     | Inr pods \<Rightarrow> Inr pods)))
   }"

definition PodmanWorkloads :: "json_lib \<Rightarrow> 'w runner \<Rightarrow> 'w workload_runtime" where
  "PodmanWorkloads lib rn =
     \<lparr>wlNetworkExists = PmNetworkExists rn, wlCreateNetwork = PmCreateNetwork rn, wlRemoveNetwork = PmRemoveNetwork rn,
      wlBuild = PmBuild rn, wlPlay = PmPlay rn, wlDown = PmDown rn, wlListPods = PmListPods lib rn\<rparr>"

section \<open>The store of secrets\<close>

fun machine_running :: "machine list \<Rightarrow> bool" where
  "machine_running [] = False"
| "machine_running (m # ms) = (if mName m = MachineName then mRunning m else machine_running ms)"

definition PmMachineRunning :: "json_lib \<Rightarrow> 'w runner \<Rightarrow> ('w, go_error + bool) io" where
  "PmMachineRunning lib rn =
     attempt id (PmListMachines lib rn) (\<lambda>machines. ret (Inr (machine_running machines)))"

text \<open>The Kubernetes Secret; the fields in the order of the struct.\<close>

definition kubeSecret :: "string \<Rightarrow> string \<Rightarrow> string" where
  "kubeSecret name value =
     (let q = json_quote in
      ''{'' @ q ''apiVersion'' @ '':'' @ q ''v1'' @ '','' @ q ''kind'' @ '':'' @ q ''Secret'' @ '','' @
      q ''metadata'' @ '':{'' @ q ''name'' @ '':'' @ q name @ ''},'' @ q ''type'' @ '':'' @ q ''Opaque'' @ '','' @
      q ''data'' @ '':{'' @ q ''value'' @ '':'' @ q (base64_std value) @ ''}}'')"

definition store_command :: "string \<Rightarrow> string \<Rightarrow> command" where
  "store_command name value =
     \<lparr>cmName = podman_tool,
      cmArgs = connection [''secret'', ''create'', ''--replace'', ''--label'', partOfKey @ ''='' @ partOfValue, name, ''-''],
      cmStdin = Some (kubeSecret name value), cmEnv = [], cmSensitive = True\<rparr>"

definition PmStoreSecret :: "'w runner \<Rightarrow> string \<Rightarrow> string \<Rightarrow> ('w, go_error option) io" where
  "PmStoreSecret rn name value = do {
     (_, err) \<leftarrow> rnRun rn (store_command name value);
     ret (map_option (\<lambda>e. pm_wrap (''store secret '' @ name) (Redact e (base64_std value))) err)
   }"

definition PmSecretExists :: "'w runner \<Rightarrow> string \<Rightarrow> ('w, go_error + bool) io" where
  "PmSecretExists rn name = do {
     (_, err) \<leftarrow> pm_run rn (connection [''secret'', ''exists'', name]);
     ret (existsResult (''secret exists '' @ name) err)
   }"

definition PmRemoveSecret :: "'w runner \<Rightarrow> string \<Rightarrow> ('w, go_error option) io" where
  "PmRemoveSecret rn name =
     only_error (''remove secret '' @ name) (pm_run rn (connection [''secret'', ''rm'', name]))"

text \<open>A row of \<open>secret inspect\<close>: the name and the labels of its \<open>Spec\<close>.\<close>

definition secret_row :: "json \<Rightarrow> (string \<times> (string \<times> string) list) option" where
  "secret_row j =
     (case json_object (Some j) of None \<Rightarrow> None
      | Some fs \<Rightarrow>
          (case json_object (json_field fs ''Spec'') of None \<Rightarrow> None
           | Some spec \<Rightarrow>
               (case (json_string (json_field spec ''Name''), json_map (json_field spec ''Labels'')) of
                  (Some n, Some ls) \<Rightarrow> Some (n, ls)
                | _ \<Rightarrow> None)))"

definition label_value :: "(string \<times> string) list \<Rightarrow> string \<Rightarrow> string" where
  "label_value labels k = (case map_of labels k of None \<Rightarrow> [] | Some v \<Rightarrow> v)"

definition PmListSecrets :: "json_lib \<Rightarrow> 'w runner \<Rightarrow> ('w, go_error + string list) io" where
  "PmListSecrets lib rn = do {
     (res, err) \<leftarrow> pm_run rn (connection [''secret'', ''ls'', ''--quiet'']);
     case err of
       Some e \<Rightarrow> ret (Inl (pm_wrap ''list secrets'' e))
     | None \<Rightarrow>
         let ids = GoStrings.fields (coStdout res) in
         if ids = [] then ret (Inr [])
         else do {
           (res, err) \<leftarrow> pm_run rn (connection ([''secret'', ''inspect''] @ ids));
           ret (case err of
                  Some e \<Rightarrow> Inl (pm_wrap ''inspect secrets'' e)
                | None \<Rightarrow>
                    (case Unmarshal lib (\<lambda>j. json_slice secret_row (Some j)) (trim_space (coStdout res)) of
                       Inl e \<Rightarrow> Inl (Wrapf ''podman: inspect secrets: decode: '' e [])
                     | Inr rows \<Rightarrow> Inr (sort (map fst (filter (\<lambda>(_, ls). label_value ls partOfKey = partOfValue) rows)))))
         }
   }"

definition PmRemoveVolume :: "'w runner \<Rightarrow> string \<Rightarrow> ('w, go_error option) io" where
  "PmRemoveVolume rn name = do {
     (_, err) \<leftarrow> pm_run rn (connection [''volume'', ''exists'', name]);
     case existsResult (''volume exists '' @ name) err of
       Inl e \<Rightarrow> ret (Some e)
     | Inr exists \<Rightarrow>
         if \<not> exists then ret None
         else only_error (''remove volume '' @ name) (pm_run rn (connection [''volume'', ''rm'', name]))
   }"

definition PodmanSecrets :: "json_lib \<Rightarrow> 'w runner \<Rightarrow> 'w secret_target" where
  "PodmanSecrets lib rn =
     \<lparr>tgMachineRunning = PmMachineRunning lib rn, tgStoreSecret = PmStoreSecret rn, tgSecretExists = PmSecretExists rn,
      tgRemoveSecret = PmRemoveSecret rn, tgListSecrets = PmListSecrets lib rn, tgRemoveVolume = PmRemoveVolume rn\<rparr>"

section \<open>flox\<close>

text \<open>\<open>internal/adapters/flox/client.go\<close>.\<close>

definition FloxVersion :: "'w runner \<Rightarrow> ('w, go_error + version) io" where
  "FloxVersion rn = do {
     (res, err) \<leftarrow> rnRun rn (plain_command ''flox'' [''--version'']);
     ret (case err of
            Some e \<Rightarrow>
              if errors_is e ExecNotFound then Inl (Wrapf ''flox: version: '' (Sentinel ErrToolNotFound) [])
              else Inl (Wrapf ''flox: version: '' e [])
          | None \<Rightarrow>
              (case ParseVersion (trim_space (coStdout res)) of
                 Inl e \<Rightarrow> Inl (Wrapf ''flox: version: '' e [])
               | Inr v \<Rightarrow> Inr v))
   }"

definition FloxEnvironment :: "'w runner \<Rightarrow> 'w environment_manager" where
  "FloxEnvironment rn = \<lparr>emVersion = FloxVersion rn\<rparr>"

end
