(* ===== verification/PodmanProperties.thy ===== *)
theory PodmanProperties
  imports PodmanClient
begin

text \<open>
  What the operations of the podman adapter on networks, secrets and volumes promise, from
  the commands they run to their answers.
\<close>

section \<open>Contracts\<close>

text \<open>The error of an operation keeps the sentinels of the run's, a missing executable apart.\<close>

definition run_error :: "go_error \<Rightarrow> go_error" where
  "run_error e = (if errors_is e ExecNotFound then Sentinel ErrToolNotFound else e)"

definition same_sentinels :: "go_error \<Rightarrow> go_error \<Rightarrow> bool" where
  "same_sentinels e f \<longleftrightarrow> (\<forall>s. errors_is e s = errors_is f s)"

lemma pm_wrap_same: "same_sentinels (pm_wrap op e) (run_error e)"
  by (simp add: same_sentinels_def pm_wrap_def run_error_def)

lemma pm_wrap_exit: "as_exit (pm_wrap op e) = Some x \<Longrightarrow> as_exit e = Some x"
  by (simp add: pm_wrap_def split: if_splits)

text \<open>Asking for existence: status 0 is yes, status 1 is no, anything else an error.\<close>

definition exists_log :: "command \<Rightarrow> go_error + bool \<Rightarrow> sys_event list \<Rightarrow> bool" where
  "exists_log c r es \<longleftrightarrow>
     (\<exists>a. es = [SyRun c a] \<and>
        (case snd a of
           None \<Rightarrow> r = Inr True
         | Some e \<Rightarrow>
             if map_option fst (as_exit e) = Some 1 then r = Inr False
             else (case r of Inl f \<Rightarrow> same_sentinels f (run_error e) | Inr _ \<Rightarrow> False)))"

lemma existsResult_cases:
  "exists_log c (existsResult op (snd a)) [SyRun c a]"
  by (auto simp: exists_log_def existsResult_def pm_wrap_same split: option.split)

text \<open>A volume is removed only when it is there; no error means that it was absent or is gone.\<close>

definition volume_log :: "string \<Rightarrow> go_error option \<Rightarrow> sys_event list \<Rightarrow> bool" where
  "volume_log n r es \<longleftrightarrow>
     (\<exists>a rest. es = SyRun (plain_command podman_tool (connection [''volume'', ''exists'', n])) a # rest \<and>
        (case snd a of
           None \<Rightarrow> (\<exists>b. rest = [SyRun (plain_command podman_tool (connection [''volume'', ''rm'', n])) b] \<and>
                     (r = None \<longleftrightarrow> snd b = None))
         | Some e \<Rightarrow> rest = [] \<and> (r = None \<longleftrightarrow> map_option fst (as_exit e) = Some 1)))"

text \<open>Storing: one sensitive command with the object in its input; no part of the value's encoding in an error.\<close>

definition store_log :: "string \<Rightarrow> string \<Rightarrow> go_error option \<Rightarrow> sys_event list \<Rightarrow> bool" where
  "store_log n v r es \<longleftrightarrow>
     (\<exists>a. es = [SyRun (store_command n v) a] \<and> (r = None \<longleftrightarrow> snd a = None) \<and>
        (case r of
           None \<Rightarrow> True
         | Some e \<Rightarrow> (case as_exit e of None \<Rightarrow> True | Some (_, t) \<Rightarrow> v = [] \<or> \<not> leaks (base64_std v) t)))"

text \<open>Listing: the labelled names, sorted, of what the two commands told.\<close>

definition list_log :: "json_lib \<Rightarrow> go_error + string list \<Rightarrow> sys_event list \<Rightarrow> bool" where
  "list_log lib r es \<longleftrightarrow>
     (\<exists>a rest. es = SyRun (plain_command podman_tool (connection [''secret'', ''ls'', ''--quiet''])) a # rest \<and>
        (case r of
           Inl _ \<Rightarrow> snd a \<noteq> None \<or> rest \<noteq> []
         | Inr names \<Rightarrow>
             snd a = None \<and> sorted names \<and>
             (if GoStrings.fields (coStdout (fst a)) = [] then rest = [] \<and> names = []
              else (\<exists>b rows. rest = [SyRun (plain_command podman_tool
                        (connection ([''secret'', ''inspect''] @ GoStrings.fields (coStdout (fst a))))) b] \<and> snd b = None \<and>
                      Unmarshal lib (\<lambda>j. json_slice secret_row (Some j)) (trim_space (coStdout (fst b))) = Inr rows \<and>
                      mset names = image_mset fst (filter_mset (\<lambda>(_, ls). label_value ls partOfKey = partOfValue) (mset rows))))))"

section \<open>The encoding\<close>

text \<open>The padded alphabet has no newline, and only the empty string is encoded as empty.\<close>

lemma std_char_one_line: "d < 64 \<Longrightarrow> std_char d \<noteq> newline"
  using url_alpha_plain [OF url_alpha_char, of d] by (auto simp: std_char_def newline_def is_space_def)

lemma base64_std_one_line: "newline \<notin> set (base64_std v)"
proof -
  have b: "\<forall>b \<in> set (map byte_of v). b < 256" by (simp add: byte_of_less)
  have "std_char d \<noteq> newline" if "d \<in> set (sextets (map byte_of v))" for d
    using sextets_bound [OF b] that std_char_one_line by blast
  then show ?thesis by (auto simp: base64_std_def) (auto simp: newline_def)
qed

lemma base64_std_empty [simp]: "base64_std v = [] \<longleftrightarrow> v = []"
  by (cases "map byte_of v" rule: sextets.cases) (auto simp: base64_std_def)

lemma store_error_clean:
  assumes "as_exit (pm_wrap op (Redact e (base64_std v))) = Some (code, t)" and "v \<noteq> []"
  shows "\<not> leaks (base64_std v) t"
  using Redact_leak_free [OF base64_std_one_line _ pm_wrap_exit [OF assms(1)]] assms(2) by simp

section \<open>The operations\<close>

lemma emits_existsResult:
  "emits (exists_log c) (do { (_, err) \<leftarrow> tap (SyRun c) m; ret (existsResult op err) })"
  by (intro emits_rules emits_ret) (metis existsResult_cases snd_conv append_Nil2)

lemma emits_PmSecretExists:
  "emits (exists_log (plain_command podman_tool (connection [''secret'', ''exists'', n]))) (PmSecretExists (log_runner rn) n)"
  unfolding PmSecretExists_def pm_run_def log_sys_sel by (rule emits_existsResult)

lemma emits_PmNetworkExists:
  "emits (exists_log (plain_command podman_tool (connection [''network'', ''exists'', n]))) (PmNetworkExists (log_runner rn) n)"
  unfolding PmNetworkExists_def pm_run_def log_sys_sel by (rule emits_existsResult)

lemma only_error_cases [emits_rules]:
  "emits P (only_error op (tap k m))" if "\<And>a. P (map_option (pm_wrap op) (snd a)) [k a]"
  unfolding only_error_def by (intro emits_rules emits_ret) (use that in auto)

lemma emits_PmRemoveVolume: "emits (volume_log n) (PmRemoveVolume (log_runner rn) n)"
  unfolding PmRemoveVolume_def pm_run_def log_sys_sel
  by (intro emits_rules emits_ret) (auto simp: volume_log_def existsResult_def split: option.splits if_splits)

lemma emits_PmStoreSecret: "emits (store_log n v) (PmStoreSecret (log_runner rn) n v)"
  unfolding PmStoreSecret_def log_sys_sel
  by (intro emits_rules emits_ret) (auto simp: store_log_def store_error_clean split: option.splits)

lemma emits_PmListSecrets: "emits (list_log lib) (PmListSecrets lib (log_runner rn))"
  unfolding PmListSecrets_def pm_run_def log_sys_sel Let_def
  by (intro emits_rules emits_ret) (auto simp: list_log_def split: option.splits sum.splits)

section \<open>The contracts\<close>

text \<open>
  C32: the podman adapter keeps its contracts, from the commands it runs to its answers. Existence
  of a secret or a network is one command whose status 0 is yes and 1 is no; any other failure is
  an error with the sentinels of the run's, a missing executable as the missing tool. A volume is
  removed only when the first command found it, and no error means that it was absent or is gone.
  Storing a secret is one sensitive command with the object in its standard input, and what an
  error shows of its output holds no part of the value's encoding. Listing gives the sorted names
  of the labelled secrets among those that the two commands told.
\<close>

theorem podman_contracts:
  "emits (exists_log (plain_command podman_tool (connection [''secret'', ''exists'', n]))) (PmSecretExists (log_runner rn) n) \<and>
   emits (exists_log (plain_command podman_tool (connection [''network'', ''exists'', n]))) (PmNetworkExists (log_runner rn) n) \<and>
   emits (volume_log n) (PmRemoveVolume (log_runner rn) n) \<and>
   emits (store_log n v) (PmStoreSecret (log_runner rn) n v) \<and>
   emits (list_log lib) (PmListSecrets lib (log_runner rn))"
  by (intro conjI emits_PmSecretExists emits_PmNetworkExists emits_PmRemoveVolume emits_PmStoreSecret emits_PmListSecrets)

end
