(* ===== verification/LiteLLMMinter.thy ===== *)
theory LiteLLMMinter
  imports Processes Topologies
begin

text \<open>
  \<open>internal/adapters/litellm/minter.go\<close>: the minter of virtual keys, which runs scripts
  inside the LiteLLM container. The clock and the timer are operations of the world;
  the poll of \<open>Ready\<close> is a loop with fuel, \<open>None\<close> when the fuel is spent.
\<close>

section \<open>Durations\<close>

text \<open>\<open>time.Duration\<close> counts nanoseconds; \<open>Duration.String\<close>.\<close>

definition nanosecond :: int where "nanosecond = 1"
definition second :: int where "second = 1000000000"
definition minute :: int where "minute = 60 * second"

text \<open>The digits after the point: \<open>v\<close> units of \<open>10 ^ -prec\<close>, trailing zeros dropped.\<close>

fun frac_digits :: "nat \<Rightarrow> nat \<Rightarrow> string \<Rightarrow> string" where
  "frac_digits 0 v acc = acc"
| "frac_digits (Suc prec) v acc =
     frac_digits prec (v div 10) (if v mod 10 = 0 \<and> acc = [] then [] else digit_char (v mod 10) # acc)"

definition frac_text :: "nat \<Rightarrow> nat \<Rightarrow> string" where
  "frac_text prec v = (let ds = frac_digits prec (v mod 10 ^ prec) [] in if ds = [] then [] else CHR ''.'' # ds)"

definition micro_sign :: string where "micro_sign = [CHR 0xC2, CHR 0xB5]"

definition duration_text :: "int \<Rightarrow> string" where
  "duration_text d =
     (let u = nat \<bar>d\<bar>; neg = (if d < 0 then ''-'' else []) in
      if u = 0 then ''0s''
      else if u < 1000 then neg @ dec_digits u @ ''ns''
      else if u < 1000000 then neg @ dec_digits (u div 1000) @ frac_text 3 u @ micro_sign @ ''s''
      else if u < 1000000000 then neg @ dec_digits (u div 1000000) @ frac_text 6 u @ ''ms''
      else
        (let s = u div 1000000000; m = s div 60; h = m div 60;
             secs = dec_digits (s mod 60) @ frac_text 9 u @ ''s'' in
         neg @ (if 0 < h then dec_digits h @ ''h'' else []) @
         (if 0 < m then dec_digits (m mod 60) @ ''m'' else []) @ secs))"

section \<open>Scripts\<close>

definition Container :: string where "Container = ''litellm-litellm''"

definition script_text :: "string list \<Rightarrow> string" where
  "script_text ls = concat (map (\<lambda>l. l @ [newline]) ls)"

definition readyScript :: string where
  \<open>readyScript = script_text
     [''import sys, urllib.request'',
      ''try:'',
      ''    with urllib.request.urlopen("http://127.0.0.1:4000/health/readiness", timeout=5) as r:'',
      ''        sys.exit(0 if r.status == 200 else 1)'',
      ''except Exception as e:'',
      ''    print(e, file=sys.stderr)'',
      ''    sys.exit(1)'']\<close>

definition master_key_lines :: "string list" where
  \<open>master_key_lines =
     [''import json, os, sys, urllib.request'',
      ''key = os.environ.get("LITELLM_MASTER_KEY")'',
      ''if not key:'',
      ''    print("LITELLM_MASTER_KEY is not set in the container", file=sys.stderr)'',
      ''    sys.exit(1)'']\<close>

definition mintScript :: string where
  \<open>mintScript = script_text (master_key_lines @
     [''body = json.dumps({"key_alias": sys.argv[1], "metadata": {"created_by": "lclaw"}}).encode()'',
      ''req = urllib.request.Request("http://127.0.0.1:4000/key/generate", data=body, method="POST",'',
      ''    headers={"Authorization": "Bearer " + key, "Content-Type": "application/json"})'',
      ''with urllib.request.urlopen(req, timeout=30) as r:'',
      ''    print(json.load(r)["key"])''])\<close>

definition revokeScript :: string where
  \<open>revokeScript = script_text (master_key_lines @
     [''value = sys.stdin.readline().rstrip("'' @ [backslash] @ ''n")'',
      ''body = json.dumps({"keys": [value]}).encode()'',
      ''req = urllib.request.Request("http://127.0.0.1:4000/key/delete", data=body, method="POST",'',
      ''    headers={"Authorization": "Bearer " + key, "Content-Type": "application/json"})'',
      ''with urllib.request.urlopen(req, timeout=30) as r:'',
      ''    r.read()'',
      ''print("ok")''])\<close>

definition script_command :: "string \<Rightarrow> string \<Rightarrow> string list \<Rightarrow> command" where
  "script_command script stdin args =
     \<lparr>cmName = ''podman'',
      cmArgs = [''--connection'', MachineName, ''exec'', ''-i'', Container, ''python3'', ''-c'', script] @ args,
      cmStdin = Some stdin, cmEnv = [], cmSensitive = True\<rparr>"

definition mn_exec :: "'w runner \<Rightarrow> string \<Rightarrow> string \<Rightarrow> string list \<Rightarrow> ('w, go_error + string) io" where
  "mn_exec rn script stdin args = do {
     (res, err) \<leftarrow> rnRun rn (script_command script stdin args);
     ret (case err of Some e \<Rightarrow> Inl e | None \<Rightarrow> Inr (trim_space (coStdout res)))
   }"

section \<open>Errors\<close>

definition unavailable :: "go_error \<Rightarrow> go_error" where
  "unavailable err =
     (case as_exit err of
        Some (_, stderr) \<Rightarrow>
          if sublist ''no such container'' stderr \<or> sublist ''is not running'' stderr
          then Sentinel ErrMinterUnavailable
          else if errors_is err ExecNotFound then Wrapf [] (Sentinel ErrToolNotFound) []
          else err
      | None \<Rightarrow>
          if errors_is err ExecNotFound then Wrapf [] (Sentinel ErrToolNotFound) [] else err)"

definition mn_redact :: "go_error \<Rightarrow> go_error" where
  "mn_redact err =
     (case as_exit err of
        Some (_, stderr) \<Rightarrow> Plain (last (split_on newline (trim_space stderr)))
      | None \<Rightarrow> err)"

section \<open>The minter\<close>

text \<open>
  The time, and a timer of \<open>d\<close> against the end of the context: true when the timer fired.
\<close>

record 'w clock =
  ckNow :: "('w, int) io"
  ckTimer :: "int \<Rightarrow> ('w, bool) io"

record 'w minter =
  mnRunner :: "'w runner"
  mnTimeout :: int
  mnInterval :: int
  mnSleep :: "(int \<Rightarrow> ('w, go_error option) io) option"

definition sleepCtx :: "'w clock \<Rightarrow> 'w ctx \<Rightarrow> int \<Rightarrow> ('w, go_error option) io" where
  "sleepCtx ck ctx d = do { fired \<leftarrow> ckTimer ck d; if fired then ret None else ctx }"

definition mn_timeout :: "'w minter \<Rightarrow> int" where
  "mn_timeout m = (if mnTimeout m = 0 then 2 * minute else mnTimeout m)"

definition mn_interval :: "'w minter \<Rightarrow> int" where
  "mn_interval m = (if mnInterval m = 0 then 2 * second else mnInterval m)"

definition mn_sleep :: "'w clock \<Rightarrow> 'w ctx \<Rightarrow> 'w minter \<Rightarrow> int \<Rightarrow> ('w, go_error option) io" where
  "mn_sleep ck ctx m = (case mnSleep m of None \<Rightarrow> sleepCtx ck ctx | Some f \<Rightarrow> f)"

definition not_ready :: "int \<Rightarrow> go_error \<Rightarrow> go_error" where
  "not_ready timeout err = Wrapf (''litellm: not ready after '' @ duration_text timeout @ '': '') (mn_redact err) []"

fun ready_loop :: "nat \<Rightarrow> 'w clock \<Rightarrow> 'w ctx \<Rightarrow> 'w minter \<Rightarrow> int \<Rightarrow> ('w, go_error option option) io" where
  "ready_loop 0 ck ctx m deadline = ret None"
| "ready_loop (Suc n) ck ctx m deadline = do {
     polled \<leftarrow> mn_exec (mnRunner m) readyScript [] [];
     case polled of
       Inr _ \<Rightarrow> ret (Some None)
     | Inl err \<Rightarrow> do {
         cancelled \<leftarrow> ctx;
         if cancelled \<noteq> None then do { e \<leftarrow> ctx; ret (Some e) }
         else do {
           now \<leftarrow> ckNow ck;
           if deadline < now then ret (Some (Some (not_ready (mn_timeout m) err)))
           else do {
             slept \<leftarrow> mn_sleep ck ctx m (mn_interval m);
             case slept of Some e \<Rightarrow> ret (Some (Some e)) | None \<Rightarrow> ready_loop n ck ctx m deadline
           }
         }
       }
   }"

definition MnReady :: "nat \<Rightarrow> 'w clock \<Rightarrow> 'w ctx \<Rightarrow> 'w minter \<Rightarrow> ('w, go_error option option) io" where
  "MnReady fuel ck ctx m = do { start \<leftarrow> ckNow ck; ready_loop fuel ck ctx m (start + mn_timeout m) }"

definition MnMint :: "'w minter \<Rightarrow> string \<Rightarrow> ('w, go_error + string) io" where
  "MnMint m name = do {
     r \<leftarrow> mn_exec (mnRunner m) mintScript [] [name];
     ret (case r of
            Inl err \<Rightarrow> Inl (Wrapf (''litellm: mint '' @ name @ '': '') (unavailable err) [])
          | Inr out \<Rightarrow>
              if out = [] then Inl (Plain (''litellm: mint '' @ name @ '': empty key'')) else Inr out)
   }"

definition MnRevoke :: "'w minter \<Rightarrow> string \<Rightarrow> string \<Rightarrow> ('w, go_error option) io" where
  "MnRevoke m name value = do {
     r \<leftarrow> mn_exec (mnRunner m) revokeScript (value @ [newline]) [];
     ret (case r of
            Inl err \<Rightarrow> Some (Wrapf (''litellm: revoke '' @ name @ '': '') (Redact (unavailable err) value) [])
          | Inr _ \<Rightarrow> None)
   }"

text \<open>
  The polls that are enough when every sleep takes its interval, and the port with that
  fuel.
\<close>

definition ready_fuel :: "'w minter \<Rightarrow> nat" where
  "ready_fuel m = nat (mn_timeout m div mn_interval m) + 2"

definition out_of_fuel :: go_error where "out_of_fuel = Plain ''litellm: out of fuel''"

definition LiteLLM :: "'w clock \<Rightarrow> 'w ctx \<Rightarrow> 'w minter \<Rightarrow> 'w key_minter" where
  "LiteLLM ck ctx m =
     \<lparr>kmReady = do {
        r \<leftarrow> MnReady (ready_fuel m) ck ctx m;
        ret (case r of None \<Rightarrow> Some out_of_fuel | Some e \<Rightarrow> e)
      },
      kmMint = MnMint m, kmRevoke = MnRevoke m\<rparr>"

section \<open>The poll ends\<close>

text \<open>
  A world with a clock that nothing turns back and whose sleeps last: \<open>time\<close> is what the
  clock shows.
\<close>

definition never_back :: "('w \<Rightarrow> int) \<Rightarrow> ('w, 'a) io \<Rightarrow> bool" where
  "never_back time m \<longleftrightarrow> (\<forall>w. time w \<le> time (snd (run_state m w)))"

definition steady :: "('w \<Rightarrow> int) \<Rightarrow> 'w clock \<Rightarrow> 'w ctx \<Rightarrow> 'w minter \<Rightarrow> bool" where
  "steady time ck ctx m \<longleftrightarrow>
     0 < mn_interval m \<and> never_back time ctx \<and> (\<forall>c. never_back time (rnRun (mnRunner m) c)) \<and>
     (\<forall>w. fst (run_state (ckNow ck) w) = time w) \<and> never_back time (ckNow ck) \<and>
     (\<forall>w w'. run_state (mn_sleep ck ctx m (mn_interval m)) w = (None, w') \<longrightarrow> time w + mn_interval m \<le> time w')"

lemma never_back_run: "never_back time m \<Longrightarrow> run_state m w = (a, w') \<Longrightarrow> time w \<le> time w'"
  unfolding never_back_def by (metis snd_conv)

lemma never_back_exec:
  "\<forall>c. never_back time (rnRun rn c) \<Longrightarrow> never_back time (mn_exec rn script stdin args)"
  unfolding never_back_def mn_exec_def by (auto split: prod.splits) (metis snd_conv)

lemma ready_loop_ends:
  assumes st: "steady time ck ctx m"
  shows "1 \<le> n \<Longrightarrow> mn_timeout m div mn_interval m + 2 \<le> int n + k \<Longrightarrow> start + k * mn_interval m \<le> time w \<Longrightarrow>
    fst (run_state (ready_loop n ck ctx m (start + mn_timeout m)) w) \<noteq> None"
proof (induction n arbitrary: k w)
  case (Suc n)
  obtain polled w1 where p: "run_state (mn_exec (mnRunner m) readyScript [] []) w = (polled, w1)" by fastforce
  then have w1: "time w \<le> time w1"
    using st never_back_exec never_back_run unfolding steady_def by metis
  obtain c w2 where c: "run_state ctx w1 = (c, w2)" by fastforce
  then have w2: "time w1 \<le> time w2" using st never_back_run unfolding steady_def by metis
  obtain now w3 where now: "run_state (ckNow ck) w2 = (now, w3)" by fastforce
  then have w3: "time w2 \<le> time w3" "now = time w2"
    using st never_back_run unfolding steady_def by (metis, metis fst_conv)
  obtain s w4 where s: "run_state (mn_sleep ck ctx m (mn_interval m)) w3 = (s, w4)" by fastforce
  have pos: "0 < mn_interval m" using st by (simp add: steady_def)
  have again: "fst (run_state (ready_loop n ck ctx m (start + mn_timeout m)) w4) \<noteq> None"
    if "\<not> start + mn_timeout m < now" and "s = None"
  proof -
    have "time w3 + mn_interval m \<le> time w4" using st s that(2) unfolding steady_def by blast
    then have "start + (k + 1) * mn_interval m \<le> time w4"
      using Suc.prems(3) w1 w2 w3 by (simp add: algebra_simps)
    moreover have "k * mn_interval m \<le> mn_timeout m" using that(1) Suc.prems(3) w1 w2 w3 by linarith
    then have "k \<le> mn_timeout m div mn_interval m" using pos zdiv_mono1 [of "k * mn_interval m" "mn_timeout m" "mn_interval m"] by simp
    ultimately show ?thesis using Suc.prems(2) by (intro Suc.IH [of "k + 1"]) auto
  qed
  show ?case
    using again by (auto simp: p c now s split: sum.splits option.splits prod.splits)
qed simp

text \<open>
  C35: the poll for LiteLLM ends. In a world whose clock is never turned back and whose
  sleeps last their interval, however the container answers, \<open>Ready\<close> returns after at most
  timeout over interval plus two polls.
\<close>

theorem Ready_ends:
  assumes "steady time ck ctx m" and "0 \<le> mn_timeout m" and "ready_fuel m \<le> fuel"
  shows "fst (run_state (MnReady fuel ck ctx m) w) \<noteq> None"
proof -
  obtain start w1 where now: "run_state (ckNow ck) w = (start, w1)" by fastforce
  have "start \<le> time w1"
    using assms(1) now never_back_run unfolding steady_def by (metis fst_conv)
  then have "fst (run_state (ready_loop fuel ck ctx m (start + mn_timeout m)) w1) \<noteq> None"
    using assms(3) by (intro ready_loop_ends [OF assms(1), where k = 0]) (auto simp: ready_fuel_def)
  then show ?thesis by (simp add: MnReady_def now)
qed

text \<open>A clock that only sleeping moves, and a container that never answers.\<close>

definition tick_clock :: "int clock" where
  "tick_clock = \<lparr>ckNow = State (\<lambda>w. (w, w)), ckTimer = (\<lambda>d. State (\<lambda>w. (True, w + d)))\<rparr>"

definition deaf_minter :: "int minter" where
  "deaf_minter =
     \<lparr>mnRunner = \<lparr>rnRun = (\<lambda>c. ret (empty_result, Some (ExitError 125 ''Error: no such container litellm-litellm''))),
        rnInteractive = (\<lambda>c. ret None)\<rparr>,
      mnTimeout = 0, mnInterval = 0, mnSleep = None\<rparr>"

lemma steady_deaf: "steady id tick_clock (ret None) deaf_minter"
  by (simp add: steady_def never_back_def deaf_minter_def tick_clock_def mn_interval_def mn_sleep_def sleepCtx_def
      second_def State_Monad.return_def)

lemma deaf_defaults: "mn_timeout deaf_minter = 120000000000" "ready_fuel deaf_minter = 62"
  by (simp_all add: mn_timeout_def mn_interval_def deaf_minter_def minute_def second_def ready_fuel_def)

theorem Ready_ends_witness: "fst (run_state (MnReady 62 tick_clock (ret None) deaf_minter) 7) \<noteq> None"
  using Ready_ends [OF steady_deaf, of 62 7] by (simp add: deaf_defaults)

section \<open>A container that gets ready in time\<close>

text \<open>
  Nothing cancels, a poll takes at most \<open>delta\<close>, and from the moment \<open>T\<close> on a poll
  succeeds.
\<close>

definition answers_from :: "('w \<Rightarrow> int) \<Rightarrow> int \<Rightarrow> int \<Rightarrow> 'w clock \<Rightarrow> 'w ctx \<Rightarrow> 'w minter \<Rightarrow> bool" where
  "answers_from time delta T ck ctx m \<longleftrightarrow>
     ctx = ret None \<and> (\<forall>w. fst (run_state (mn_sleep ck ctx m (mn_interval m)) w) = None) \<and>
     (\<forall>c w. time (snd (run_state (rnRun (mnRunner m) c) w)) \<le> time w + delta \<and>
       (T \<le> time w \<longrightarrow> snd (fst (run_state (rnRun (mnRunner m) c) w)) = None))"

lemma mn_exec_cases:
  "run_state (mn_exec rn script stdin args) w = (r, w') \<Longrightarrow>
    \<exists>a. run_state (rnRun rn (script_command script stdin args)) w = (a, w') \<and> (snd a = None \<longleftrightarrow> (\<exists>out. r = Inr out))"
  unfolding mn_exec_def by (auto split: prod.splits option.splits)

lemma ready_loop_succeeds:
  assumes st: "steady time ck ctx m" and an: "answers_from time delta T ck ctx m" and "T + delta \<le> deadline"
  shows "fst (run_state (ready_loop n ck ctx m deadline) w) \<in> {None, Some None}"
proof (induction n arbitrary: w)
  case (Suc n)
  obtain polled w1 where p: "run_state (mn_exec (mnRunner m) readyScript [] []) w = (polled, w1)" by fastforce
  obtain a where a: "run_state (rnRun (mnRunner m) (script_command readyScript [] [])) w = (a, w1)"
    "snd a = None \<longleftrightarrow> (\<exists>out. polled = Inr out)" using mn_exec_cases [OF p] by auto
  then have "time w1 \<le> time w + delta" "T \<le> time w \<longrightarrow> snd a = None"
    using an unfolding answers_from_def by (metis fst_conv snd_conv)+
  moreover have ctx: "run_state ctx w1 = (None, w1)" using an by (simp add: answers_from_def State_Monad.return_def)
  obtain now w3 where now: "run_state (ckNow ck) w1 = (now, w3)" by fastforce
  then have "now = time w1" using st unfolding steady_def by (metis fst_conv)
  ultimately have intime: "\<not> deadline < now" if "polled = Inl e" for e using that a(2) assms(3) by auto
  obtain s w4 where s: "run_state (mn_sleep ck ctx m (mn_interval m)) w3 = (s, w4)" by fastforce
  then have "s = None" using an unfolding answers_from_def by (metis fst_conv)
  then show ?case using intime Suc.IH [of w4]
    by (cases polled) (simp_all add: p ctx now s State_Monad.return_def)
qed (simp add: State_Monad.return_def)

text \<open>
  C36: LiteLLM that gets ready is waited for. When nothing cancels, no sleep fails, a poll
  takes at most \<open>delta\<close> and succeeds from some moment on, with \<open>delta\<close> after that moment still
  within the timeout, \<open>Ready\<close> returns without an error.
\<close>

theorem Ready_succeeds:
  assumes "steady time ck ctx m" and "answers_from time delta T ck ctx m"
    and "T + delta \<le> time w + mn_timeout m" and "0 \<le> mn_timeout m" and "ready_fuel m \<le> fuel"
  shows "fst (run_state (MnReady fuel ck ctx m) w) = Some None"
proof -
  obtain w1 where now: "run_state (ckNow ck) w = (time w, w1)"
    using assms(1) unfolding steady_def by (metis prod.collapse)
  then have "time w \<le> time w1" using assms(1) never_back_run unfolding steady_def by metis
  then have "fst (run_state (ready_loop fuel ck ctx m (time w + mn_timeout m)) w1) \<noteq> None"
    using assms(5,4) by (intro ready_loop_ends [OF assms(1), where k = 0]) (auto simp: ready_fuel_def)
  with ready_loop_succeeds [OF assms(1-3), of fuel w1] show ?thesis by (auto simp: MnReady_def now)
qed

text \<open>A container that answers from the hundredth second on.\<close>

definition slow_minter :: "int minter" where
  "slow_minter = deaf_minter\<lparr>mnRunner := \<lparr>rnRun = (\<lambda>c. State (\<lambda>w.
     ((empty_result, if 100 * second \<le> w then None else Some (ExitError 1 ''refused'')), w))),
     rnInteractive = (\<lambda>c. ret None)\<rparr>\<rparr>"

theorem Ready_succeeds_witness:
  "fst (run_state (MnReady 62 tick_clock (ret None) slow_minter) 0) = Some None"
proof (rule Ready_succeeds [where time = id and delta = 0 and T = "100 * second"])
  show "steady id tick_clock (ret None) slow_minter"
    by (simp add: steady_def never_back_def slow_minter_def deaf_minter_def tick_clock_def mn_interval_def
        mn_sleep_def sleepCtx_def second_def State_Monad.return_def)
  show "answers_from id 0 (100 * second) tick_clock (ret None) slow_minter"
    by (simp add: answers_from_def slow_minter_def deaf_minter_def tick_clock_def
        mn_sleep_def sleepCtx_def State_Monad.return_def)
  show "100 * second + 0 \<le> id 0 + mn_timeout slow_minter" "0 \<le> mn_timeout slow_minter"
    "ready_fuel slow_minter \<le> 62"
    by (simp_all add: mn_timeout_def mn_interval_def ready_fuel_def slow_minter_def deaf_minter_def minute_def second_def)
qed

section \<open>What the minter runs\<close>

definition beside_clock :: "'w clock \<Rightarrow> ('w \<times> 'e list) clock" where
  "beside_clock ck = \<lparr>ckNow = untap (ckNow ck), ckTimer = (\<lambda>d. untap (ckTimer ck d))\<rparr>"

definition over_runner :: "('w \<times> 'e list) runner \<Rightarrow> 'w minter \<Rightarrow> ('w \<times> 'e list) minter" where
  "over_runner rn m =
     \<lparr>mnRunner = rn, mnTimeout = mnTimeout m, mnInterval = mnInterval m,
      mnSleep = map_option (\<lambda>f d. untap (f d)) (mnSleep m)\<rparr>"

lemma beside_clock_sel [simp]:
  "ckNow (beside_clock ck) = untap (ckNow ck)" "ckTimer (beside_clock ck) d = untap (ckTimer ck d)"
  by (simp_all add: beside_clock_def)

lemma over_runner_sel [simp]:
  "mnRunner (over_runner rn m) = rn" "mn_timeout (over_runner rn m) = mn_timeout m"
  "mn_interval (over_runner rn m) = mn_interval m"
  by (simp_all add: over_runner_def mn_timeout_def mn_interval_def)

definition exec_answer :: "cmd_result \<times> go_error option \<Rightarrow> go_error + string" where
  "exec_answer a = (case snd a of Some e \<Rightarrow> Inl e | None \<Rightarrow> Inr (trim_space (coStdout (fst a))))"

lemma mn_exec_answer:
  "mn_exec rn script stdin args = State_Monad.bind (rnRun rn (script_command script stdin args)) (\<lambda>a. ret (exec_answer a))"
  by (simp add: mn_exec_def exec_answer_def case_prod_unfold)

lemma emits_mn_exec [emits_rules]:
  "(\<And>a. emits (\<lambda>b fs. P b (SyRun (script_command script stdin args) a # fs)) (f (exec_answer a))) \<Longrightarrow>
    emits P (State_Monad.bind (mn_exec (log_runner rn) script stdin args) f)"
  unfolding mn_exec_answer log_sys_sel by (intro emits_rules)

lemma run_mn_sleep:
  "run_state (mn_sleep (beside_clock ck) (untap ctx) (over_runner rn m) d) (w, tr) = (x, (w', tr')) \<longleftrightarrow>
    run_state (mn_sleep ck ctx m d) w = (x, w') \<and> tr' = tr"
  unfolding mn_sleep_def over_runner_def sleepCtx_def beside_clock_sel
  by (cases "mnSleep m") (auto simp: State_Monad.return_def split: prod.splits if_splits)

lemma run_mn_exec:
  "run_state (mn_exec (log_runner rn) script stdin args) (w, tr) = (x, (w', tr')) \<longleftrightarrow>
    (\<exists>a. run_state (rnRun rn (script_command script stdin args)) w = (a, w') \<and> x = exec_answer a \<and>
      tr' = tr @ [SyRun (script_command script stdin args) a])"
  unfolding mn_exec_answer log_sys_sel by (auto simp: State_Monad.return_def split: prod.splits)

text \<open>
  The polls of one \<open>Ready\<close>: every one before the last failed. When the last succeeds the
  answer is no error. When it failed the answer is an error: the context's, the sleep's, or,
  after the deadline, the one that names the failure of the last poll. Without an answer
  (the fuel is spent) every poll failed.
\<close>

definition ready_command :: command where "ready_command = script_command readyScript [] []"

definition broke_off :: "'w clock \<Rightarrow> 'w ctx \<Rightarrow> 'w minter \<Rightarrow> go_error \<Rightarrow> bool" where
  "broke_off ck ctx m e \<longleftrightarrow>
     (\<exists>w. fst (run_state ctx w) = Some e) \<or> (\<exists>w. fst (run_state (mn_sleep ck ctx m (mn_interval m)) w) = Some e)"

definition polled ::
  "(go_error \<Rightarrow> bool) \<Rightarrow> int \<Rightarrow> go_error option option \<Rightarrow> (cmd_result \<times> go_error option) list \<Rightarrow> bool" where
  "polled broken timeout r polls \<longleftrightarrow>
     (\<forall>a \<in> set (butlast polls). snd a \<noteq> None) \<and>
     (case r of
        None \<Rightarrow> \<forall>a \<in> set polls. snd a \<noteq> None
      | Some None \<Rightarrow> polls \<noteq> [] \<and> snd (last polls) = None
      | Some (Some e) \<Rightarrow>
          (\<exists>err. polls \<noteq> [] \<and> snd (last polls) = Some err \<and> (e = not_ready timeout err \<or> broken e)))"

definition polled_log :: "(go_error \<Rightarrow> bool) \<Rightarrow> int \<Rightarrow> go_error option option \<Rightarrow> sys_event list \<Rightarrow> bool" where
  "polled_log broken timeout r es \<longleftrightarrow> (\<exists>polls. es = map (SyRun ready_command) polls \<and> polled broken timeout r polls)"

lemma polled_Cons: "snd a \<noteq> None \<Longrightarrow> polled broken timeout r polls \<Longrightarrow> polled broken timeout r (a # polls)"
  by (cases polls) (auto simp: polled_def split: option.splits)

lemma ready_loop_run:
  assumes "sticky ctx"
  shows "run_state (ready_loop n (beside_clock ck) (untap ctx) (over_runner (log_runner rn) m) deadline) (w, tr) = (r, (w', tr')) \<Longrightarrow>
    \<exists>polls. tr' = tr @ map (SyRun ready_command) polls \<and> polled (broke_off ck ctx m) (mn_timeout m) r polls"
proof (induction n arbitrary: w tr)
  case 0
  then show ?case by (simp add: State_Monad.return_def polled_def)
next
  case (Suc n)
  obtain a w1 where a: "run_state (rnRun rn ready_command) w = (a, w1)" by fastforce
  let ?tr = "tr @ [SyRun ready_command a]"
  have x: "run_state (mn_exec (log_runner rn) readyScript [] []) (w, tr) = (exec_answer a, (w1, ?tr))"
    unfolding run_mn_exec using a by (auto simp: ready_command_def)
  obtain c w2 where c: "run_state ctx w1 = (c, w2)" by fastforce
  obtain c2 w3 where c2: "run_state ctx w2 = (c2, w3)" by fastforce
  obtain now w4 where now: "run_state (ckNow ck) w2 = (now, w4)" by fastforce
  obtain s w5 where s: "run_state (mn_sleep ck ctx m (mn_interval m)) w4 = (s, w5)" by fastforce
  then have s': "run_state (mn_sleep (beside_clock ck) (untap ctx) (over_runner (log_runner rn) m) (mn_interval m)) (w4, ?tr) =
      (s, (w5, ?tr))"
    by (simp add: run_mn_sleep)
  note runs = x c c2 now s' State_Monad.return_def
  have one: ?case if "tr' = ?tr" "polled (broke_off ck ctx m) (mn_timeout m) r [a]"
    using that by (intro exI [of _ "[a]"]) simp
  show ?case
  proof (cases "snd a")
    case None
    with Suc.prems have "r = Some None" "tr' = ?tr" by (simp_all add: runs exec_answer_def)
    then show ?thesis using None one by (simp add: polled_def)
  next
    case (Some err)
    then have ans: "exec_answer a = Inl err" by (simp add: exec_answer_def)
    have broken: ?thesis if "tr' = ?tr" "r = Some (Some e)" "e = not_ready (mn_timeout m) err \<or> broke_off ck ctx m e" for e
      using that Some one by (simp add: polled_def)
    consider e e2 where "c = Some e" "c2 = Some e2" | "c = None" "deadline < now" | e where "c = None" "\<not> deadline < now" "s = Some e"
      | "c = None" "\<not> deadline < now" "s = None"
      using assms c c2 unfolding sticky_def by (cases c; cases s; cases c2) fastforce+
    then show ?thesis
    proof cases
      case (1 e e2)
      then have "broke_off ck ctx m e2" using c2 unfolding broke_off_def by (metis fst_conv)
      with 1 Suc.prems ans show ?thesis by (intro broken [of e2]) (simp_all add: runs)
    next
      case 2
      with Suc.prems ans show ?thesis by (intro broken [of "not_ready (mn_timeout m) err"]) (simp_all add: runs)
    next
      case (3 e)
      then have "broke_off ck ctx m e" using s unfolding broke_off_def by (metis fst_conv)
      with 3 Suc.prems ans show ?thesis by (intro broken [of e]) (simp_all add: runs)
    next
      case 4
      with Suc.prems ans have "run_state (ready_loop n (beside_clock ck) (untap ctx) (over_runner (log_runner rn) m) deadline)
          (w5, ?tr) = (r, (w', tr'))"
        by (simp add: runs)
      from Suc.IH [OF this] obtain polls where "tr' = ?tr @ map (SyRun ready_command) polls"
        "polled (broke_off ck ctx m) (mn_timeout m) r polls" by blast
      then show ?thesis using polled_Cons [of a] Some by (intro exI [of _ "a # polls"]) auto
    qed
  qed
qed

lemma emits_ready_loop:
  assumes "sticky ctx"
  shows "emits (polled_log (broke_off ck ctx m) (mn_timeout m))
    (ready_loop n (beside_clock ck) (untap ctx) (over_runner (log_runner rn) m) deadline)"
proof (rule emitsI)
  fix w tr a w' tr'
  assume "run_state (ready_loop n (beside_clock ck) (untap ctx) (over_runner (log_runner rn) m) deadline) (w, tr) = (a, w', tr')"
  from ready_loop_run [OF assms this]
  show "\<exists>es. tr' = tr @ es \<and> polled_log (broke_off ck ctx m) (mn_timeout m) a es" unfolding polled_log_def by blast
qed

text \<open>Minting and revoking run one script each; the value to revoke is in its standard input.\<close>

definition minted_log :: "string \<Rightarrow> go_error + string \<Rightarrow> sys_event list \<Rightarrow> bool" where
  "minted_log name r es \<longleftrightarrow>
     (\<exists>a. es = [SyRun (script_command mintScript [] [name]) a] \<and>
        (case r of
           Inr v \<Rightarrow> v \<noteq> [] \<and> snd a = None \<and> v = trim_space (coStdout (fst a))
         | Inl e \<Rightarrow>
             (case snd a of None \<Rightarrow> trim_space (coStdout (fst a)) = []
              | Some f \<Rightarrow> (\<forall>s. errors_is e s \<longleftrightarrow> errors_is (unavailable f) s))))"

definition revoked_log :: "string \<Rightarrow> go_error option \<Rightarrow> sys_event list \<Rightarrow> bool" where
  "revoked_log value r es \<longleftrightarrow>
     (\<exists>a. es = [SyRun (script_command revokeScript (value @ [newline]) []) a] \<and>
        (case (r, snd a) of
           (None, None) \<Rightarrow> True
         | (Some e, Some f) \<Rightarrow>
             (\<forall>s. errors_is e s \<longleftrightarrow> errors_is (unavailable f) s) \<and>
             (case as_exit e of None \<Rightarrow> True | Some (_, t) \<Rightarrow>
                \<not> line_leaks value t \<and> (newline \<notin> set value \<and> value \<noteq> [] \<longrightarrow> \<not> leaks value t))
         | _ \<Rightarrow> False))"

lemma Redact_errors_is: "errors_is (Redact e secret) s \<longleftrightarrow> errors_is e s"
  using errors_is_no_exit [of e s] by (auto simp: Redact_def split: option.splits)

lemma emits_MnMint: "emits (minted_log name) (MnMint (over_runner (log_runner rn) m) name)"
  unfolding MnMint_def over_runner_sel
  by (intro emits_rules emits_ret) (auto simp: minted_log_def exec_answer_def split: option.splits)

lemma emits_MnRevoke: "emits (revoked_log value) (MnRevoke (over_runner (log_runner rn) m) name value)"
  unfolding MnRevoke_def over_runner_sel
  by (intro emits_rules emits_ret)
    (auto simp: revoked_log_def exec_answer_def Redact_errors_is Redact_leak_free Redact_line_free split: option.splits)

text \<open>
  C37: what the minter runs and answers. \<open>Ready\<close> runs nothing but its poll and goes on only
  after a failed one; it returns no error exactly when its last poll succeeded, and
  otherwise the error of the context or the sleep that broke it off, or one that names the
  failure of the last poll. \<open>Mint\<close> and \<open>Revoke\<close> run one sensitive script in the container,
  the first with the name as its argument, the second with the value in its standard input
  only. \<open>Mint\<close> returns the trimmed output, and an error when the run failed or printed
  nothing; \<open>Revoke\<close> an error exactly when the run failed. A failed run's error keeps its
  sentinels, a missing container as the unavailable minter, and what a revoke's error shows
  of the output has no fragment of 16 characters of the value that is on one line.
\<close>

theorem minter_runs:
  assumes "sticky ctx"
  shows "emits (polled_log (broke_off ck ctx m) (mn_timeout m))
     (MnReady fuel (beside_clock ck) (untap ctx) (over_runner (log_runner rn) m)) \<and>
   emits (minted_log name) (MnMint (over_runner (log_runner rn) m) name) \<and>
   emits (revoked_log value) (MnRevoke (over_runner (log_runner rn) m) name value)"
  unfolding MnReady_def over_runner_sel beside_clock_sel
  by (intro conjI emits_rules emits_ready_loop emits_MnMint emits_MnRevoke assms)

text \<open>One poll refused, one answered.\<close>

lemma slow_steps:
  "run_state (rnRun (mnRunner slow_minter) c) w =
     ((empty_result, if 100 * second \<le> w then None else Some (ExitError 1 ''refused'')), w)"
  "run_state (ckNow tick_clock) w = (w, w)"
  "run_state (mn_sleep (beside_clock tick_clock) (untap (ret None)) (over_runner rn slow_minter) d) (w, tr) = (None, (w + d, tr))"
  "mn_timeout slow_minter = 120 * second" "mn_interval slow_minter = 2 * second"
  by (simp_all add: run_mn_sleep)
    (simp_all add: slow_minter_def deaf_minter_def tick_clock_def mn_sleep_def sleepCtx_def mn_timeout_def mn_interval_def
      minute_def State_Monad.return_def)

theorem minter_runs_witness:
  "\<exists>es. run_state (MnReady 3 (beside_clock tick_clock) (untap (ret None)) (over_runner (log_runner (mnRunner slow_minter)) slow_minter))
       (99 * second, []) = (Some None, (101 * second, es)) \<and>
     polled_log (broke_off tick_clock (ret None) slow_minter) (mn_timeout slow_minter) (Some None) es \<and> length es = 2"
proof -
  obtain es where run: "run_state (MnReady 3 (beside_clock tick_clock) (untap (ret None))
      (over_runner (log_runner (mnRunner slow_minter)) slow_minter)) (99 * second, []) = (Some None, (101 * second, [] @ es))"
    and len: "length es = 2"
    by (simp add: MnReady_def numeral_3_eq_3 mn_exec_answer exec_answer_def slow_steps second_def)
  have "polled_log (broke_off tick_clock (ret None) slow_minter) (mn_timeout slow_minter) (Some None) es"
    by (rule emits_run [OF conjunct1 [OF minter_runs [OF sticky_never]] run]) simp
  with run len show ?thesis by auto
qed

section \<open>A container that never answers\<close>

text \<open>
  Every poll exits with an error, nothing cancels and no sleep fails: \<open>Ready\<close> ends with an
  error of its own, which is not the unavailable minter.
\<close>

definition never_answers :: "'w clock \<Rightarrow> 'w ctx \<Rightarrow> 'w minter \<Rightarrow> bool" where
  "never_answers ck ctx m \<longleftrightarrow>
     ctx = ret None \<and> (\<forall>w. fst (run_state (mn_sleep ck ctx m (mn_interval m)) w) = None) \<and>
     (\<forall>c w. \<exists>e. snd (fst (run_state (rnRun (mnRunner m) c) w)) = Some e \<and> as_exit e \<noteq> None)"

lemma ready_loop_fails:
  assumes "never_answers ck ctx m"
  shows "fst (run_state (ready_loop n ck ctx m deadline) w) = None \<or>
    (\<exists>e. fst (run_state (ready_loop n ck ctx m deadline) w) = Some (Some e) \<and> (\<forall>s. \<not> errors_is e s))"
proof (induction n arbitrary: w)
  case (Suc n)
  obtain polled w1 where p: "run_state (mn_exec (mnRunner m) readyScript [] []) w = (polled, w1)" by fastforce
  obtain a where a: "run_state (rnRun (mnRunner m) (script_command readyScript [] [])) w = (a, w1)"
    using mn_exec_cases [OF p] by auto
  then obtain e where e: "snd a = Some e" "as_exit e \<noteq> None"
    using assms unfolding never_answers_def by (metis fst_conv)
  then have polled: "polled = Inl e" using p a by (auto simp: mn_exec_def split: prod.splits)
  have ctx: "run_state ctx w1 = (None, w1)" using assms by (simp add: never_answers_def State_Monad.return_def)
  obtain now w3 where now: "run_state (ckNow ck) w1 = (now, w3)" by fastforce
  obtain s w4 where s: "run_state (mn_sleep ck ctx m (mn_interval m)) w3 = (s, w4)" by fastforce
  then have "s = None" using assms unfolding never_answers_def by (metis fst_conv)
  moreover have "\<not> errors_is (not_ready (mn_timeout m) e) t" for t
    using e(2) by (auto simp: not_ready_def mn_redact_def)
  ultimately show ?case using Suc.IH [of w4]
    by (auto simp: p polled ctx now s State_Monad.return_def)
qed (simp add: State_Monad.return_def)

text \<open>
  A container that never answers. \<open>Ready\<close> then returns an error, but one that wraps no
  sentinel: a missing container is not reported as the unavailable minter.
\<close>

theorem Ready_gives_up:
  assumes "steady time ck ctx m" and "never_answers ck ctx m" and "0 \<le> mn_timeout m" and "ready_fuel m \<le> fuel"
  shows "\<exists>e. fst (run_state (MnReady fuel ck ctx m) w) = Some (Some e) \<and> (\<forall>s. \<not> errors_is e s)"
proof -
  obtain start w1 where now: "run_state (ckNow ck) w = (start, w1)" by fastforce
  then have "start \<le> time w1" using assms(1) never_back_run unfolding steady_def by (metis fst_conv)
  then have "fst (run_state (ready_loop fuel ck ctx m (start + mn_timeout m)) w1) \<noteq> None"
    using assms(3,4) by (intro ready_loop_ends [OF assms(1), where k = 0]) (auto simp: ready_fuel_def)
  with ready_loop_fails [OF assms(2), of fuel "start + mn_timeout m" w1] show ?thesis
    by (auto simp: MnReady_def now)
qed

theorem Ready_gives_up_witness:
  "\<exists>e. fst (run_state (MnReady 62 tick_clock (ret None) deaf_minter) 0) = Some (Some e) \<and>
     (\<forall>s. \<not> errors_is e s)"
proof (rule Ready_gives_up [OF steady_deaf])
  show "never_answers tick_clock (ret None) deaf_minter"
    by (simp add: never_answers_def deaf_minter_def tick_clock_def mn_sleep_def sleepCtx_def State_Monad.return_def)
qed (simp_all add: deaf_defaults)

end
