(* ===== verification/TomlLoader.thy ===== *)
theory TomlLoader
  imports Ports Paths "HOL-Library.Product_Lexorder"
begin

text \<open>
  \<open>internal/adapters/toml/loader.go\<close>: from the text of \<open>lclaw.toml\<close> to the topology. The
  TOML library and the home directory are parameters; a Go map is a list of its entries,
  in any order, each key once.
\<close>

section \<open>The decoded file\<close>

record toml_machine =
  tmCPUs :: int
  tmMemoryMiB :: int
  tmDiskGiB :: int
  tmVolumes :: "string list"
  tmWorkloads :: "string list"
  tmSecrets :: "string list"

record toml_zone =
  tzInternal :: bool
  tzWorkloads :: "string list"
  tzSecrets :: "string list"
  tzBridges :: "(string \<times> string list) list"

record toml_file =
  tfSchema :: int
  tfProvider :: string
  tfKeychainPath :: string
  tfMachine :: toml_machine
  tfZones :: "(string \<times> toml_zone) list"
  tfMachines :: "(string \<times> toml_machine) list"

text \<open>\<open>burnt.Decode\<close>: an error, or the file and the keys that found no place, as text.\<close>

type_synonym toml_lib = "string \<Rightarrow> go_error + toml_file \<times> string list"

section \<open>Loading\<close>

text \<open>The loader's own \<open>roleRank\<close>, a loop over the roles.\<close>

fun loader_rank_loop :: "nat \<Rightarrow> role list \<Rightarrow> string \<Rightarrow> nat option" where
  "loader_rank_loop i [] name = None"
| "loader_rank_loop i (r # rs) name = (if role_name r = name then Some i else loader_rank_loop (Suc i) rs name)"

definition loader_rank :: "string \<Rightarrow> nat" where
  "loader_rank name = (case loader_rank_loop 0 Roles name of Some i \<Rightarrow> i | None \<Rightarrow> length Roles)"

definition is_abs :: "string \<Rightarrow> bool" where
  "is_abs p \<longleftrightarrow> prefix ''/'' p"

definition keychainPath :: "('w, go_error + string) io \<Rightarrow> string \<Rightarrow> ('w, go_error + string) io" where
  "keychainPath home p =
     (let raw = (if p = [] then DefaultKeychainPath else p);
          finish = (\<lambda>p. ret (if \<not> is_abs p
            then Inl (Plain (TopologyFile @ '': keychain path '' @ quote raw @ '' must be absolute or start with ~/''))
            else Inr (path_clean p))) in
      if prefix ''~/'' raw then do {
        h \<leftarrow> home;
        case h of
          Inl err \<Rightarrow> ret (Inl (Wrapf (TopologyFile @ '': keychain path '' @ quote raw @ '': '') err []))
        | Inr dir \<Rightarrow> finish (path_join dir (drop 2 raw))
      }
      else finish raw)"

definition zone_of :: "string \<times> toml_zone \<Rightarrow> zone_spec" where
  "zone_of e =
     (case e of (name, z) \<Rightarrow>
        \<lparr>zName = name, zInternal = tzInternal z, zWorkloads = tzWorkloads z, zSecrets = tzSecrets z,
         zBridges = tzBridges z\<rparr>)"

text \<open>The zones by rank, then by name: names are distinct, so the order is the only one.\<close>

definition zone_order :: "(string \<times> toml_zone) list \<Rightarrow> (string \<times> toml_zone) list" where
  "zone_order zs = sort_key (\<lambda>(name, _). (loader_rank name, name)) zs"

definition toDomain :: "('w, go_error + string) io \<Rightarrow> toml_file \<Rightarrow> ('w, go_error + topology) io" where
  "toDomain home f =
     attempt id (keychainPath home (tfKeychainPath f)) (\<lambda>path.
       ret (Inr
         \<lparr>tSchema = tfSchema f, tProvider = tfProvider f, tKeychainPath = path,
          tMachine = \<lparr>msCPUs = tmCPUs (tfMachine f), msMemoryMiB = tmMemoryMiB (tfMachine f),
            msDiskGiB = tmDiskGiB (tfMachine f), msVolumes = tmVolumes (tfMachine f)\<rparr>,
          tZones = map zone_of (zone_order (tfZones f))\<rparr>))"

definition Load :: "toml_lib \<Rightarrow> ('w, go_error + string) io \<Rightarrow> fsys \<Rightarrow> ('w, go_error + topology) io" where
  "Load lib home fs =
     (case fsRead fs TopologyFile of
        Inl err \<Rightarrow> ret (Inl (Wrapf (''toml: read '' @ TopologyFile @ '': '') err []))
      | Inr data \<Rightarrow>
          (case lib data of
             Inl err \<Rightarrow> ret (Inl (Wrapf (TopologyFile @ '': '') err []))
           | Inr (f, undecoded) \<Rightarrow>
               if undecoded \<noteq> []
               then ret (Inl (Plain (TopologyFile @ '': unknown keys: '' @ join_with '', '' undecoded)))
               else toDomain home f))"

definition Loader :: "toml_lib \<Rightarrow> ('w, go_error + string) io \<Rightarrow> 'w topology_loader" where
  "Loader lib home = \<lparr>tlLoad = Load lib home\<rparr>"

section \<open>What loading gives\<close>

text \<open>A library that decodes into Go maps: every key once.\<close>

definition lawful_toml :: "toml_lib \<Rightarrow> bool" where
  "lawful_toml lib \<longleftrightarrow>
     (\<forall>text f ks. lib text = Inr (f, ks) \<longrightarrow>
        go_map (tfZones f) \<and> (\<forall>(_, z) \<in> set (tfZones f). go_map (tzBridges z)))"

text \<open>A path as \<open>filepath.Clean\<close> leaves an absolute one.\<close>

definition clean_absolute :: "string \<Rightarrow> bool" where
  "clean_absolute p \<longleftrightarrow> (\<exists>es. list_all plain_elem es \<and> p = slash # join_with [slash] es)"

text \<open>The well-formedness of a loaded topology.\<close>

definition loaded_topology :: "topology \<Rightarrow> bool" where
  "loaded_topology t \<longleftrightarrow>
     distinct (map zName (tZones t)) \<and> sorted (map (\<lambda>z. (roleRank (zName z), zName z)) (tZones t)) \<and>
     go_topology t \<and> clean_absolute (tKeychainPath t)"

lemma loader_rank_loop_rank:
  "loader_rank_loop i rs name = (if rank_in rs name < length rs then Some (i + rank_in rs name) else None)"
  by (induction rs arbitrary: i) auto

lemma rank_in_le: "rank_in rs name \<le> length rs"
  by (induction rs) auto

lemma loader_rank: "loader_rank name = roleRank name"
  using rank_in_le [of Roles name] by (simp add: loader_rank_def roleRank_def loader_rank_loop_rank)

lemma clean_step_plain: "list_all plain_elem out \<Longrightarrow> slash \<notin> set e \<Longrightarrow> list_all plain_elem (clean_step True out e)"
  by (auto simp: list_all_iff plain_elem_def dest: in_set_butlastD)

lemma clean_elems_plain:
  "\<forall>e \<in> set es. slash \<notin> set e \<Longrightarrow> list_all plain_elem (clean_elems True es)"
  by (induction es rule: rev_induct) (simp_all add: clean_elems_def clean_step_plain del: clean_step.simps)

lemma path_clean_absolute:
  assumes "is_abs p" shows "clean_absolute (path_clean p)"
proof -
  have r: "rooted_path p" using assms by (auto simp: is_abs_def rooted_path_def slash_def prefix_def)
  then have "list_all plain_elem (path_elems p)"
    unfolding path_elems_def by (auto intro!: clean_elems_plain dest: split_on_no_sep)
  with r show ?thesis unfolding clean_absolute_def by (auto simp: path_clean_elems)
qed

lemma keychainPath_clean: "run_state (keychainPath home p) w = (Inr path, w') \<Longrightarrow> clean_absolute path"
  unfolding keychainPath_def Let_def
  by (auto simp: path_clean_absolute State_Monad.return_def split: if_splits prod.splits sum.splits)

text \<open>Cleaning again changes nothing: the path names one file.\<close>

lemma path_clean_idem: "clean_absolute p \<Longrightarrow> path_clean p = p"
proof -
  assume "clean_absolute p"
  then obtain es where es: "list_all plain_elem es" and p: "p = slash # join_with [slash] es"
    unfolding clean_absolute_def by blast
  have r: "rooted_path p" by (simp add: p rooted_path_def)
  have "path_elems p = es"
  proof (cases "es = []")
    case True
    then show ?thesis by (simp add: p path_elems_def rooted_path_def clean_elems_def)
  next
    case False
    then have "split_on slash p = [] # es" using es by (simp add: p split_plain)
    then show ?thesis using clean_elems_append_plain [OF es, of True "[[]]"] r
      by (simp add: path_elems_def clean_elems_def)
  qed
  then show ?thesis using r by (simp add: path_clean_elems p)
qed

lemma zone_order_set: "set (zone_order zs) = set zs" "map fst (zone_order zs) = sort_key (\<lambda>n. (loader_rank n, n)) (map fst zs)"
proof -
  show "set (zone_order zs) = set zs" by (simp add: zone_order_def)
  have "sorted (map (\<lambda>n. (loader_rank n, n)) (map fst (zone_order zs)))"
    using sorted_sort_key [of "\<lambda>(name, _). (loader_rank name, name)" zs]
    by (simp add: zone_order_def comp_def case_prod_unfold)
  moreover have "mset (map fst (zone_order zs)) = mset (map fst zs)" by (simp add: zone_order_def)
  ultimately show "map fst (zone_order zs) = sort_key (\<lambda>n. (loader_rank n, n)) (map fst zs)"
    by (intro sort_key_inj_key_eq [symmetric]) (auto intro: inj_onI)
qed

lemma zName_zone_of [simp]: "zName (zone_of e) = fst e" "zBridges (zone_of e) = tzBridges (snd e)"
  by (simp_all add: zone_of_def case_prod_unfold)

lemma toDomain_loaded:
  assumes "run_state (toDomain home f) w = (Inr t, w')" and "go_map (tfZones f)"
    and "\<forall>(_, z) \<in> set (tfZones f). go_map (tzBridges z)"
  shows "loaded_topology t"
proof -
  obtain r w1 where k: "run_state (keychainPath home (tfKeychainPath f)) w = (r, w1)" by fastforce
  with assms(1) obtain path where r: "r = Inr path"
    by (cases r) (simp_all add: toDomain_def attempt_def State_Monad.return_def)
  with assms(1) k have t: "tKeychainPath t = path" "tZones t = map zone_of (zone_order (tfZones f))"
    by (auto simp: toDomain_def attempt_def State_Monad.return_def)
  have names: "map zName (tZones t) = sort_key (\<lambda>n. (loader_rank n, n)) (map fst (tfZones f))"
    by (simp add: t comp_def flip: zone_order_set(2))
  have "map (\<lambda>z. (roleRank (zName z), zName z)) (tZones t) = map (\<lambda>n. (loader_rank n, n)) (map zName (tZones t))"
    by (simp add: loader_rank)
  then have "sorted (map (\<lambda>z. (roleRank (zName z), zName z)) (tZones t))"
    unfolding names by (simp only: sorted_sort_key)
  moreover have "distinct (map zName (tZones t))" using assms(2) by (simp add: names go_map_def)
  moreover have "go_topology t" using assms(3) by (auto simp: go_topology_def t zone_order_set)
  ultimately show ?thesis using keychainPath_clean [OF k [unfolded r]] by (simp add: loaded_topology_def t)
qed

definition loads_well :: "go_error + topology \<Rightarrow> bool" where
  "loads_well r \<longleftrightarrow>
     (case r of Inl _ \<Rightarrow> True | Inr t \<Rightarrow> loaded_topology t \<and> path_clean (tKeychainPath t) = tKeychainPath t)"

text \<open>
  C33: a loaded topology is well formed. Whatever file is read, zone names are distinct and
  in role order, then alphabetical; bridges are maps, as validation needs; and the
  keychain path is absolute and clean, so cleaning it again changes nothing.
\<close>

theorem Load_well_formed:
  assumes "lawful_toml lib" shows "loads_well (fst (run_state (Load lib home fs) w))"
proof (cases "fst (run_state (Load lib home fs) w)")
  case (Inr t)
  then obtain w' where run: "run_state (Load lib home fs) w = (Inr t, w')" by (metis prod.collapse)
  then obtain data f where d: "lib data = Inr (f, [])" and dom: "run_state (toDomain home f) w = (Inr t, w')"
    by (auto simp: Load_def State_Monad.return_def split: sum.splits prod.splits if_splits)
  have "loaded_topology t"
    using toDomain_loaded [OF dom] d assms unfolding lawful_toml_def by blast
  then show ?thesis using Inr path_clean_idem by (simp add: loads_well_def loaded_topology_def)
qed (simp add: loads_well_def)

definition sample_zone :: toml_zone where
  "sample_zone = \<lparr>tzInternal = False, tzWorkloads = [''w''], tzSecrets = [], tzBridges = []\<rparr>"

definition sample_file :: toml_file where
  "sample_file =
     \<lparr>tfSchema = 2, tfProvider = ''applehv'', tfKeychainPath = [],
      tfMachine = \<lparr>tmCPUs = 4, tmMemoryMiB = 4096, tmDiskGiB = 40, tmVolumes = [], tmWorkloads = [], tmSecrets = []\<rparr>,
      tfZones = [(''extra'', sample_zone), (''agent'', sample_zone), (''infra'', sample_zone)], tfMachines = []\<rparr>"

definition sample_fs :: fsys where
  "sample_fs = \<lparr>fsRead = (\<lambda>_. Inr ''schema = 2''), fsStat = (\<lambda>_. True)\<rparr>"

definition sample_load :: "go_error + topology" where
  "sample_load = fst (run_state (Load (\<lambda>_. Inr (sample_file, [])) (ret (Inr ''/Users//me'')) sample_fs) ())"

theorem Load_well_formed_witness:
  "loads_well sample_load \<and>
   (case sample_load of Inl _ \<Rightarrow> False
    | Inr t \<Rightarrow> tKeychainPath t = ''/Users/me/Library/Keychains/lclaw.keychain-db'' \<and>
        map zName (tZones t) = [''infra'', ''agent'', ''extra''])"
proof
  have "lawful_toml (\<lambda>_. Inr (sample_file, []))"
    by (simp add: lawful_toml_def sample_file_def sample_zone_def go_map_def)
  then show "loads_well sample_load"
    unfolding sample_load_def by (rule Load_well_formed)
  show "case sample_load of Inl _ \<Rightarrow> False
    | Inr t \<Rightarrow> tKeychainPath t = ''/Users/me/Library/Keychains/lclaw.keychain-db'' \<and>
        map zName (tZones t) = [''infra'', ''agent'', ''extra'']"
    by code_simp
qed

text \<open>
  C34: the order in which a Go map is walked does not matter. Two walks of the same zones
  table give the same topology.
\<close>

theorem zone_order_unique:
  assumes "go_map zs" and "go_map zs'" and "set zs = set zs'"
  shows "map zone_of (zone_order zs) = map zone_of (zone_order zs')"
proof -
  have d: "distinct zs" "distinct zs'" "inj_on fst (set zs)"
    using assms by (simp_all add: go_map_def distinct_map)
  have ms: "mset zs = mset zs'" using set_eq_iff_mset_eq_distinct [OF d(1,2)] assms(3) by (rule iffD1)
  have inj: "inj_on (\<lambda>(name, _). (loader_rank name, name)) (set zs)"
  proof (rule inj_onI)
    fix x y
    assume "x \<in> set zs" "y \<in> set zs" "(case x of (name, _) \<Rightarrow> (loader_rank name, name)) = (case y of (name, _) \<Rightarrow> (loader_rank name, name))"
    then show "x = y" using inj_onD [OF d(3)] by (simp add: case_prod_unfold)
  qed
  have "zone_order zs = zone_order zs'"
    unfolding zone_order_def
    by (rule sort_key_inj_key_eq [OF _ inj sorted_sort_key]) (simp add: ms)
  then show ?thesis by simp
qed

theorem zone_order_unique_witness:
  "map zone_of (zone_order (tfZones sample_file)) = map zone_of (zone_order (rev (tfZones sample_file)))"
  by (rule zone_order_unique) (auto simp: sample_file_def go_map_def)

end
