(* ===== verification/ScaffoldFiles.thy ===== *)
theory ScaffoldFiles
  imports Ports Paths
begin

text \<open>
  \<open>internal/adapters/osfs/system.go\<close>: opening a scaffold directory and writing a file. The
  calls of package \<open>os\<close> are operations of the world; an answer of \<open>Stat\<close> is whether the
  path is a directory.
\<close>

section \<open>The operations\<close>

record 'w os_files =
  ofStat :: "string \<Rightarrow> ('w, go_error + bool) io"
  ofLstat :: "string \<Rightarrow> ('w, go_error + bool) io"
  ofDirFS :: "string \<Rightarrow> ('w, fsys) io"
  ofMkdirAll :: "string \<Rightarrow> ('w, go_error option) io"
  ofCreateTemp :: "string \<Rightarrow> string \<Rightarrow> ('w, go_error + string) io"
  ofWrite :: "string \<Rightarrow> string \<Rightarrow> ('w, go_error option) io"
  ofChmod :: "string \<Rightarrow> ('w, go_error option) io"
  ofClose :: "string \<Rightarrow> ('w, go_error option) io"
  ofRemove :: "string \<Rightarrow> ('w, go_error option) io"
  ofRename :: "string \<Rightarrow> string \<Rightarrow> ('w, go_error option) io"

text \<open>\<open>filepath.Base\<close>.\<close>

definition path_base :: "string \<Rightarrow> string" where
  "path_base p =
     (if p = [] then ''.''
      else
        (let s = dropWhile (\<lambda>c. c = slash) (rev p); b = rev (takeWhile (\<lambda>c. c \<noteq> slash) s) in
         if b = [] then [slash] else b))"

definition OpenDir :: "'w os_files \<Rightarrow> string \<Rightarrow> ('w, go_error + fsys) io" where
  "OpenDir os dir = do {
     info \<leftarrow> ofStat os dir;
     case info of
       Inl err \<Rightarrow> ret (Inl (Wrapf (''osfs: open '' @ dir @ '': '') err []))
     | Inr is_dir \<Rightarrow>
         if \<not> is_dir then ret (Inl (Plain (''osfs: open '' @ dir @ '': not a directory'')))
         else do { fs \<leftarrow> ofDirFS os dir; ret (Inr fs) }
   }"

text \<open>The open file is known by its name; the error of a \<open>Close\<close> after an error is dropped.\<close>

definition fill :: "'w os_files \<Rightarrow> string \<Rightarrow> string \<Rightarrow> ('w, go_error option) io" where
  "fill os f data = do {
     written \<leftarrow> ofWrite os f data;
     case written of
       Some err \<Rightarrow> do { _ \<leftarrow> ofClose os f; ret (Some err) }
     | None \<Rightarrow> do {
         changed \<leftarrow> ofChmod os f;
         case changed of
           Some err \<Rightarrow> do { _ \<leftarrow> ofClose os f; ret (Some err) }
         | None \<Rightarrow> ofClose os f
       }
   }"

definition write_error :: "string \<Rightarrow> go_error \<Rightarrow> go_error" where
  "write_error path err = Wrapf (''osfs: write '' @ path @ '': '') err []"

definition write_refused :: "string \<Rightarrow> bool \<Rightarrow> go_error + bool \<Rightarrow> go_error option" where
  "write_refused path overwrite info =
     (case info of
        Inr is_dir \<Rightarrow>
          if is_dir then Some (Plain (''osfs: write '' @ path @ '': is a directory''))
          else if \<not> overwrite then Some (write_error path (Sentinel FsExist))
          else None
      | Inl err \<Rightarrow> if \<not> errors_is err FsNotExist then Some (write_error path err) else None)"

definition temp_pattern :: "string \<Rightarrow> string" where
  "temp_pattern path = ''.'' @ path_base path @ ''.*.tmp''"

definition OsWriteFile :: "'w os_files \<Rightarrow> string \<Rightarrow> string \<Rightarrow> bool \<Rightarrow> ('w, go_error option) io" where
  "OsWriteFile os path data overwrite = do {
     info \<leftarrow> ofLstat os path;
     case write_refused path overwrite info of
       Some err \<Rightarrow> ret (Some err)
     | None \<Rightarrow> do {
         made \<leftarrow> ofMkdirAll os (path_dir path);
         case made of
           Some err \<Rightarrow> ret (Some (write_error path err))
         | None \<Rightarrow> do {
             tmp \<leftarrow> ofCreateTemp os (path_dir path) (temp_pattern path);
             case tmp of
               Inl err \<Rightarrow> ret (Some (write_error path err))
             | Inr name \<Rightarrow> do {
                 filled \<leftarrow> fill os name data;
                 case filled of
                   Some err \<Rightarrow> do { _ \<leftarrow> ofRemove os name; ret (Some (write_error path err)) }
                 | None \<Rightarrow> do {
                     renamed \<leftarrow> ofRename os name path;
                     case renamed of
                       Some err \<Rightarrow> do { _ \<leftarrow> ofRemove os name; ret (Some (write_error path err)) }
                     | None \<Rightarrow> ret None
                   }
               }
           }
       }
   }"

definition ScaffoldWriter :: "'w os_files \<Rightarrow> 'w file_writer" where
  "ScaffoldWriter os = \<lparr>fwWriteFile = OsWriteFile os\<rparr>"

definition ScaffoldOpener :: "'w os_files \<Rightarrow> 'w dir_opener" where
  "ScaffoldOpener os = \<lparr>doOpenDir = OpenDir os\<rparr>"

section \<open>What the calls do to files\<close>

datatype file_event =
    FeStat string "go_error + bool"
  | FeLstat string "go_error + bool"
  | FeOpen string
  | FeMkdir string "go_error option"
  | FeTemp string string "go_error + string"
  | FeWrite string string "go_error option"
  | FeChmod string "go_error option"
  | FeClose string "go_error option"
  | FeRemove string "go_error option"
  | FeRename string string "go_error option"

definition log_files :: "'w os_files \<Rightarrow> ('w \<times> file_event list) os_files" where
  "log_files os =
     \<lparr>ofStat = (\<lambda>p. tap (FeStat p) (ofStat os p)), ofLstat = (\<lambda>p. tap (FeLstat p) (ofLstat os p)),
      ofDirFS = (\<lambda>p. tap (\<lambda>_. FeOpen p) (ofDirFS os p)), ofMkdirAll = (\<lambda>p. tap (FeMkdir p) (ofMkdirAll os p)),
      ofCreateTemp = (\<lambda>d p. tap (FeTemp d p) (ofCreateTemp os d p)),
      ofWrite = (\<lambda>n d. tap (FeWrite n d) (ofWrite os n d)), ofChmod = (\<lambda>n. tap (FeChmod n) (ofChmod os n)),
      ofClose = (\<lambda>n. tap (FeClose n) (ofClose os n)), ofRemove = (\<lambda>n. tap (FeRemove n) (ofRemove os n)),
      ofRename = (\<lambda>n p. tap (FeRename n p) (ofRename os n p))\<rparr>"

lemma log_files_ops [simp]:
  "ofStat (log_files os) p = tap (FeStat p) (ofStat os p)"
  "ofLstat (log_files os) p = tap (FeLstat p) (ofLstat os p)"
  "ofDirFS (log_files os) p = tap (\<lambda>_. FeOpen p) (ofDirFS os p)"
  "ofMkdirAll (log_files os) p = tap (FeMkdir p) (ofMkdirAll os p)"
  "ofCreateTemp (log_files os) d p = tap (FeTemp d p) (ofCreateTemp os d p)"
  "ofWrite (log_files os) n dt = tap (FeWrite n dt) (ofWrite os n dt)"
  "ofChmod (log_files os) n = tap (FeChmod n) (ofChmod os n)"
  "ofClose (log_files os) n = tap (FeClose n) (ofClose os n)"
  "ofRemove (log_files os) n = tap (FeRemove n) (ofRemove os n)"
  "ofRename (log_files os) n p = tap (FeRename n p) (ofRename os n p)"
  by (simp_all add: log_files_def)

text \<open>
  The name \<open>os.CreateTemp\<close> gives: in the directory, the pattern with its last star replaced.
\<close>

definition temp_name :: "string \<Rightarrow> string \<Rightarrow> string \<Rightarrow> bool" where
  "temp_name d p n \<longleftrightarrow>
     (\<exists>pre suf r. p = pre @ ''*'' @ suf \<and> CHR ''*'' \<notin> set suf \<and> slash \<notin> set r \<and> slash \<notin> set suf \<and>
        n = (if suffix [slash] d then d else d @ [slash]) @ pre @ r @ suf)"

text \<open>
  The content of files across one call: a new temporary file is empty and was not there, a
  failed write may leave a part, a failed removal or renaming changes nothing.
\<close>

type_synonym contents = "string \<Rightarrow> string option"

inductive file_step :: "contents \<Rightarrow> file_event \<Rightarrow> contents \<Rightarrow> bool" where
  stat: "file_step c (FeStat p r) c"
| lstat: "file_step c (FeLstat p r) c"
| opened: "file_step c (FeOpen p) c"
| mkdir: "file_step c (FeMkdir p e) c"
| no_temp: "file_step c (FeTemp d p (Inl e)) c"
| new_temp: "temp_name d p n \<Longrightarrow> c n = None \<Longrightarrow> file_step c (FeTemp d p (Inr n)) (c(n \<mapsto> []))"
| wrote: "file_step c (FeWrite n data None) (c(n \<mapsto> data))"
| partly: "prefix part data \<Longrightarrow> file_step c (FeWrite n data (Some e)) (c(n \<mapsto> part))"
| chmod: "file_step c (FeChmod n e) c"
| closed: "file_step c (FeClose n e) c"
| removed: "file_step c (FeRemove n None) (c(n := None))"
| kept: "file_step c (FeRemove n (Some e)) c"
| renamed: "file_step c (FeRename n p None) ((c(p := c n))(n := None))"
| unmoved: "file_step c (FeRename n p (Some e)) c"

inductive_simps file_step_simps [simp]:
  "file_step c (FeStat p r) c'" "file_step c (FeLstat p r) c'" "file_step c (FeOpen p) c'"
  "file_step c (FeMkdir p e) c'" "file_step c (FeTemp d p (Inl x)) c'" "file_step c (FeTemp d p (Inr n)) c'"
  "file_step c (FeWrite n dt None) c'" "file_step c (FeWrite n dt (Some e)) c'"
  "file_step c (FeChmod n e) c'" "file_step c (FeClose n e) c'" "file_step c (FeRemove n None) c'"
  "file_step c (FeRemove n (Some e)) c'" "file_step c (FeRename n p None) c'" "file_step c (FeRename n p (Some e)) c'"

text \<open>
  A property of the content at every moment of a run of calls, and at its end, however the
  steps turn out.
\<close>

fun throughout :: "(contents \<Rightarrow> bool) \<Rightarrow> contents \<Rightarrow> file_event list \<Rightarrow> bool" where
  "throughout P c [] \<longleftrightarrow> P c"
| "throughout P c (e # es) \<longleftrightarrow> P c \<and> (\<forall>d. file_step c e d \<longrightarrow> throughout P d es)"

fun at_end :: "(contents \<Rightarrow> bool) \<Rightarrow> contents \<Rightarrow> file_event list \<Rightarrow> bool" where
  "at_end P c [] \<longleftrightarrow> P c"
| "at_end P c (e # es) \<longleftrightarrow> (\<forall>d. file_step c e d \<longrightarrow> at_end P d es)"

section \<open>A temporary name is not the target\<close>

lemma last_elem_append:
  assumes "x \<notin> set b" shows "takeWhile (\<lambda>c. c \<noteq> x) (rev (a @ x # b)) = rev b"
  using assms by (simp add: takeWhile_append)

lemma last_split_unique:
  assumes "a @ x # b = c @ x # d" and "x \<notin> set b" and "x \<notin> set d" shows "a = c \<and> b = d"
proof -
  have "rev b = rev d"
    using last_elem_append [OF assms(2), of a] last_elem_append [OF assms(3), of c] assms(1) by metis
  then show ?thesis using assms(1) by simp
qed

lemma path_base_slash: "slash \<in> set (path_base p) \<Longrightarrow> set p \<subseteq> {slash}"
proof -
  let ?s = "dropWhile (\<lambda>c. c = slash) (rev p)"
  assume "slash \<in> set (path_base p)"
  then have t: "takeWhile (\<lambda>c. c \<noteq> slash) ?s = []" and "p \<noteq> []"
    by (auto simp: path_base_def Let_def slash_def split: if_splits dest: set_takeWhileD)
  have "?s = []"
  proof (rule ccontr)
    assume "?s \<noteq> []"
    then have "hd ?s \<noteq> slash" by (rule hd_dropWhile)
    with t \<open>?s \<noteq> []\<close> show False by (cases ?s) auto
  qed
  then show ?thesis by (auto simp: dropWhile_eq_Nil_conv)
qed

lemma path_base_file:
  assumes "b \<noteq> []" and "slash \<notin> set b" shows "path_base (a @ slash # b) = b"
proof -
  have "last b \<noteq> slash" using assms by (metis last_in_set)
  then have "hd (rev (a @ slash # b)) \<noteq> slash" using assms(1) by (simp add: hd_append hd_rev)
  then have "dropWhile (\<lambda>c. c = slash) (rev (a @ slash # b)) = rev (a @ slash # b)"
    by (simp add: dropWhile_eq_self_iff)
  with last_elem_append [OF assms(2), of a] assms(1) show ?thesis
    by (simp add: path_base_def Let_def)
qed

lemma temp_elsewhere:
  assumes "temp_name d (temp_pattern path) n" shows "n \<noteq> path"
proof
  assume eq: "n = path"
  obtain pre suf r where p: "temp_pattern path = pre @ ''*'' @ suf" and s: "CHR ''*'' \<notin> set suf" "slash \<notin> set r" "slash \<notin> set suf"
    and n: "n = (if suffix [slash] d then d else d @ [slash]) @ pre @ r @ suf"
    using assms unfolding temp_name_def by blast
  have "pre @ CHR ''*'' # suf = (''.'' @ path_base path @ ''.'') @ CHR ''*'' # ''.tmp''"
    using p by (simp add: temp_pattern_def)
  then have parts: "pre = ''.'' @ path_base path @ ''.'' \<and> suf = ''.tmp''"
    using s(1) by (intro last_split_unique) auto
  have "\<exists>a. (if suffix [slash] d then d else d @ [slash]) = a @ [slash]"
    by (cases "suffix [slash] d") (auto simp: suffix_def)
  then obtain a where a: "(if suffix [slash] d then d else d @ [slash]) = a @ [slash]" ..
  let ?b = "pre @ r @ suf"
  show False
  proof (cases "slash \<in> set (path_base path)")
    case True
    then have "set n \<subseteq> {slash}" using path_base_slash eq by blast
    then show False using parts by (auto simp: n slash_def)
  next
    case False
    then have "slash \<notin> set ?b" using s parts by (auto simp: slash_def)
    then have "path_base n = ?b" using path_base_file [of ?b a] parts by (simp add: n a)
    then have "length (path_base path) = length ?b" by (simp add: eq)
    then show False using parts by simp
  qed
qed

section \<open>Writing is atomic\<close>

text \<open>What is left of a temporary file: one whose removal failed.\<close>

fun left_over :: "file_event list \<Rightarrow> string set" where
  "left_over [] = {}"
| "left_over (FeRemove n (Some e) # es) = insert n (left_over es)"
| "left_over (_ # es) = left_over es"

text \<open>
  At every moment the file has its old content or the whole new one; at the end it has the
  new one exactly when no error was returned, and every other file is as it was.
\<close>

definition atomic_write :: "string \<Rightarrow> string \<Rightarrow> go_error option \<Rightarrow> file_event list \<Rightarrow> bool" where
  "atomic_write path data r es \<longleftrightarrow>
     (\<forall>c. throughout (\<lambda>d. d path = c path \<or> d path = Some data) c es \<and>
        at_end (\<lambda>d. d path = (if r = None then Some data else c path)) c es \<and>
        at_end (\<lambda>d. \<forall>p. p \<noteq> path \<longrightarrow> p \<notin> left_over es \<longrightarrow> d p = c p) c es)"

text \<open>A refused path is only looked at.\<close>

definition refused_untouched :: "string \<Rightarrow> bool \<Rightarrow> go_error option \<Rightarrow> file_event list \<Rightarrow> bool" where
  "refused_untouched path overwrite r es \<longleftrightarrow>
     (\<exists>info rest. es = FeLstat path info # rest \<and>
        (write_refused path overwrite info \<noteq> None \<longrightarrow> rest = [] \<and> r = write_refused path overwrite info))"

lemma file_step_remove: "file_step c (FeRemove n e) d \<longleftrightarrow> d = (if e = None then c(n := None) else c)"
  by (cases e) auto

lemma left_over_remove: "left_over [FeRemove n e] = (if e = None then {} else {n})"
  by (cases e) auto

lemma temp_elsewhere_sym: "temp_name d (temp_pattern path) n \<Longrightarrow> path \<noteq> n"
  using temp_elsewhere by blast

text \<open>
  C31: writing a scaffold file is atomic. Whatever the file system answers to each call, at
  every moment the file holds its old content or the whole new data; it holds the data at
  the end exactly when no error is returned; every other file is as it was, but for a
  temporary file that could not be removed; and a refused path (a directory, an existing
  file without \<open>overwrite\<close>, an unreadable one) is only looked at.
\<close>

theorem OsWriteFile_atomic:
  "emits (\<lambda>r es. atomic_write path data r es \<and> refused_untouched path overwrite r es)
     (OsWriteFile (log_files os) path data overwrite)"
  unfolding OsWriteFile_def fill_def log_files_ops bind_assoc
  by (intro emits_rules emits_ret)
    (auto simp: atomic_write_def refused_untouched_def file_step_remove left_over_remove
      dest: temp_elsewhere temp_elsewhere_sym split: if_splits)

end
