(* ===== verification/DefaultScaffold.thy ===== *)
theory DefaultScaffold
  imports InitApp TomlLoader
begin

text \<open>
  \<open>cmd/lclaw/scaffold.go\<close>: the default scaffold compiled into the program, as the file
  system that \<open>init\<close> walks. The tree of directories and the default topology are those of
  \<open>cmd/lclaw/scaffold\<close>; the texts of the files are a parameter. The theorem composes
  \<open>init\<close> with the loading that every other command begins with.
\<close>

section \<open>An embedded tree\<close>

text \<open>
  A directory holds its entries sorted by name; a file system answers the elements of a
  path.
\<close>

datatype embed_node = EmbedFile string | EmbedDir "(string \<times> embed_node) list"

type_synonym embed_fs = "string list \<Rightarrow> embed_node option"

fun embed_find :: "embed_node \<Rightarrow> embed_fs" where
  "embed_find t [] = Some t"
| "embed_find (EmbedFile _) (_ # _) = None"
| "embed_find (EmbedDir ns) (e # es) =
     (case map_of ns e of None \<Rightarrow> None | Some t \<Rightarrow> embed_find t es)"

text \<open>\<open>fs.Sub\<close> on a file system without a \<open>Sub\<close> of its own: the directory is put before every path.\<close>

definition fs_sub :: "embed_fs \<Rightarrow> string \<Rightarrow> embed_fs" where
  "fs_sub fs dir = (\<lambda>es. fs (dir # es))"

text \<open>\<open>fs.WalkDir\<close> from the root: a directory before its entries, these in their order.\<close>

fun walk_node :: "string \<Rightarrow> embed_node \<Rightarrow> walk_entry list"
  and walk_nodes :: "string \<Rightarrow> (string \<times> embed_node) list \<Rightarrow> walk_entry list" where
  "walk_node p (EmbedFile data) = [\<lparr>wkPath = p, wkError = None, wkDir = False, wkData = Inr data\<rparr>]"
| "walk_node p (EmbedDir ns) =
     \<lparr>wkPath = p, wkError = None, wkDir = True, wkData = Inl (Plain ''is a directory'')\<rparr> # walk_nodes p ns"
| "walk_nodes p [] = []"
| "walk_nodes p ((n, t) # ns) = walk_node (path_join p n) t @ walk_nodes p ns"

definition walk_fs :: "embed_fs \<Rightarrow> walk_entry list" where
  "walk_fs fs =
     (case fs [] of
        None \<Rightarrow> [\<lparr>wkPath = ''.'', wkError = Some (Sentinel FsNotExist), wkDir = False, wkData = Inl (Sentinel FsNotExist)\<rparr>]
      | Some t \<Rightarrow> walk_node ''.'' t)"

section \<open>The default files\<close>

definition workload_node :: "(string \<Rightarrow> string) \<Rightarrow> workload \<Rightarrow> string \<times> embed_node" where
  "workload_node content w =
     (w, EmbedDir (map (\<lambda>n. (n, EmbedFile (content (workload_dir w @ ''/'' @ n))))
        [''.containerignore'', ''Containerfile'', ''pod.yaml'']))"

definition scaffoldFiles :: "(string \<Rightarrow> string) \<Rightarrow> embed_node" where
  "scaffoldFiles content =
     EmbedDir [(''scaffold'', EmbedDir
       [(''lclaw.toml'', EmbedFile (content ''lclaw.toml'')),
        (''machine'', EmbedDir [(''playbook.yaml'', EmbedFile (content ''machine/playbook.yaml''))]),
        (''workloads'', EmbedDir (map (workload_node content)
           [''agentgateway'', ''gateway'', ''kuma-cp'', ''litellm'', ''litellm-db'', ''openclaw'']))])]"

definition scaffoldFS :: "(string \<Rightarrow> string) \<Rightarrow> embed_fs" where
  "scaffoldFS content = fs_sub (embed_find (scaffoldFiles content)) ''scaffold''"

text \<open>The paths that \<open>init\<close> writes, in the order of the walk.\<close>

definition workload_paths :: "workload \<Rightarrow> string list" where
  "workload_paths w = map (\<lambda>n. workload_dir w @ ''/'' @ n) [''.containerignore'', ''Containerfile'', ''pod.yaml'']"

definition default_paths :: "string list" where
  "default_paths = [''lclaw.toml'', ''machine/playbook.yaml''] @
     concat (map workload_paths [''agentgateway'', ''gateway'', ''kuma-cp'', ''litellm'', ''litellm-db'', ''openclaw''])"

section \<open>The default topology\<close>

text \<open>What \<open>lclaw.toml\<close> of the scaffold decodes to; the zones are a map, in any order.\<close>

definition default_toml_zones :: "(string \<times> toml_zone) list" where
  "default_toml_zones =
     [(''infra'', \<lparr>tzInternal = False, tzWorkloads = [''kuma-cp'', ''gateway''], tzSecrets = [],
         tzBridges = [(''kuma-cp'', [''services'', ''agent''])]\<rparr>),
      (''services'', \<lparr>tzInternal = False, tzWorkloads = [''litellm-db'', ''litellm'', ''agentgateway''],
         tzSecrets = [''anthropic-api-key''], tzBridges = [(''agentgateway'', [''agent''])]\<rparr>),
      (''agent'', \<lparr>tzInternal = True, tzWorkloads = [''openclaw''], tzSecrets = [], tzBridges = []\<rparr>)]"

definition default_toml :: "(string \<times> toml_zone) list \<Rightarrow> toml_file" where
  "default_toml zs =
     \<lparr>tfSchema = 2, tfProvider = ''libkrun'', tfKeychainPath = ''~/Library/Keychains/lclaw.keychain-db'',
      tfMachine = \<lparr>tmCPUs = 4, tmMemoryMiB = 8192, tmDiskGiB = 60, tmVolumes = [], tmWorkloads = [], tmSecrets = []\<rparr>,
      tfZones = zs, tfMachines = []\<rparr>"

definition decodes_default :: "toml_lib \<Rightarrow> string \<Rightarrow> bool" where
  "decodes_default lib text \<longleftrightarrow>
     (\<exists>zs. mset zs = mset default_toml_zones \<and> lib text = Inr (default_toml zs, []))"

definition scaffold_topology :: "string \<Rightarrow> topology" where
  "scaffold_topology home =
     default_topology\<lparr>tKeychainPath := path_clean (path_join home ''Library/Keychains/lclaw.keychain-db'')\<rparr>"

definition holds_defaults :: "(string \<Rightarrow> string) \<Rightarrow> fsys \<Rightarrow> bool" where
  "holds_defaults content fs \<longleftrightarrow> (\<forall>p \<in> set default_paths. fsStat fs p \<and> fsRead fs p = Inr (content p))"

lemma default_zone_order:
  assumes "mset zs = mset default_toml_zones"
  shows "map zone_of (zone_order zs) = default_zones"
proof -
  let ?key = "\<lambda>(name, z :: toml_zone). (loader_rank name, name)"
  have "set zs = set default_toml_zones" using assms by (rule mset_eq_setD)
  then have "inj_on ?key (set zs)" by (auto simp: inj_on_def default_toml_zones_def)
  moreover have "sorted (map ?key default_toml_zones)"
    by (simp add: default_toml_zones_def loader_rank_def Roles_def)
  ultimately have "zone_order zs = default_toml_zones"
    unfolding zone_order_def using assms by (intro sort_key_inj_key_eq) simp_all
  then show ?thesis by (simp add: default_toml_zones_def default_zones_def zone_of_def)
qed

lemma home_path_absolute:
  assumes "is_abs h" shows "is_abs (path_join h ''Library/Keychains/lclaw.keychain-db'')"
proof -
  have "path_join h (join_with [slash] [''Library'', ''Keychains'', ''lclaw.keychain-db'']) =
      slash # join_with [slash] (path_elems h @ [''Library'', ''Keychains'', ''lclaw.keychain-db''])"
    using assms by (subst path_join_below) (auto simp: is_abs_def prefix_def rooted_path_def slash_def plain_elem_def)
  then show ?thesis by (simp add: is_abs_def slash_def)
qed

lemma Load_default:
  assumes "holds_defaults content fs" and "decodes_default lib (content ''lclaw.toml'')"
    and "run_state home w = (Inr h, w1)" and "is_abs h"
  shows "run_state (Load lib home fs) w = (Inr (scaffold_topology h), w1)"
proof -
  obtain zs where zs: "mset zs = mset default_toml_zones" "lib (content ''lclaw.toml'') = Inr (default_toml zs, [])"
    using assms(2) unfolding decodes_default_def by blast
  have "fsRead fs TopologyFile = Inr (content ''lclaw.toml'')"
    using assms(1) by (simp add: holds_defaults_def default_paths_def TopologyFile_def)
  moreover have "run_state (keychainPath home ''~/Library/Keychains/lclaw.keychain-db'') w =
      (Inr (path_clean (path_join h ''Library/Keychains/lclaw.keychain-db'')), w1)"
    using assms(3) home_path_absolute [OF assms(4)] by (simp add: keychainPath_def Let_def State_Monad.return_def)
  ultimately show ?thesis
    using zs(2) default_zone_order [OF zs(1)]
    by (simp add: Load_def toDomain_def default_toml_def attempt_def State_Monad.return_def scaffold_topology_def
        default_topology_def)
qed

lemma scaffold_validates:
  assumes "holds_defaults content fs" shows "Validate (scaffold_topology h) (fsStat fs) = []"
proof -
  have "go_topology (scaffold_topology h)"
    using go_default by (simp add: go_topology_def scaffold_topology_def)
  moreover have "fsStat fs f" if "w \<in> set (Workloads default_topology)" "f \<in> set (RequiredFiles w)" for w f
    using assms that
    by (auto simp: holds_defaults_def default_paths_def workload_paths_def RequiredFiles_def PodFile_def Workloads_def
        default_topology_def default_zones_def)
  then have "topology_ok (scaffold_topology h) (fsStat fs)"
    using default_ok
    by (simp add: topology_ok_def scaffold_topology_def settings_ok_def internal_reached_def secrets_ok_def Workloads_def)
  ultimately show ?thesis using Validate_nil_iff by blast
qed

lemma scaffold_catalogue: "catalogue_of (scaffold_topology h) = default_catalogue"
proof -
  have "DeclaredSecrets (scaffold_topology h) = DeclaredSecrets default_topology"
    by (simp add: DeclaredSecrets_def scaffold_topology_def)
  then show ?thesis using default_catalogue_of by (simp add: catalogue_of_def)
qed

section \<open>A file system that keeps what is written\<close>

text \<open>\<open>view\<close> is the content of the files of a world; an operation may leave it alone.\<close>

definition keeps :: "('w \<Rightarrow> 'v) \<Rightarrow> ('w, 'a) io \<Rightarrow> bool" where
  "keeps view m \<longleftrightarrow> (\<forall>w. view (snd (run_state m w)) = view w)"

text \<open>
  Writing puts the data at the path or changes nothing; an opened directory answers for the
  files below it.
\<close>

definition file_store :: "('w \<Rightarrow> string \<Rightarrow> string option) \<Rightarrow> 'w file_writer \<Rightarrow> 'w dir_opener \<Rightarrow> bool" where
  "file_store view fw ope \<longleftrightarrow>
     (\<forall>path data force w.
        view (snd (run_state (fwWriteFile fw path data force) w)) =
          (if fst (run_state (fwWriteFile fw path data force) w) = None then (view w)(path \<mapsto> data) else view w)) \<and>
     (\<forall>dir. keeps view (doOpenDir ope dir)) \<and>
     (\<forall>dir w fs p data. fst (run_state (doOpenDir ope dir) w) = Inr fs \<longrightarrow> view w (path_join dir p) = Some data \<longrightarrow>
        fsStat fs p \<and> fsRead fs p = Inr data)"

definition walk_files :: "walk_entry list \<Rightarrow> (string \<times> string) list" where
  "walk_files ds = [(wkPath d, case wkData d of Inl _ \<Rightarrow> [] | Inr data \<Rightarrow> data). d \<leftarrow> ds, \<not> wkDir d]"

definition put_files :: "string \<Rightarrow> (string \<times> string) list \<Rightarrow> (string \<Rightarrow> string option) \<Rightarrow> string \<Rightarrow> string option" where
  "put_files dir files v = fold (\<lambda>(p, data) v. v(path_join dir p \<mapsto> data)) files v"

lemma put_files_simps [simp]:
  "put_files dir [] v = v" "put_files dir ((p, data) # files) v = put_files dir files (v(path_join dir p \<mapsto> data))"
  by (simp_all add: put_files_def)

lemma put_files_other:
  "k \<notin> (\<lambda>f. path_join dir (fst f)) ` set files \<Longrightarrow> put_files dir files v k = v k"
  by (induction files arbitrary: v) auto

lemma put_files_lookup:
  assumes "inj_on (path_join dir) (set (map fst files))" and "distinct (map fst files)" and "(p, data) \<in> set files"
  shows "put_files dir files v (path_join dir p) = Some data"
  using assms
proof (induction files arbitrary: v)
  case (Cons f files)
  obtain q d where f: "f = (q, d)" by fastforce
  show ?case
  proof (cases "f = (p, data)")
    case True
    then have "path_join dir p \<notin> (\<lambda>f. path_join dir (fst f)) ` set files"
      using Cons.prems(1,2) by (auto simp: inj_on_def)
    then show ?thesis using True put_files_other by simp
  next
    case False
    then show ?thesis using Cons f by (auto simp: inj_on_def)
  qed
qed simp

text \<open>
  A walk that skips and fails nothing has written every file; one that skips or fails some
  says so.
\<close>

lemma walk_loop_writes:
  assumes "file_store view (inWriter i) ope" and "keeps view ctx"
    and "run_state (walk_loop ctx i dir force ds r0) w = ((r, None), w')"
  shows "\<exists>s f. irSkipped r = irSkipped r0 @ s \<and> irFailed r = irFailed r0 @ f \<and>
    (s = [] \<and> f = [] \<longrightarrow> irWritten r = irWritten r0 @ map fst (walk_files ds) \<and>
       view w' = put_files dir (walk_files ds) (view w))"
  using assms(3)
proof (induction ds arbitrary: r0 w)
  case Nil
  then show ?case by (auto simp: State_Monad.return_def walk_files_def)
next
  case (Cons d ds)
  show ?case
  proof (cases "wkDir d")
    case True
    then show ?thesis
      using Cons by (auto simp: walk_files_def State_Monad.return_def split: option.splits)
  next
    case False
    obtain c w1 where c: "run_state ctx w = (c, w1)" by fastforce
    have v1: "view w1 = view w" using assms(2) c unfolding keeps_def by (metis snd_conv)
    obtain data where data: "wkError d = None" "c = None" "wkData d = Inr data"
      using Cons.prems False c by (auto simp: State_Monad.return_def split: option.splits sum.splits)
    obtain e w2 where e: "run_state (fwWriteFile (inWriter i) (path_join dir (wkPath d)) data force) w1 = (e, w2)"
      by fastforce
    have v2: "view w2 = (if e = None then (view w)(path_join dir (wkPath d) \<mapsto> data) else view w)"
      using assms(1) e v1 unfolding file_store_def by (metis fst_conv snd_conv)
    have files: "walk_files (d # ds) = (wkPath d, data) # walk_files ds"
      using False data by (simp add: walk_files_def)
    show ?thesis
      using Cons.prems Cons.IH [of _ w2] False c data e v2 files
      by (fastforce split: option.splits if_splits)
  qed
qed

section \<open>Init, then load\<close>

lemma walk_files_default: "walk_files (walk_fs (scaffoldFS content)) = map (\<lambda>p. (p, content p)) default_paths"
  by code_simp

lemma default_paths_plain:
  "distinct default_paths" "p \<in> set default_paths \<Longrightarrow> list_all plain_elem (split_on slash p)"
proof -
  show "distinct default_paths" by code_simp
  have "list_all (\<lambda>p. list_all plain_elem (split_on slash p)) default_paths" by code_simp
  then show "p \<in> set default_paths \<Longrightarrow> list_all plain_elem (split_on slash p)" by (simp add: list_all_iff)
qed

lemma join_append:
  "es \<noteq> [] \<Longrightarrow> fs \<noteq> [] \<Longrightarrow> join_with sep (es @ fs) = join_with sep es @ sep @ join_with sep fs"
  by (induction sep es rule: join_with.induct) (auto simp: neq_Nil_conv)

text \<open>Below a directory, different paths are different files.\<close>

lemma path_join_inj:
  assumes "dir \<noteq> []" and "\<forall>p \<in> P. list_all plain_elem (split_on slash p)"
  shows "inj_on (path_join dir) P"
proof -
  define pre where "pre = (if rooted_path dir then [slash] else []) @
    (if path_elems dir = [] then [] else join_with [slash] (path_elems dir) @ [slash])"
  have "path_join dir p = pre @ p" if "p \<in> P" for p
    using path_join_below [OF assms(1), of "split_on slash p"] assms(2) that
    by (simp add: pre_def join_append join_split)
  then show ?thesis by (simp add: inj_on_def)
qed

lemma keepsE: "keeps view m \<Longrightarrow> run_state m w = (a, w') \<Longrightarrow> view w' = view w"
  unfolding keeps_def by (metis snd_conv)

lemma keeps_ret: "keeps view (ret x)"
  by (simp add: keeps_def State_Monad.return_def)

lemma keeps_bind:
  assumes "keeps view m" and "\<And>a. keeps view (f a)" shows "keeps view (State_Monad.bind m f)"
  unfolding keeps_def
proof
  fix w
  obtain a w1 where "run_state m w = (a, w1)" by fastforce
  then show "view (snd (run_state (State_Monad.bind m f) w)) = view w"
    using assms keepsE [OF assms(1)] by (simp add: keeps_def)
qed

lemma keeps_case:
  "(\<And>e. x = Inl e \<Longrightarrow> keeps view (f e)) \<Longrightarrow> (\<And>y. x = Inr y \<Longrightarrow> keeps view (g y)) \<Longrightarrow>
    keeps view (case x of Inl e \<Rightarrow> f e | Inr y \<Rightarrow> g y)"
  by (cases x) auto

lemma keeps_if: "keeps view m \<Longrightarrow> keeps view n \<Longrightarrow> keeps view (if b then m else n)"
  by simp

lemmas keeps_rules = keeps_ret keeps_bind keeps_case keeps_if

text \<open>
  The rest of the outside: the context, the home directory, which is known and absolute, and
  the keychain leave the scaffold alone.
\<close>

definition apart :: "('w \<Rightarrow> 'v) \<Rightarrow> 'w ctx \<Rightarrow> ('w, go_error + string) io \<Rightarrow> string \<Rightarrow> 'w keychain \<Rightarrow> bool" where
  "apart view ctx home h kc \<longleftrightarrow>
     keeps view ctx \<and> keeps view home \<and> (\<forall>w. fst (run_state home w) = Inr h) \<and> is_abs h \<and>
     (\<forall>path. keeps view (kcExists kc path) \<and> keeps view (kcCreate kc path))"

definition default_init :: "(string \<Rightarrow> string) \<Rightarrow> toml_lib \<Rightarrow> ('w, go_error + string) io \<Rightarrow> 'w file_writer \<Rightarrow>
    'w dir_opener \<Rightarrow> 'w keychain \<Rightarrow> 'w init_app" where
  "default_init content lib home fw ope kc =
     \<lparr>inDefaults = walk_fs (scaffoldFS content), inWriter = fw, inScaffold = ope, inTopology = Loader lib home,
      inKeychain = kc\<rparr>"

lemma keeps_Load: "keeps view home \<Longrightarrow> keeps view (Load lib home fs)"
  unfolding Load_def toDomain_def keychainPath_def attempt_def Let_def
  by (auto intro!: keeps_rules split: prod.split)

lemma keeps_keychainStep:
  assumes "file_store view fw ope" and "apart view ctx home h kc"
  shows "keeps view (keychainStep (default_init content lib home fw ope kc) dir)"
  using assms unfolding keychainStep_def default_init_def init_app.select_convs Loader_def topology_loader.select_convs
  by (intro keeps_rules) (auto simp: file_store_def apart_def keeps_Load)

lemma init_writes:
  assumes "file_store view fw ope" and "apart view ctx home h kc"
    and "run_state (RunInit ctx (default_init content lib home fw ope kc) dir force) w = ((r, None), w1)"
    and "irSkipped r = []" and "irFailed r = []"
  shows "irWritten r = default_paths \<and>
    view w1 = put_files dir (map (\<lambda>p. (p, content p)) default_paths) (view w)"
proof -
  let ?i = "default_init content lib home fw ope kc"
  have ctx: "keeps view ctx" using assms(2) by (simp add: apart_def)
  obtain r0 e0 w0 where walk: "run_state (walk_loop ctx ?i dir force (inDefaults ?i) (empty_report dir)) w = ((r0, e0), w0)"
    by (metis prod.exhaust)
  have e0: "e0 = None" using assms(3) walk by (cases e0) (auto simp: RunInit_def State_Monad.return_def)
  have "keeps view (do {
      keychain \<leftarrow> keychainStep ?i dir;
      let r = r0\<lparr>irKeychain := keychain\<rparr>;
      cancelled \<leftarrow> ctx;
      if cancelled \<noteq> None then do { err \<leftarrow> ctx; ret (r, err) } else ret (r, None)
    })"
    unfolding Let_def using keeps_keychainStep [OF assms(1,2)] ctx by (intro keeps_rules)
  moreover have "run_state (do {
      keychain \<leftarrow> keychainStep ?i dir;
      let r = r0\<lparr>irKeychain := keychain\<rparr>;
      cancelled \<leftarrow> ctx;
      if cancelled \<noteq> None then do { err \<leftarrow> ctx; ret (r, err) } else ret (r, None)
    }) w0 = ((r, None), w1)"
    using assms(3) walk e0 by (simp add: RunInit_def)
  ultimately have v: "view w1 = view w0" by (rule keepsE)
  have r: "irSkipped r = irSkipped r0" "irFailed r = irFailed r0" "irWritten r = irWritten r0"
    using assms(3) walk e0 by (auto simp: RunInit_def State_Monad.return_def Let_def split: prod.splits if_splits)
  have store: "file_store view (inWriter ?i) ope" using assms(1) by (simp add: default_init_def)
  have ds: "walk_files (inDefaults ?i) = map (\<lambda>p. (p, content p)) default_paths"
    by (simp add: default_init_def walk_files_default)
  show ?thesis
    using walk_loop_writes [OF store ctx walk [unfolded e0]] assms(4,5) r v ds
    by (auto simp: empty_report_def comp_def)
qed

text \<open>
  C6: what \<open>init\<close> writes, every other command can load. In a file system that keeps what is
  written, with a TOML library that decodes the default text to the default topology, a run
  of \<open>init\<close> over the compiled-in scaffold that skips and fails no file has written exactly
  the twenty default files; loading the directory afterwards finds every file it requires,
  reports no finding, and gives the default topology, its keychain below the home directory,
  with the catalogue of the built-in secrets and the one key the user supplies.
\<close>

theorem init_then_load:
  assumes "file_store view fw ope" and "apart view ctx home h kc"
    and "decodes_default lib (content ''lclaw.toml'')" and "dir \<noteq> []"
    and "run_state (RunInit ctx (default_init content lib home fw ope kc) dir force) w = ((r, None), w1)"
    and "irSkipped r = []" and "irFailed r = []"
    and "fst (run_state (doOpenDir ope dir) w1) = Inr fs"
    and "lcScaffold l = ope" and "lcTopology l = Loader lib home"
  shows "irWritten r = default_paths \<and>
    fst (run_state (load l dir) w1) = Inr (scaffold_topology h, default_catalogue)"
proof -
  have written: "irWritten r = default_paths"
    and v: "view w1 = put_files dir (map (\<lambda>p. (p, content p)) default_paths) (view w)"
    using init_writes [OF assms(1,2,5-7)] by simp_all
  have inj: "inj_on (path_join dir) (set default_paths)"
    using assms(4) default_paths_plain(2) by (intro path_join_inj) auto
  have "view w1 (path_join dir p) = Some (content p)" if "p \<in> set default_paths" for p
    unfolding v by (rule put_files_lookup) (use that inj default_paths_plain(1) in \<open>auto simp: comp_def\<close>)
  then have holds: "holds_defaults content fs"
    using assms(1,8) unfolding file_store_def holds_defaults_def by blast
  obtain w2 where opened: "run_state (doOpenDir ope dir) w1 = (Inr fs, w2)"
    using assms(8) by (metis prod.collapse)
  obtain w3 where home: "run_state home w2 = (Inr h, w3)"
    using assms(2) unfolding apart_def by (metis prod.collapse)
  have "run_state (Load lib home fs) w2 = (Inr (scaffold_topology h), w3)"
    using assms(2) by (intro Load_default [OF holds assms(3) home]) (simp add: apart_def)
  then have "fst (run_state (load l dir) w1) = Inr (scaffold_topology h, default_catalogue)"
    using opened scaffold_validates [OF holds]
    by (simp add: load_def assms(9,10) Loader_def attempt_def State_Monad.return_def scaffold_catalogue Let_def)
  with written show ?thesis by simp
qed

text \<open>A disk in memory, on which \<open>init\<close> runs for real; the text of a file is its path.\<close>

type_synonym disk = "string \<Rightarrow> string option"

definition disk_writer :: "disk file_writer" where
  "disk_writer =
     \<lparr>fwWriteFile = (\<lambda>path data force. State (\<lambda>w.
        if force \<or> w path = None then (None, w(path \<mapsto> data)) else (Some (Sentinel FsExist), w)))\<rparr>"

definition disk_opener :: "disk dir_opener" where
  "disk_opener =
     \<lparr>doOpenDir = (\<lambda>dir. State (\<lambda>w.
        (Inr \<lparr>fsRead = (\<lambda>p. case w (path_join dir p) of Some data \<Rightarrow> Inr data | None \<Rightarrow> Inl (Sentinel FsNotExist)),
              fsStat = (\<lambda>p. w (path_join dir p) \<noteq> None)\<rparr>, w)))\<rparr>"

definition disk_keychain :: "disk keychain" where
  "disk_keychain =
     \<lparr>kcExists = (\<lambda>_. ret (Inr False)), kcCreate = (\<lambda>_. ret None), kcGet = (\<lambda>_ _. ret (Inr [])),
      kcDescribe = (\<lambda>_ _. ret (Inl (Sentinel ErrSecretNotFound))), kcPut = (\<lambda>_ _ _ _ _. ret None),
      kcDelete = (\<lambda>_ _. ret None)\<rparr>"

definition disk_toml :: toml_lib where
  "disk_toml text = Inr (default_toml (rev default_toml_zones), [])"

definition disk_init :: "disk init_app" where
  "disk_init = default_init (\<lambda>p. p) disk_toml (ret (Inr ''/home/me'')) disk_writer disk_opener disk_keychain"

lemma disk_walk:
  "list_all (\<lambda>d. wkError d = None \<and> (wkDir d \<or> \<not> isl (wkData d))) ds \<Longrightarrow>
    \<exists>r w'. run_state (walk_loop (ret None) disk_init dir True ds r0) w = ((r, None), w') \<and>
      irSkipped r = irSkipped r0 \<and> irFailed r = irFailed r0"
proof (induction ds arbitrary: r0 w)
  case (Cons d ds)
  show ?case
  proof (cases "wkDir d")
    case False
    with Cons.prems obtain data where "wkData d = Inr data" by (cases "wkData d") auto
    then show ?thesis
      using Cons.prems False
        Cons.IH [of "r0\<lparr>irWritten := irWritten r0 @ [wkPath d]\<rparr>" "w(path_join dir (wkPath d) \<mapsto> data)"]
      by (simp add: disk_init_def default_init_def disk_writer_def State_Monad.return_def del: fun_upd_apply)
  qed (use Cons in \<open>auto simp: State_Monad.return_def\<close>)
qed (simp add: State_Monad.return_def)

lemma disk_run:
  "\<exists>r w. run_state (RunInit (ret None) disk_init ''/s'' True) Map.empty = ((r, None), w) \<and>
     irSkipped r = [] \<and> irFailed r = []"
proof -
  have "list_all (\<lambda>d. wkError d = None \<and> (wkDir d \<or> \<not> isl (wkData d))) (walk_fs (scaffoldFS (\<lambda>p. p)))"
    by code_simp
  then obtain r w where walk: "run_state (walk_loop (ret None) disk_init ''/s'' True (inDefaults disk_init) (empty_report ''/s'')) Map.empty =
      ((r, None), w)" and r: "irSkipped r = []" "irFailed r = []"
    using disk_walk [of "inDefaults disk_init" "''/s''" "empty_report ''/s''" Map.empty]
    by (auto simp: disk_init_def default_init_def empty_report_def)
  obtain k w' where "run_state (keychainStep disk_init ''/s'') w = (k, w')" by fastforce
  then show ?thesis using walk r by (auto simp: RunInit_def State_Monad.return_def Let_def)
qed

lemma disk_store: "file_store (\<lambda>w. w) disk_writer disk_opener"
  by (auto simp: file_store_def disk_writer_def disk_opener_def keeps_def)

theorem init_then_load_witness:
  "\<exists>r w. run_state (RunInit (ret None) disk_init ''/s'' True) Map.empty = ((r, None), w) \<and> irWritten r = default_paths \<and>
     (\<forall>rt wl kc tg mi rd pg.
        fst (run_state (load \<lparr>lcRuntime = rt, lcWorkloads = wl, lcScaffold = disk_opener,
            lcTopology = Loader disk_toml (ret (Inr ''/home/me'')), lcKeychain = kc, lcTarget = tg,
            lcMinter = mi, lcRandom = rd, lcProgress = pg\<rparr> ''/s'') w) =
          Inr (scaffold_topology ''/home/me'', default_catalogue))"
proof -
  obtain r w where run: "run_state (RunInit (ret None) disk_init ''/s'' True) Map.empty = ((r, None), w)"
    and r: "irSkipped r = []" "irFailed r = []"
    using disk_run by blast
  have apart: "apart (\<lambda>w. w) (ret None) (ret (Inr ''/home/me'')) ''/home/me'' disk_keychain"
    by (simp add: apart_def keeps_def disk_keychain_def is_abs_def State_Monad.return_def)
  have decodes: "decodes_default disk_toml ''lclaw.toml''"
    by (auto simp: decodes_default_def disk_toml_def intro!: exI [of _ "rev default_toml_zones"])
  obtain fs where opened: "fst (run_state (doOpenDir disk_opener ''/s'') w) = Inr fs" by (simp add: disk_opener_def)
  have loads: "irWritten r = default_paths \<and>
      fst (run_state (load l ''/s'') w) = Inr (scaffold_topology ''/home/me'', default_catalogue)"
    if "lcScaffold l = disk_opener" "lcTopology l = Loader disk_toml (ret (Inr ''/home/me''))" for l :: "disk lifecycle"
    by (rule init_then_load [OF disk_store apart decodes _ run [unfolded disk_init_def] r opened that]) simp
  define l :: "disk lifecycle" where
    "l = undefined\<lparr>lcScaffold := disk_opener, lcTopology := Loader disk_toml (ret (Inr ''/home/me''))\<rparr>"
  have "irWritten r = default_paths" using loads [of l] by (simp add: l_def)
  then show ?thesis using run loads by (intro exI [of _ r] exI [of _ w]) simp
qed

end
