(* ===== verification/CliRender.thy ===== *)
theory CliRender
  imports SecretsApp InitApp GoJson GoTime
begin

text \<open>
  What \<open>internal/cli\<close> prints: \<open>render.go\<close> (reports), \<open>secrets_render.go\<close> (tables, details,
  outcomes) and the renderers of \<open>init.go\<close>, as text and as indented JSON. A writer is one
  operation; \<open>fmt.Fprintf\<close> and \<open>Encode\<close> make one call of it each.
\<close>

section \<open>Writers\<close>

type_synonym 'w writer = "string \<Rightarrow> ('w, go_error option) io"

text \<open>\<open>fmt.Fprintf\<close> with its result dropped, and several in order.\<close>

definition fprint :: "'w writer \<Rightarrow> string \<Rightarrow> ('w, unit) io" where
  "fprint w s = do { _ \<leftarrow> w s; ret () }"

fun print_all :: "'w writer \<Rightarrow> string list \<Rightarrow> ('w, unit) io" where
  "print_all w [] = ret ()"
| "print_all w (s # ss) = do { _ \<leftarrow> fprint w s; print_all w ss }"

text \<open>
  \<open>utf8.RuneCountInString\<close>: the bytes that must follow a first byte, and a count in which
  a byte that starts no well-formed character counts as one.
\<close>

definition rune_tail :: "nat \<Rightarrow> (nat \<times> nat) list" where
  "rune_tail b =
     (if 0xC2 \<le> b \<and> b \<le> 0xDF then [(0x80, 0xBF)]
      else if b = 0xE0 then [(0xA0, 0xBF), (0x80, 0xBF)]
      else if b = 0xED then [(0x80, 0x9F), (0x80, 0xBF)]
      else if 0xE1 \<le> b \<and> b \<le> 0xEF then [(0x80, 0xBF), (0x80, 0xBF)]
      else if b = 0xF0 then [(0x90, 0xBF), (0x80, 0xBF), (0x80, 0xBF)]
      else if 0xF1 \<le> b \<and> b \<le> 0xF3 then [(0x80, 0xBF), (0x80, 0xBF), (0x80, 0xBF)]
      else if b = 0xF4 then [(0x80, 0x8F), (0x80, 0xBF), (0x80, 0xBF)]
      else [])"

fun follows :: "(nat \<times> nat) list \<Rightarrow> string \<Rightarrow> bool" where
  "follows [] cs \<longleftrightarrow> True"
| "follows (_ # rs) [] \<longleftrightarrow> False"
| "follows ((lo, hi) # rs) (c # cs) \<longleftrightarrow> lo \<le> of_char c \<and> of_char c \<le> hi \<and> follows rs cs"

definition rune_rest :: "char \<Rightarrow> string \<Rightarrow> nat" where
  "rune_rest c cs = (if follows (rune_tail (of_char c)) cs then length (rune_tail (of_char c)) else 0)"

fun rune_count :: "string \<Rightarrow> nat" where
  "rune_count [] = 0"
| "rune_count (c # cs) = Suc (rune_count (drop (rune_rest c cs) cs))"

text \<open>\<open>%-*s\<close>: blanks up to a width counted in characters.\<close>

definition pad_right :: "nat \<Rightarrow> string \<Rightarrow> string" where
  "pad_right w s = s @ replicate (w - rune_count s) (CHR '' '')"

section \<open>Indented JSON\<close>

text \<open>\<open>json.Encoder\<close> with \<open>SetIndent("", "  ")\<close>: one field or element a line, and a newline.\<close>

definition separated :: "string \<Rightarrow> string list \<Rightarrow> string" where
  "separated ind items = join_with ('','' @ [newline]) (map (\<lambda>i. ind @ i) items)"

fun json_indent :: "string \<Rightarrow> json \<Rightarrow> string" where
  "json_indent ind JNull = ''null''"
| "json_indent ind (JBool b) = (if b then ''true'' else ''false'')"
| "json_indent ind (JNum n) = n"
| "json_indent ind (JStr s) = json_quote s"
| "json_indent ind (JArr xs) =
     (if xs = [] then ''[]''
      else ''['' @ [newline] @ separated (ind @ ''  '') (map (json_indent (ind @ ''  '')) xs) @ [newline] @ ind @ '']'')"
| "json_indent ind (JObj fs) =
     (if fs = [] then ''{}''
      else ''{'' @ [newline] @
        separated (ind @ ''  '') (map (\<lambda>(k, v). json_quote k @ '': '' @ json_indent (ind @ ''  '') v) fs) @
        [newline] @ ind @ ''}'')"

definition json_encode :: "'w writer \<Rightarrow> json \<Rightarrow> ('w, go_error option) io" where
  "json_encode w v = w (json_indent [] v @ [newline])"

text \<open>\<open>omitempty\<close> on a string.\<close>

definition omitempty :: "string \<Rightarrow> string \<Rightarrow> (string \<times> json) list" where
  "omitempty k v = (if v = [] then [] else [(k, JStr v)])"

section \<open>Reports\<close>

fun report_width :: "nat \<Rightarrow> check list \<Rightarrow> nat" where
  "report_width width [] = width"
| "report_width width (c # cs) =
     report_width (if width < length (cName c) then length (cName c) else width) cs"

definition check_lines :: "nat \<Rightarrow> check \<Rightarrow> string list" where
  "check_lines width c =
     [pad_right 4 (map to_upper (status_name (cStatus c))) @ ''  '' @ pad_right width (cName c) @ ''  '' @
        cSummary c @ [newline]] @
     (if cHint c \<noteq> [] then [''      hint: '' @ cHint c @ [newline]] else [])"

definition report_counts :: "report \<Rightarrow> string" where
  "report_counts r =
     [newline] @ itoa (Count r Pass) @ '' passed, '' @ itoa (Count r Warn) @ '' warnings, '' @
     itoa (Count r Fail) @ '' failed'' @ [newline]"

definition renderReportText :: "'w writer \<Rightarrow> report \<Rightarrow> ('w, unit) io" where
  "renderReportText w r =
     (let width = report_width 0 r in print_all w (concat (map (check_lines width) r) @ [report_counts r]))"

definition check_dto :: "check \<Rightarrow> json" where
  "check_dto c =
     JObj ([(''name'', JStr (cName c)), (''status'', JStr (status_name (cStatus c))),
            (''summary'', JStr (cSummary c))] @ omitempty ''hint'' (cHint c))"

definition report_dto :: "report \<Rightarrow> json" where
  "report_dto r = JObj [(''status'', JStr (status_name (Worst r))), (''checks'', JArr (map check_dto r))]"

definition renderReportJSON :: "'w writer \<Rightarrow> report \<Rightarrow> ('w, go_error option) io" where
  "renderReportJSON w r = json_encode w (report_dto r)"

section \<open>Tables\<close>

text \<open>The widest cell of every column; a row has as many cells as the first.\<close>

fun widen :: "nat list \<Rightarrow> string list \<Rightarrow> nat list" where
  "widen [] r = []"
| "widen ws [] = ws"
| "widen (w # ws) (c # cs) = (if w < length c then length c else w) # widen ws cs"

definition table_widths :: "string list list \<Rightarrow> nat list" where
  "table_widths rows = fold (\<lambda>r ws. widen ws r) rows (replicate (length (hd rows)) 0)"

fun row_chunks :: "nat list \<Rightarrow> string list \<Rightarrow> string list" where
  "row_chunks ws [] = []"
| "row_chunks ws [c] = [c @ [newline]]"
| "row_chunks (w # ws) (c # cs) = (pad_right w c @ ''  '') # row_chunks ws cs"
| "row_chunks [] (c # cs) = []"

definition writeTable :: "'w writer \<Rightarrow> string list list \<Rightarrow> ('w, unit) io" where
  "writeTable w rows =
     (if rows = [] then ret ()
      else (let widths = table_widths rows in print_all w (concat (map (row_chunks widths) rows))))"

section \<open>Secrets\<close>

definition zonesText :: "role list \<Rightarrow> string" where
  "zonesText roles = join_with '','' (map role_name roles)"

definition stateText :: "secret_status \<Rightarrow> string" where
  "stateText s =
     (if ssSet s then ''set''
      else (case sSource (ssSpec s) of
              Generated \<Rightarrow> ''unset (generated on next up)''
            | Minted \<Rightarrow> ''unset (minted on next up)''
            | _ \<Rightarrow> ''unset (run `lclaw secrets set '' @ sName (ssSpec s) @ ''`)''))"

definition stateWord :: "bool \<Rightarrow> string" where
  "stateWord is_set = (if is_set then ''set'' else ''unset'')"

definition storeText :: "store_outcome \<Rightarrow> string" where
  "storeText s =
     (case soErr s of
        Some err \<Rightarrow> store_state_name (soState s) @ '': '' @ err_text err
      | None \<Rightarrow> store_state_name (soState s))"

definition list_row :: "secret_status \<Rightarrow> string list" where
  "list_row r =
     [sName (ssSpec r), source_name (ssSource r), zonesText (sZones (ssSpec r)), stateText r]"

definition list_table :: "secret_status list \<Rightarrow> string list list" where
  "list_table rows = [''NAME'', ''SOURCE'', ''ZONES'', ''STATE''] # map list_row rows"

definition renderListText :: "'w writer \<Rightarrow> secret_status list \<Rightarrow> ('w, unit) io" where
  "renderListText w rows = writeTable w (list_table rows)"

text \<open>\<open>t.UTC().Format(time.RFC3339)\<close>.\<close>

definition rfc3339 :: "gotime \<Rightarrow> string" where
  "rfc3339 t =
     pad2 (gtYear t div 100) @ pad2 (gtYear t mod 100) @ ''-'' @ pad2 (gtMonth t) @ ''-'' @ pad2 (gtDay t) @ ''T'' @
     pad2 (gtHour t) @ '':'' @ pad2 (gtMinute t) @ '':'' @ pad2 (gtSecond t) @ ''Z''"

definition detail_lines :: "secret_detail \<Rightarrow> string list" where
  "detail_lines d =
     (let s = sdStatus d in
      [''name:      '' @ sName (ssSpec s) @ [newline], ''source:    '' @ source_name (ssSource s) @ [newline],
       ''zones:     '' @ zonesText (sZones (ssSpec s)) @ [newline], ''state:     '' @ stateWord (ssSet s) @ [newline]] @
      (if ssSet s
       then [''created:   '' @ rfc3339 (sdCreated d) @ [newline], ''modified:  '' @ rfc3339 (sdModified d) @ [newline]]
       else []) @
      [''store:     '' @ storeText (sdStore d) @ [newline]])"

definition renderDetailText :: "'w writer \<Rightarrow> secret_detail \<Rightarrow> ('w, unit) io" where
  "renderDetailText w d = print_all w (detail_lines d)"

definition renderOutcomeText :: "'w writer \<Rightarrow> string \<Rightarrow> outcome \<Rightarrow> ('w, unit) io" where
  "renderOutcomeText w verb ou =
     print_all w
       ([verb @ '' '' @ ouName ou @ [newline], ''  store  '' @ storeText (ouStore ou) @ [newline]] @
        (if verb = ''updated'' \<and> soState (ouStore ou) = StoreStored
         then [''pods pick the new value up on the next `lclaw up`'' @ [newline]] else []))"

definition toSecretDTO :: "secret_status \<Rightarrow> (string \<times> json) list" where
  "toSecretDTO s =
     [(''name'', JStr (sName (ssSpec s))), (''source'', JStr (source_name (ssSource s))),
      (''zones'', JArr (map (\<lambda>r. JStr (role_name r)) (sZones (ssSpec s)))), (''state'', JStr (stateWord (ssSet s)))]"

definition toStoreDTO :: "store_outcome \<Rightarrow> json" where
  "toStoreDTO s =
     JObj ((''state'', JStr (store_state_name (soState s))) #
       (case soErr s of None \<Rightarrow> [] | Some err \<Rightarrow> omitempty ''error'' (err_text err)))"

definition renderListJSON :: "'w writer \<Rightarrow> secret_status list \<Rightarrow> ('w, go_error option) io" where
  "renderListJSON w rows = json_encode w (JObj [(''secrets'', JArr (map (\<lambda>r. JObj (toSecretDTO r)) rows))])"

definition renderDetailJSON :: "'w writer \<Rightarrow> secret_detail \<Rightarrow> ('w, go_error option) io" where
  "renderDetailJSON w d =
     json_encode w
       (JObj (toSecretDTO (sdStatus d) @
          (if ssSet (sdStatus d)
           then omitempty ''created'' (rfc3339 (sdCreated d)) @ omitempty ''modified'' (rfc3339 (sdModified d))
           else []) @
          [(''store'', toStoreDTO (sdStore d))]))"

definition renderOutcomeJSON :: "'w writer \<Rightarrow> string \<Rightarrow> outcome \<Rightarrow> ('w, go_error option) io" where
  "renderOutcomeJSON w verb ou =
     json_encode w
       (JObj ([(''name'', JStr (ouName ou)), (''action'', JStr verb), (''store'', toStoreDTO (ouStore ou))] @
          omitempty ''warning'' (ouWarning ou)))"

section \<open>The report of init\<close>

definition keychain_line :: "keychain_outcome \<Rightarrow> string list" where
  "keychain_line k =
     (case koState k of
        KeychainCreated \<Rightarrow> [''created  '' @ koPath k @ [newline]]
      | KeychainSkipped \<Rightarrow> [''skipped  '' @ koPath k @ [newline]]
      | KeychainFailed \<Rightarrow>
          [''failed   '' @ (if koPath k = [] then ''keychain'' else koPath k) @ '': '' @
             (case koErr k of Some err \<Rightarrow> err_text err | None \<Rightarrow> ''<nil>'') @ [newline]]
      | KeychainUnset \<Rightarrow> [])"

definition renderInitText :: "'w writer \<Rightarrow> init_report \<Rightarrow> ('w, unit) io" where
  "renderInitText w r =
     print_all w
       (map (\<lambda>p. ''written  '' @ p @ [newline]) (irWritten r) @
        map (\<lambda>p. ''skipped  '' @ p @ [newline]) (irSkipped r) @
        map (\<lambda>f. ''failed   '' @ ifPath f @ '': '' @ err_text (ifErr f) @ [newline]) (irFailed r) @
        keychain_line (irKeychain r) @
        [[newline] @ irDir r @ '': '' @ itoa (int (length (irWritten r))) @ '' written, '' @
           itoa (int (length (irSkipped r))) @ '' skipped, '' @ itoa (int (length (irFailed r))) @ '' failed'' @ [newline]])"

definition keychain_dto :: "keychain_outcome \<Rightarrow> json" where
  "keychain_dto k =
     JObj (omitempty ''path'' (koPath k) @ [(''state'', JStr (keychain_state_name (koState k)))] @
       (case koErr k of None \<Rightarrow> [] | Some err \<Rightarrow> omitempty ''error'' (err_text err)))"

definition init_dto :: "init_report \<Rightarrow> json" where
  "init_dto r =
     JObj [(''dir'', JStr (irDir r)), (''written'', JArr (map JStr (irWritten r))),
       (''skipped'', JArr (map JStr (irSkipped r))),
       (''failed'', JArr (map (\<lambda>f. JObj [(''path'', JStr (ifPath f)), (''error'', JStr (err_text (ifErr f)))]) (irFailed r))),
       (''keychain'', keychain_dto (irKeychain r))]"

definition renderInitJSON :: "'w writer \<Rightarrow> init_report \<Rightarrow> ('w, go_error option) io" where
  "renderInitJSON w r = json_encode w (init_dto r)"

end
