(* ===== verification/CommandLine.thy ===== *)
theory CommandLine
  imports CliRender DoctorApp ZoneSelection
begin

text \<open>
  \<open>internal/cli\<close> and the end of \<open>run\<close> in \<open>cmd/lclaw/main.go\<close>: what every command does with
  its flags and arguments, and what its error means for the exit status. The library that
  parses the command line, \<open>urfave/cli\<close>, is a parameter: it finds a mistake in the flags,
  serves help or completion itself, or selects a command.
\<close>

section \<open>Exit status\<close>

definition ExitCode :: "go_error option \<Rightarrow> int" where
  "ExitCode err =
     (case err of
        None \<Rightarrow> 0
      | Some e \<Rightarrow>
          if as_usage e then 2
          else if errors_is e CtxCanceled then 130
          else if errors_is e ErrUnknownSecret \<or> errors_is e ErrInvalidValue \<or> errors_is e ErrNotGeneratable \<or>
            errors_is e ErrMinterUnavailable then 2
          else 1)"

definition Silent :: "go_error option \<Rightarrow> bool" where
  "Silent err =
     (case err of
        None \<Rightarrow> True
      | Some e \<Rightarrow> as_usage e \<or> errors_is e ErrChecksFailed \<or> errors_is e ErrInitFailed)"

section \<open>The use cases and the injected streams\<close>

record 'w lifecycle_runner =
  lrUp :: "string \<Rightarrow> role list \<Rightarrow> ('w, reported) io"
  lrDown :: "string \<Rightarrow> role list \<Rightarrow> bool \<Rightarrow> ('w, reported) io"
  lrStatus :: "string \<Rightarrow> ('w, reported) io"

record 'w secrets_runner =
  srList :: "string \<Rightarrow> ('w, go_error + secret_status list) io"
  srDescribe :: "string \<Rightarrow> string \<Rightarrow> ('w, go_error + secret_detail) io"
  srSet :: "string \<Rightarrow> string \<Rightarrow> string \<Rightarrow> ('w, go_error + outcome) io"
  srUpdate :: "string \<Rightarrow> string \<Rightarrow> string \<Rightarrow> bool \<Rightarrow> ('w, go_error + outcome) io"
  srDelete :: "string \<Rightarrow> string \<Rightarrow> ('w, go_error + outcome) io"
  srGet :: "string \<Rightarrow> string \<Rightarrow> ('w, go_error + string) io"

record build_info =
  biVersion :: string
  biCommit :: string
  biDate :: string
  biModified :: bool

text \<open>
  \<open>Deps\<close>, with \<open>runtime.Version()\<close>, \<open>runtime.GOOS/GOARCH\<close> and \<open>os.ReadFile\<close> beside it; a
  nil field is \<open>None\<close>. \<open>dpLevel\<close> raises the log level.
\<close>

record 'w cli_deps =
  dpDoctor :: "string \<Rightarrow> ('w, reported) io"
  dpLifecycle :: "'w lifecycle_runner"
  dpInit :: "string \<Rightarrow> bool \<Rightarrow> ('w, init_report \<times> go_error option) io"
  dpSecrets :: "'w secrets_runner"
  dpBuild :: build_info
  dpDefaultDir :: string
  dpLevel :: "('w, unit) io option"
  dpStdout :: "'w writer"
  dpStderr :: "'w writer"
  dpStdin :: "('w, go_error + string) io option"
  dpPrompt :: "(string \<Rightarrow> ('w, go_error + string) io) option"
  dpReadFile :: "string \<Rightarrow> ('w, go_error + string) io"
  dpGo :: string
  dpPlatform :: string

text \<open>A selected command: its positional arguments and the values of the flags.\<close>

record cli_cmd =
  cdArgs :: "string list"
  cdOutput :: string
  cdVerbose :: bool
  cdDir :: string
  cdDestroy :: bool
  cdForce :: bool
  cdGenerate :: bool
  cdFromFile :: string

datatype command_name =
    CmdRoot | CmdUp | CmdDown | CmdStatus | CmdDoctor | CmdInit | CmdVersion | CmdSecrets
  | CmdList | CmdDescribe | CmdSet | CmdUpdate | CmdDelete | CmdGet

text \<open>What the library makes of an argument list, and the help it can show.\<close>

datatype invocation =
    BadFlags go_error
  | Served "go_error option"
  | Selected command_name cli_cmd

record 'w ucli =
  ucParse :: "string \<Rightarrow> string list \<Rightarrow> ('w, invocation) io"
  ucAppHelp :: "('w, go_error option) io"
  ucSubcommandHelp :: "('w, go_error option) io"

section \<open>Shared steps\<close>

text \<open>\<open>if err != nil { return err }\<close>\<close>

definition or_return :: "('w, go_error + 'a) io \<Rightarrow> ('a \<Rightarrow> ('w, go_error option) io) \<Rightarrow> ('w, go_error option) io" where
  "or_return m f = do { r \<leftarrow> m; case r of Inl err \<Rightarrow> ret (Some err) | Inr x \<Rightarrow> f x }"

definition usage_text :: "go_error \<Rightarrow> string" where
  "usage_text err =
     ''lclaw: '' @ err_text err @ [newline] @ ''Run 'lclaw --help' for usage.'' @ [newline]"

definition usage :: "'w cli_deps \<Rightarrow> go_error \<Rightarrow> ('w, go_error) io" where
  "usage d err = do { _ \<leftarrow> fprint (dpStderr d) (usage_text err); ret (UsageError err) }"

definition onUsageError :: "'w cli_deps \<Rightarrow> go_error \<Rightarrow> ('w, go_error option) io" where
  "onUsageError d err = do { e \<leftarrow> usage d err; ret (Some e) }"

definition refuse :: "'w cli_deps \<Rightarrow> go_error \<Rightarrow> ('w, go_error + 'a) io" where
  "refuse d err = do { e \<leftarrow> usage d err; ret (Inl e) }"

definition scaffoldDir :: "'w cli_deps \<Rightarrow> cli_cmd \<Rightarrow> ('w, go_error + string) io" where
  "scaffoldDir d c =
     (if cdDir c = [] then refuse d (Plain ''no scaffold directory: pass --dir or set LCLAW_DIR'')
      else ret (Inr (cdDir c)))"

definition jsonOutput :: "cli_cmd \<Rightarrow> bool" where
  "jsonOutput c \<longleftrightarrow> cdOutput c = ''json''"

definition zoneArgs :: "'w cli_deps \<Rightarrow> cli_cmd \<Rightarrow> ('w, go_error + role list) io" where
  "zoneArgs d c =
     (case SelectRoles (cdArgs c) of Inl err \<Rightarrow> refuse d err | Inr roles \<Rightarrow> ret (Inr roles))"

definition unexpected :: "string \<Rightarrow> go_error" where
  "unexpected a = Plain (''unexpected argument '' @ quote a)"

definition nameArg :: "'w cli_deps \<Rightarrow> cli_cmd \<Rightarrow> ('w, go_error + string) io" where
  "nameArg d c =
     (case cdArgs c of
        [] \<Rightarrow> refuse d (Plain ''missing secret name'')
      | [name] \<Rightarrow> ret (Inr name)
      | _ # second # _ \<Rightarrow> refuse d (unexpected second))"

definition trimNewline :: "string \<Rightarrow> string" where
  "trimNewline b = trim_suffix [cret] (trim_suffix [newline] b)"

definition readValue :: "'w cli_deps \<Rightarrow> cli_cmd \<Rightarrow> string \<Rightarrow> ('w, go_error + string) io" where
  "readValue d c name =
     (if cdFromFile c \<noteq> [] then do {
        r \<leftarrow> dpReadFile d (cdFromFile c);
        ret (case r of Inl err \<Rightarrow> Inl (Wrapf ''read --from-file: '' err []) | Inr b \<Rightarrow> Inr (trimNewline b))
      }
      else (case dpPrompt d of
        Some prompt \<Rightarrow> do {
          r \<leftarrow> prompt (''value for '' @ name @ '': '');
          ret (case r of Inl err \<Rightarrow> Inl (Wrapf ''prompt for value: '' err []) | Inr b \<Rightarrow> Inr b)
        }
      | None \<Rightarrow>
          (case dpStdin d of
             None \<Rightarrow> refuse d (Plain ''no value: pass --from-file or pipe the value on stdin'')
           | Some stdin \<Rightarrow> do {
               r \<leftarrow> stdin;
               ret (case r of Inl err \<Rightarrow> Inl (Wrapf ''read stdin: '' err []) | Inr b \<Rightarrow> Inr (trimNewline b))
             })))"

text \<open>
  The two renderings of a result: JSON, whose writer's error is returned, and text, whose
  writer's errors are dropped; then what follows.
\<close>

definition render_then ::
  "cli_cmd \<Rightarrow> ('w, go_error option) io \<Rightarrow> ('w, unit) io \<Rightarrow> ('w, go_error option) io \<Rightarrow> ('w, go_error option) io" where
  "render_then c json text k =
     (if jsonOutput c then do { e \<leftarrow> json; case e of Some err \<Rightarrow> ret (Some err) | None \<Rightarrow> k }
      else do { _ \<leftarrow> text; k })"

definition show_report :: "'w cli_deps \<Rightarrow> cli_cmd \<Rightarrow> report \<Rightarrow> ('w, go_error option) io \<Rightarrow> ('w, go_error option) io" where
  "show_report d c rep k = render_then c (renderReportJSON (dpStdout d) rep) (renderReportText (dpStdout d) rep) k"

definition findingsToChecks :: "finding list \<Rightarrow> check list" where
  "findingsToChecks findings = map (\<lambda>f. mkCheck (fWhere f) Fail (fMessage f) []) findings"

definition reportFindings :: "'w cli_deps \<Rightarrow> cli_cmd \<Rightarrow> go_error \<Rightarrow> ('w, go_error option) io" where
  "reportFindings d c err =
     (case as_findings err of
        None \<Rightarrow> ret (Some err)
      | Some fs \<Rightarrow> show_report d c (findingsToChecks fs) (ret (Some (Sentinel ErrChecksFailed))))"

definition renderLifecycle :: "'w cli_deps \<Rightarrow> cli_cmd \<Rightarrow> report \<Rightarrow> ('w, go_error option) io" where
  "renderLifecycle d c rep =
     show_report d c rep (ret (if Worst rep = Fail then Some (Sentinel ErrChecksFailed) else None))"

definition warning_line :: "string \<Rightarrow> string" where
  "warning_line w = ''lclaw: warning: '' @ w @ [newline]"

definition renderOutcome :: "'w cli_deps \<Rightarrow> cli_cmd \<Rightarrow> string \<Rightarrow> outcome \<Rightarrow> ('w, go_error option) io" where
  "renderOutcome d c verb ou = do {
     _ \<leftarrow> (if ouWarning ou \<noteq> [] then fprint (dpStderr d) (warning_line (ouWarning ou)) else ret ());
     render_then c (renderOutcomeJSON (dpStdout d) verb ou) (renderOutcomeText (dpStdout d) verb ou)
       (ret (if outcome_failed ou then Some (Sentinel ErrChecksFailed) else None))
   }"

section \<open>The commands of the lifecycle\<close>

text \<open>\<open>if err != nil { return reportFindings(cmd, err) }; return renderLifecycle(cmd, report)\<close>\<close>

definition report_result :: "'w cli_deps \<Rightarrow> cli_cmd \<Rightarrow> reported \<Rightarrow> ('w, go_error option) io" where
  "report_result d c r =
     (case r of
        (_, Some err) \<Rightarrow> reportFindings d c err
      | (rep, None) \<Rightarrow> renderLifecycle d c rep)"

definition upAction :: "'w cli_deps \<Rightarrow> cli_cmd \<Rightarrow> ('w, go_error option) io" where
  "upAction d c =
     or_return (zoneArgs d c) (\<lambda>roles.
     or_return (scaffoldDir d c) (\<lambda>dir. do {
       r \<leftarrow> lrUp (dpLifecycle d) dir roles;
       report_result d c r
     }))"

definition destroy_mistake :: go_error where
  "destroy_mistake = Plain ''--destroy applies to the whole machine; name no zone''"

definition downAction :: "'w cli_deps \<Rightarrow> cli_cmd \<Rightarrow> ('w, go_error option) io" where
  "downAction d c =
     or_return (zoneArgs d c) (\<lambda>roles.
       if cdDestroy c \<and> cdArgs c \<noteq> [] then onUsageError d destroy_mistake
       else or_return (scaffoldDir d c) (\<lambda>dir. do {
         r \<leftarrow> lrDown (dpLifecycle d) dir roles (cdDestroy c);
         report_result d c r
       }))"

text \<open>\<open>if cmd.Args().Present() { return usage(...) }\<close>\<close>

definition no_args :: "'w cli_deps \<Rightarrow> cli_cmd \<Rightarrow> ('w, go_error option) io \<Rightarrow> ('w, go_error option) io" where
  "no_args d c k = (case cdArgs c of a # _ \<Rightarrow> onUsageError d (unexpected a) | [] \<Rightarrow> k)"

definition statusAction :: "'w cli_deps \<Rightarrow> cli_cmd \<Rightarrow> ('w, go_error option) io" where
  "statusAction d c =
     no_args d c
       (or_return (scaffoldDir d c) (\<lambda>dir. do {
          r \<leftarrow> lrStatus (dpLifecycle d) dir;
          report_result d c r
        }))"

definition doctorAction :: "'w cli_deps \<Rightarrow> cli_cmd \<Rightarrow> ('w, go_error option) io" where
  "doctorAction d c =
     or_return (scaffoldDir d c) (\<lambda>dir. do {
       r \<leftarrow> dpDoctor d dir;
       case r of
         (_, Some err) \<Rightarrow> ret (Some err)
       | (rep, None) \<Rightarrow> renderLifecycle d c rep
     })"

section \<open>Init and version\<close>

definition empty_password_warning :: string where
  "empty_password_warning =
     ''standard input is not a terminal, so security read the new keychain's password from it; '' @
     ''an empty stdin creates a keychain with an empty password''"

definition initAction :: "'w cli_deps \<Rightarrow> cli_cmd \<Rightarrow> ('w, go_error option) io" where
  "initAction d c =
     or_return (scaffoldDir d c) (\<lambda>dir. do {
       r \<leftarrow> dpInit d dir (cdForce c);
       case r of
         (_, Some err) \<Rightarrow> ret (Some err)
       | (rep, None) \<Rightarrow>
           render_then c (renderInitJSON (dpStdout d) rep) (renderInitText (dpStdout d) rep) (do {
             _ \<leftarrow> (if koState (irKeychain rep) = KeychainCreated \<and> dpPrompt d = None
                   then fprint (dpStderr d) (warning_line empty_password_warning) else ret ());
             ret (if \<not> init_ok rep then Some (Sentinel ErrInitFailed) else None)
           })
     })"

definition version_dto :: "'w cli_deps \<Rightarrow> json" where
  "version_dto d =
     (let b = dpBuild d in
      JObj [(''version'', JStr (biVersion b)), (''commit'', JStr (biCommit b)), (''date'', JStr (biDate b)),
        (''modified'', JBool (biModified b)), (''go'', JStr (dpGo d)), (''platform'', JStr (dpPlatform d))])"

definition version_text :: "'w cli_deps \<Rightarrow> string" where
  "version_text d =
     (let b = dpBuild d; commit = biCommit b @ (if biModified b then '' (modified)'' else []) in
      ''lclaw '' @ biVersion b @ [newline] @ ''commit:   '' @ commit @ [newline] @
      ''built:    '' @ biDate b @ [newline] @ ''go:       '' @ dpGo d @ '' '' @ dpPlatform d @ [newline])"

definition versionAction :: "'w cli_deps \<Rightarrow> cli_cmd \<Rightarrow> ('w, go_error option) io" where
  "versionAction d c =
     (if jsonOutput c then json_encode (dpStdout d) (version_dto d) else dpStdout d (version_text d))"

section \<open>The commands on secrets\<close>

definition listAction :: "'w cli_deps \<Rightarrow> cli_cmd \<Rightarrow> ('w, go_error option) io" where
  "listAction d c =
     no_args d c
       (or_return (scaffoldDir d c) (\<lambda>dir. do {
          r \<leftarrow> srList (dpSecrets d) dir;
          case r of
            Inl err \<Rightarrow> reportFindings d c err
          | Inr rows \<Rightarrow> render_then c (renderListJSON (dpStdout d) rows) (renderListText (dpStdout d) rows) (ret None)
        }))"

definition describeAction :: "'w cli_deps \<Rightarrow> cli_cmd \<Rightarrow> ('w, go_error option) io" where
  "describeAction d c =
     or_return (nameArg d c) (\<lambda>name.
     or_return (scaffoldDir d c) (\<lambda>dir. do {
       r \<leftarrow> srDescribe (dpSecrets d) dir name;
       case r of
         Inl err \<Rightarrow> reportFindings d c err
       | Inr detail \<Rightarrow>
           render_then c (renderDetailJSON (dpStdout d) detail) (renderDetailText (dpStdout d) detail) (ret None)
     }))"

definition outcome_result :: "'w cli_deps \<Rightarrow> cli_cmd \<Rightarrow> string \<Rightarrow> go_error + outcome \<Rightarrow> ('w, go_error option) io" where
  "outcome_result d c verb r =
     (case r of Inl err \<Rightarrow> reportFindings d c err | Inr ou \<Rightarrow> renderOutcome d c verb ou)"

definition setAction :: "'w cli_deps \<Rightarrow> cli_cmd \<Rightarrow> ('w, go_error option) io" where
  "setAction d c =
     or_return (nameArg d c) (\<lambda>name.
     or_return (scaffoldDir d c) (\<lambda>dir.
     or_return (readValue d c name) (\<lambda>value. do {
       r \<leftarrow> srSet (dpSecrets d) dir name value;
       outcome_result d c ''set'' r
     })))"

definition generate_mistake :: go_error where
  "generate_mistake = Plain ''--generate and --from-file cannot be combined''"

definition updateAction :: "'w cli_deps \<Rightarrow> cli_cmd \<Rightarrow> ('w, go_error option) io" where
  "updateAction d c =
     or_return (nameArg d c) (\<lambda>name.
     or_return (scaffoldDir d c) (\<lambda>dir.
       if cdGenerate c \<and> cdFromFile c \<noteq> [] then onUsageError d generate_mistake
       else or_return (if \<not> cdGenerate c then readValue d c name else ret (Inr [])) (\<lambda>value. do {
         r \<leftarrow> srUpdate (dpSecrets d) dir name value (cdGenerate c);
         outcome_result d c ''updated'' r
       })))"

definition deleteAction :: "'w cli_deps \<Rightarrow> cli_cmd \<Rightarrow> ('w, go_error option) io" where
  "deleteAction d c =
     or_return (nameArg d c) (\<lambda>name.
     or_return (scaffoldDir d c) (\<lambda>dir. do {
       r \<leftarrow> srDelete (dpSecrets d) dir name;
       outcome_result d c ''deleted'' r
     }))"

definition getAction :: "'w cli_deps \<Rightarrow> cli_cmd \<Rightarrow> ('w, go_error option) io" where
  "getAction d c =
     or_return (nameArg d c) (\<lambda>name.
     or_return (scaffoldDir d c) (\<lambda>dir. do {
       r \<leftarrow> srGet (dpSecrets d) dir name;
       case r of
         Inl err \<Rightarrow> reportFindings d c err
       | Inr value \<Rightarrow> dpStdout d value
     }))"

section \<open>The command tree\<close>

definition unknown_command :: "string \<Rightarrow> go_error" where
  "unknown_command a = Plain (''unknown command '' @ quote a)"

definition groupAction :: "('w, go_error option) io \<Rightarrow> 'w cli_deps \<Rightarrow> cli_cmd \<Rightarrow> ('w, go_error option) io" where
  "groupAction help d c = (case cdArgs c of a # _ \<Rightarrow> onUsageError d (unknown_command a) | [] \<Rightarrow> help)"

fun action :: "'w ucli \<Rightarrow> 'w cli_deps \<Rightarrow> command_name \<Rightarrow> cli_cmd \<Rightarrow> ('w, go_error option) io" where
  "action u d CmdRoot = groupAction (ucAppHelp u) d"
| "action u d CmdSecrets = groupAction (ucSubcommandHelp u) d"
| "action u d CmdUp = upAction d"
| "action u d CmdDown = downAction d"
| "action u d CmdStatus = statusAction d"
| "action u d CmdDoctor = doctorAction d"
| "action u d CmdInit = initAction d"
| "action u d CmdVersion = versionAction d"
| "action u d CmdList = listAction d"
| "action u d CmdDescribe = describeAction d"
| "action u d CmdSet = setAction d"
| "action u d CmdUpdate = updateAction d"
| "action u d CmdDelete = deleteAction d"
| "action u d CmdGet = getAction d"

definition output_mistake :: "string \<Rightarrow> go_error" where
  "output_mistake out = Plain (''invalid value '' @ quote out @ '' for --output: want text or json'')"

definition before :: "'w cli_deps \<Rightarrow> cli_cmd \<Rightarrow> ('w, go_error option) io" where
  "before d c =
     (if cdOutput c \<noteq> ''text'' \<and> cdOutput c \<noteq> ''json'' then onUsageError d (output_mistake (cdOutput c))
      else (case dpLevel d of
              Some raise \<Rightarrow> if cdVerbose c then do { _ \<leftarrow> raise; ret None } else ret None
            | None \<Rightarrow> ret None))"

definition RunRoot :: "'w ucli \<Rightarrow> 'w cli_deps \<Rightarrow> string list \<Rightarrow> ('w, go_error option) io" where
  "RunRoot u d args = do {
     i \<leftarrow> ucParse u (dpDefaultDir d) args;
     case i of
       BadFlags err \<Rightarrow> onUsageError d err
     | Served err \<Rightarrow> ret err
     | Selected name c \<Rightarrow> do {
         err \<leftarrow> before d c;
         case err of Some e \<Rightarrow> ret (Some e) | None \<Rightarrow> action u d name c
       }
   }"

definition error_line :: "go_error \<Rightarrow> string" where
  "error_line e = ''lclaw: '' @ err_text e @ [newline]"

definition run_main :: "'w ucli \<Rightarrow> 'w cli_deps \<Rightarrow> string list \<Rightarrow> ('w, int) io" where
  "run_main u d args = do {
     err \<leftarrow> RunRoot u d args;
     let code = ExitCode err;
     _ \<leftarrow> (if code = 130 then fprint (dpStderr d) (''lclaw: interrupted'' @ [newline])
           else (case err of
                   Some e \<Rightarrow> if \<not> Silent err then fprint (dpStderr d) (error_line e) else ret ()
                 | None \<Rightarrow> ret ()));
     ret code
   }"

section \<open>Progress, build and directory\<close>

definition Progress :: "'w writer \<Rightarrow> 'w progress" where
  "Progress stderr =
     \<lparr>pgStep = (\<lambda>name detail. fprint stderr (''==> '' @ name @ '': '' @ detail @ [newline]))\<rparr>"

text \<open>The settings Go's toolchain recorded are pairs of key and value, if any.\<close>

fun build_settings :: "(string \<times> string) list \<Rightarrow> build_info \<Rightarrow> build_info" where
  "build_settings [] bi = bi"
| "build_settings ((k, v) # ss) bi =
     build_settings ss
       (if k = ''vcs.revision'' then bi\<lparr>biCommit := v\<rparr>
        else if k = ''vcs.time'' then bi\<lparr>biDate := v\<rparr>
        else if k = ''vcs.modified'' then bi\<lparr>biModified := (v = ''true'')\<rparr>
        else bi)"

definition buildInfo :: "string \<Rightarrow> (string \<times> string) list option \<Rightarrow> build_info" where
  "buildInfo version settings =
     (let bi = \<lparr>biVersion = trim_space version, biCommit = ''unknown'', biDate = ''unknown'', biModified = False\<rparr> in
      case settings of None \<Rightarrow> bi | Some ss \<Rightarrow> build_settings ss bi)"

definition defaultDir :: "go_error + string \<Rightarrow> string" where
  "defaultDir home =
     (case home of Inl _ \<Rightarrow> [] | Inr h \<Rightarrow> path_join (path_join h ''.config'') ''lclaw'')"

end
