(* ===== verification/CliProperties.thy ===== *)
theory CliProperties
  imports CommandLine
begin

text \<open>
  What a run of \<open>lclaw\<close> does with its streams and its one use case: the log of a run, the
  abstract presentation of an answer, and that every command keeps to it.
\<close>

section \<open>The log of a run\<close>

datatype use_call =
    CallUp string "role list" reported
  | CallDown string "role list" bool reported
  | CallStatus string reported
  | CallDoctor string reported
  | CallInit string bool "init_report \<times> go_error option"
  | CallList string "go_error + secret_status list"
  | CallDescribe string string "go_error + secret_detail"
  | CallSet string string string "go_error + outcome"
  | CallUpdate string string string bool "go_error + outcome"
  | CallDelete string string "go_error + outcome"
  | CallGet string string "go_error + string"

datatype cli_event =
    CeParsed invocation
  | CeOut string "go_error option"
  | CeErr string "go_error option"
  | CeFile string "go_error + string"
  | CePrompt string "go_error + string"
  | CeStdin "go_error + string"
  | CeHelp "go_error option"
  | CeCall use_call

definition log_ucli :: "'w ucli \<Rightarrow> ('w \<times> cli_event list) ucli" where
  "log_ucli u =
     \<lparr>ucParse = (\<lambda>dir args. tap CeParsed (ucParse u dir args)), ucAppHelp = tap CeHelp (ucAppHelp u),
      ucSubcommandHelp = tap CeHelp (ucSubcommandHelp u)\<rparr>"

definition log_lr :: "'w lifecycle_runner \<Rightarrow> ('w \<times> cli_event list) lifecycle_runner" where
  "log_lr r =
     \<lparr>lrUp = (\<lambda>dir roles. tap (\<lambda>a. CeCall (CallUp dir roles a)) (lrUp r dir roles)),
      lrDown = (\<lambda>dir roles b. tap (\<lambda>a. CeCall (CallDown dir roles b a)) (lrDown r dir roles b)),
      lrStatus = (\<lambda>dir. tap (\<lambda>a. CeCall (CallStatus dir a)) (lrStatus r dir))\<rparr>"

definition log_sr :: "'w secrets_runner \<Rightarrow> ('w \<times> cli_event list) secrets_runner" where
  "log_sr r =
     \<lparr>srList = (\<lambda>dir. tap (\<lambda>a. CeCall (CallList dir a)) (srList r dir)),
      srDescribe = (\<lambda>dir n. tap (\<lambda>a. CeCall (CallDescribe dir n a)) (srDescribe r dir n)),
      srSet = (\<lambda>dir n v. tap (\<lambda>a. CeCall (CallSet dir n v a)) (srSet r dir n v)),
      srUpdate = (\<lambda>dir n v g. tap (\<lambda>a. CeCall (CallUpdate dir n v g a)) (srUpdate r dir n v g)),
      srDelete = (\<lambda>dir n. tap (\<lambda>a. CeCall (CallDelete dir n a)) (srDelete r dir n)),
      srGet = (\<lambda>dir n. tap (\<lambda>a. CeCall (CallGet dir n a)) (srGet r dir n))\<rparr>"

definition log_deps :: "'w cli_deps \<Rightarrow> ('w \<times> cli_event list) cli_deps" where
  "log_deps d =
     \<lparr>dpDoctor = (\<lambda>dir. tap (\<lambda>a. CeCall (CallDoctor dir a)) (dpDoctor d dir)), dpLifecycle = log_lr (dpLifecycle d),
      dpInit = (\<lambda>dir f. tap (\<lambda>a. CeCall (CallInit dir f a)) (dpInit d dir f)), dpSecrets = log_sr (dpSecrets d),
      dpBuild = dpBuild d, dpDefaultDir = dpDefaultDir d, dpLevel = map_option untap (dpLevel d),
      dpStdout = (\<lambda>s. tap (CeOut s) (dpStdout d s)), dpStderr = (\<lambda>s. tap (CeErr s) (dpStderr d s)),
      dpStdin = map_option (tap CeStdin) (dpStdin d), dpPrompt = map_option (\<lambda>f p. tap (CePrompt p) (f p)) (dpPrompt d),
      dpReadFile = (\<lambda>p. tap (CeFile p) (dpReadFile d p)), dpGo = dpGo d, dpPlatform = dpPlatform d\<rparr>"

lemma log_deps_sel [simp]:
  "dpDoctor (log_deps d) dir = tap (\<lambda>a. CeCall (CallDoctor dir a)) (dpDoctor d dir)"
  "lrUp (dpLifecycle (log_deps d)) dir roles = tap (\<lambda>a. CeCall (CallUp dir roles a)) (lrUp (dpLifecycle d) dir roles)"
  "lrDown (dpLifecycle (log_deps d)) dir roles b =
     tap (\<lambda>a. CeCall (CallDown dir roles b a)) (lrDown (dpLifecycle d) dir roles b)"
  "lrStatus (dpLifecycle (log_deps d)) dir = tap (\<lambda>a. CeCall (CallStatus dir a)) (lrStatus (dpLifecycle d) dir)"
  "dpInit (log_deps d) dir f = tap (\<lambda>a. CeCall (CallInit dir f a)) (dpInit d dir f)"
  "srList (dpSecrets (log_deps d)) dir = tap (\<lambda>a. CeCall (CallList dir a)) (srList (dpSecrets d) dir)"
  "srDescribe (dpSecrets (log_deps d)) dir n = tap (\<lambda>a. CeCall (CallDescribe dir n a)) (srDescribe (dpSecrets d) dir n)"
  "srSet (dpSecrets (log_deps d)) dir n v = tap (\<lambda>a. CeCall (CallSet dir n v a)) (srSet (dpSecrets d) dir n v)"
  "srUpdate (dpSecrets (log_deps d)) dir n v g =
     tap (\<lambda>a. CeCall (CallUpdate dir n v g a)) (srUpdate (dpSecrets d) dir n v g)"
  "srDelete (dpSecrets (log_deps d)) dir n = tap (\<lambda>a. CeCall (CallDelete dir n a)) (srDelete (dpSecrets d) dir n)"
  "srGet (dpSecrets (log_deps d)) dir n = tap (\<lambda>a. CeCall (CallGet dir n a)) (srGet (dpSecrets d) dir n)"
  "dpBuild (log_deps d) = dpBuild d" "dpDefaultDir (log_deps d) = dpDefaultDir d"
  "dpLevel (log_deps d) = map_option untap (dpLevel d)"
  "dpStdout (log_deps d) = (\<lambda>s. tap (CeOut s) (dpStdout d s))" "dpStderr (log_deps d) = (\<lambda>s. tap (CeErr s) (dpStderr d s))"
  "dpStdin (log_deps d) = map_option (tap CeStdin) (dpStdin d)"
  "dpPrompt (log_deps d) = map_option (\<lambda>f p. tap (CePrompt p) (f p)) (dpPrompt d)"
  "dpReadFile (log_deps d) p = tap (CeFile p) (dpReadFile d p)"
  "dpGo (log_deps d) = dpGo d" "dpPlatform (log_deps d) = dpPlatform d"
  "ucParse (log_ucli u) dir args = tap CeParsed (ucParse u dir args)"
  "ucAppHelp (log_ucli u) = tap CeHelp (ucAppHelp u)" "ucSubcommandHelp (log_ucli u) = tap CeHelp (ucSubcommandHelp u)"
  by (simp_all add: log_deps_def log_lr_def log_sr_def log_ucli_def)

fun outs :: "cli_event list \<Rightarrow> string list" where
  "outs [] = []"
| "outs (CeOut s _ # es) = s # outs es"
| "outs (_ # es) = outs es"

fun errs :: "cli_event list \<Rightarrow> string list" where
  "errs [] = []"
| "errs (CeErr s _ # es) = s # errs es"
| "errs (_ # es) = errs es"

fun is_call :: "cli_event \<Rightarrow> bool" where
  "is_call (CeCall _) = True"
| "is_call _ = False"

fun written :: "cli_event \<Rightarrow> bool" where
  "written (CeOut _ r) \<longleftrightarrow> r = None"
| "written (CeErr _ r) \<longleftrightarrow> r = None"
| "written _ \<longleftrightarrow> True"

text \<open>The events before the first call, and that call with the events after it.\<close>

fun at_call :: "cli_event list \<Rightarrow> cli_event list \<times> (use_call \<times> cli_event list) option" where
  "at_call [] = ([], None)"
| "at_call (CeCall c # es) = ([], Some (c, es))"
| "at_call (e # es) = (case at_call es of (pre, r) \<Rightarrow> (e # pre, r))"

section \<open>The presentation of an answer\<close>

text \<open>What a renderer prints into a writer that takes everything.\<close>

definition into :: "(string list writer \<Rightarrow> (string list, 'a) io) \<Rightarrow> string list" where
  "into m = snd (run_state (m (\<lambda>s. State (\<lambda>l. (None, l @ [s])))) [])"

definition report_out :: "bool \<Rightarrow> report \<Rightarrow> string list" where
  "report_out js rep = (if js then into (\<lambda>w. renderReportJSON w rep) else into (\<lambda>w. renderReportText w rep))"

definition outcome_out :: "bool \<Rightarrow> string \<Rightarrow> outcome \<Rightarrow> string list" where
  "outcome_out js verb ou =
     (if js then into (\<lambda>w. renderOutcomeJSON w verb ou) else into (\<lambda>w. renderOutcomeText w verb ou))"

text \<open>What an answer says: its error, whether findings in it are shown, and whether it tells of a failure.\<close>

fun left :: "'a + 'b \<Rightarrow> 'a option" where
  "left (Inl e) = Some e"
| "left (Inr _) = None"

fun answer_error :: "use_call \<Rightarrow> go_error option" where
  "answer_error (CallUp _ _ a) = snd a"
| "answer_error (CallDown _ _ _ a) = snd a"
| "answer_error (CallStatus _ a) = snd a"
| "answer_error (CallDoctor _ a) = snd a"
| "answer_error (CallInit _ _ a) = snd a"
| "answer_error (CallList _ a) = left a"
| "answer_error (CallDescribe _ _ a) = left a"
| "answer_error (CallSet _ _ _ a) = left a"
| "answer_error (CallUpdate _ _ _ _ a) = left a"
| "answer_error (CallDelete _ _ a) = left a"
| "answer_error (CallGet _ _ a) = left a"

fun shows_findings :: "use_call \<Rightarrow> bool" where
  "shows_findings (CallDoctor _ _) = False"
| "shows_findings (CallInit _ _ _) = False"
| "shows_findings _ = True"

definition bad_report :: "report \<Rightarrow> go_error option" where
  "bad_report rep = (if Worst rep = Fail then Some (Sentinel ErrChecksFailed) else None)"

definition bad_outcome :: "go_error + outcome \<Rightarrow> go_error option" where
  "bad_outcome a = (case a of Inr ou \<Rightarrow> if outcome_failed ou then Some (Sentinel ErrChecksFailed) else None | _ \<Rightarrow> None)"

fun shortfall :: "use_call \<Rightarrow> go_error option" where
  "shortfall (CallUp _ _ a) = bad_report (fst a)"
| "shortfall (CallDown _ _ _ a) = bad_report (fst a)"
| "shortfall (CallStatus _ a) = bad_report (fst a)"
| "shortfall (CallDoctor _ a) = bad_report (fst a)"
| "shortfall (CallInit _ _ a) = (if init_ok (fst a) then None else Some (Sentinel ErrInitFailed))"
| "shortfall (CallSet _ _ _ a) = bad_outcome a"
| "shortfall (CallUpdate _ _ _ _ a) = bad_outcome a"
| "shortfall (CallDelete _ _ a) = bad_outcome a"
| "shortfall _ = None"

definition verdict :: "use_call \<Rightarrow> go_error option" where
  "verdict call =
     (case answer_error call of
        Some e \<Rightarrow> if shows_findings call \<and> as_findings e \<noteq> None then Some (Sentinel ErrChecksFailed) else Some e
      | None \<Rightarrow> shortfall call)"

definition on_right :: "('b \<Rightarrow> string list) \<Rightarrow> 'a + 'b \<Rightarrow> string list" where
  "on_right f a = (case a of Inl _ \<Rightarrow> [] | Inr x \<Rightarrow> f x)"

fun presented :: "bool \<Rightarrow> use_call \<Rightarrow> string list" where
  "presented js (CallUp _ _ a) = report_out js (fst a)"
| "presented js (CallDown _ _ _ a) = report_out js (fst a)"
| "presented js (CallStatus _ a) = report_out js (fst a)"
| "presented js (CallDoctor _ a) = report_out js (fst a)"
| "presented js (CallInit _ _ a) =
     (if js then into (\<lambda>w. renderInitJSON w (fst a)) else into (\<lambda>w. renderInitText w (fst a)))"
| "presented js (CallList _ a) =
     on_right (\<lambda>rows. if js then into (\<lambda>w. renderListJSON w rows) else into (\<lambda>w. renderListText w rows)) a"
| "presented js (CallDescribe _ _ a) =
     on_right (\<lambda>d. if js then into (\<lambda>w. renderDetailJSON w d) else into (\<lambda>w. renderDetailText w d)) a"
| "presented js (CallSet _ _ _ a) = on_right (outcome_out js ''set'') a"
| "presented js (CallUpdate _ _ _ _ a) = on_right (outcome_out js ''updated'') a"
| "presented js (CallDelete _ _ a) = on_right (outcome_out js ''deleted'') a"
| "presented js (CallGet _ _ a) = on_right (\<lambda>v. [v]) a"

definition stdout_of :: "bool \<Rightarrow> use_call \<Rightarrow> string list" where
  "stdout_of js call =
     (case answer_error call of
        None \<Rightarrow> presented js call
      | Some e \<Rightarrow>
          (case as_findings e of
             Some fs \<Rightarrow> if shows_findings call then report_out js (findingsToChecks fs) else []
           | None \<Rightarrow> []))"

definition outcome_warning :: "go_error + outcome \<Rightarrow> string list" where
  "outcome_warning a = on_right (\<lambda>ou. if ouWarning ou = [] then [] else [warning_line (ouWarning ou)]) a"

text \<open>The warnings; \<open>np\<close> says that there is no prompt.\<close>

fun stderr_of :: "bool \<Rightarrow> use_call \<Rightarrow> string list" where
  "stderr_of np (CallSet _ _ _ a) = outcome_warning a"
| "stderr_of np (CallUpdate _ _ _ _ a) = outcome_warning a"
| "stderr_of np (CallDelete _ _ a) = outcome_warning a"
| "stderr_of np (CallInit _ _ a) =
     (if snd a = None \<and> koState (irKeychain (fst a)) = KeychainCreated \<and> np
      then [warning_line empty_password_warning] else [])"
| "stderr_of np _ = []"

section \<open>The mistakes of a command\<close>

text \<open>
  What each command may refuse, in the order in which it looks: the zones, the name or the
  stray argument, the flags that do not go together, the scaffold directory, the value. The
  two flags say that there is no prompt and no standard input.
\<close>

definition name_mistake :: "cli_cmd \<Rightarrow> go_error option" where
  "name_mistake c =
     (if cdArgs c = [] then Some (Plain ''missing secret name'')
      else if length (cdArgs c) > 1 then Some (unexpected (cdArgs c ! 1)) else None)"

definition stray_mistake :: "cli_cmd \<Rightarrow> go_error option" where
  "stray_mistake c = (if cdArgs c \<noteq> [] then Some (unexpected (hd (cdArgs c))) else None)"

definition group_mistake :: "cli_cmd \<Rightarrow> go_error option" where
  "group_mistake c = (if cdArgs c \<noteq> [] then Some (unknown_command (hd (cdArgs c))) else None)"

definition dir_mistake :: "cli_cmd \<Rightarrow> go_error option" where
  "dir_mistake c =
     (if cdDir c = [] then Some (Plain ''no scaffold directory: pass --dir or set LCLAW_DIR'') else None)"

definition value_mistake :: "bool \<Rightarrow> bool \<Rightarrow> cli_cmd \<Rightarrow> go_error option" where
  "value_mistake np ns c =
     (if cdFromFile c = [] \<and> np \<and> ns
      then Some (Plain ''no value: pass --from-file or pipe the value on stdin'') else None)"

definition only_if :: "bool \<Rightarrow> 'a option \<Rightarrow> 'a option" where
  "only_if b x = (if b then x else None)"

fun mistakes :: "bool \<Rightarrow> bool \<Rightarrow> command_name \<Rightarrow> cli_cmd \<Rightarrow> go_error option list" where
  "mistakes np ns CmdUp c = [left (SelectRoles (cdArgs c)), dir_mistake c]"
| "mistakes np ns CmdDown c =
     [left (SelectRoles (cdArgs c)), only_if (cdDestroy c \<and> cdArgs c \<noteq> []) (Some destroy_mistake), dir_mistake c]"
| "mistakes np ns CmdStatus c = [stray_mistake c, dir_mistake c]"
| "mistakes np ns CmdList c = [stray_mistake c, dir_mistake c]"
| "mistakes np ns CmdDoctor c = [dir_mistake c]"
| "mistakes np ns CmdInit c = [dir_mistake c]"
| "mistakes np ns CmdSet c = [name_mistake c, dir_mistake c, value_mistake np ns c]"
| "mistakes np ns CmdUpdate c =
     [name_mistake c, dir_mistake c, only_if (cdGenerate c \<and> cdFromFile c \<noteq> []) (Some generate_mistake),
      only_if (\<not> cdGenerate c) (value_mistake np ns c)]"
| "mistakes np ns CmdVersion c = []"
| "mistakes np ns CmdRoot c = [group_mistake c]"
| "mistakes np ns CmdSecrets c = [group_mistake c]"
| "mistakes np ns _ c = [name_mistake c, dir_mistake c]"

fun first_some :: "'a option list \<Rightarrow> 'a option" where
  "first_some [] = None"
| "first_some (x # xs) = (case x of None \<Rightarrow> first_some xs | Some e \<Rightarrow> Some e)"

definition mistake :: "bool \<Rightarrow> bool \<Rightarrow> command_name \<Rightarrow> cli_cmd \<Rightarrow> go_error option" where
  "mistake np ns name c = first_some (mistakes np ns name c)"

text \<open>A mistake is told on standard error, and nothing else happens.\<close>

definition told :: "go_error \<Rightarrow> go_error option \<Rightarrow> cli_event list \<Rightarrow> bool" where
  "told e r es \<longleftrightarrow> r = Some (UsageError e) \<and> (\<exists>x. es = [CeErr (usage_text e) x])"

section \<open>The courses of a command\<close>

text \<open>
  The input of \<open>set\<close> and \<open>update\<close>: the file that is named, else the prompt for the value of
  that name, else standard input.
\<close>

definition input_asked :: "bool \<Rightarrow> cli_cmd \<Rightarrow> cli_event \<Rightarrow> bool" where
  "input_asked np c e \<longleftrightarrow>
     (case e of
        CeFile p _ \<Rightarrow> p = cdFromFile c \<and> p \<noteq> []
      | CePrompt p _ \<Rightarrow> cdFromFile c = [] \<and> \<not> np \<and> p = ''value for '' @ hd (cdArgs c) @ '': ''
      | CeStdin _ \<Rightarrow> cdFromFile c = [] \<and> np
      | _ \<Rightarrow> False)"

definition value_read :: "bool \<Rightarrow> cli_cmd \<Rightarrow> cli_event list \<Rightarrow> string \<Rightarrow> bool" where
  "value_read np c pre v \<longleftrightarrow>
     (\<exists>e. pre = [e] \<and> input_asked np c e \<and>
        (case e of
           CeFile _ (Inr b) \<Rightarrow> v = trimNewline b
         | CePrompt _ (Inr b) \<Rightarrow> v = b
         | CeStdin (Inr b) \<Rightarrow> v = trimNewline b
         | _ \<Rightarrow> False))"

text \<open>Without a mistake and without a call: the command needs a value, and its input failed.\<close>

definition unread :: "bool \<Rightarrow> command_name \<Rightarrow> cli_cmd \<Rightarrow> go_error option \<Rightarrow> cli_event list \<Rightarrow> bool" where
  "unread np name c r pre \<longleftrightarrow>
     (name = CmdSet \<or> name = CmdUpdate \<and> \<not> cdGenerate c) \<and>
     (\<exists>e. pre = [e] \<and> input_asked np c e \<and>
        (case e of
           CeFile _ (Inl err) \<Rightarrow> r = Some (Wrapf ''read --from-file: '' err [])
         | CePrompt _ (Inl err) \<Rightarrow> r = Some (Wrapf ''prompt for value: '' err [])
         | CeStdin (Inl err) \<Rightarrow> r = Some (Wrapf ''read stdin: '' err [])
         | _ \<Rightarrow> False))"

definition named :: "cli_cmd \<Rightarrow> string \<Rightarrow> string \<Rightarrow> bool" where
  "named c dir n \<longleftrightarrow> dir = cdDir c \<and> dir \<noteq> [] \<and> cdArgs c = [n]"

text \<open>The call a command may make, after the inputs \<open>pre\<close>.\<close>

definition legal :: "bool \<Rightarrow> command_name \<Rightarrow> cli_cmd \<Rightarrow> cli_event list \<Rightarrow> use_call \<Rightarrow> bool" where
  "legal np name c pre call \<longleftrightarrow>
     (case call of
        CallUp dir roles _ \<Rightarrow>
          name = CmdUp \<and> pre = [] \<and> dir = cdDir c \<and> dir \<noteq> [] \<and> SelectRoles (cdArgs c) = Inr roles
      | CallDown dir roles b _ \<Rightarrow>
          name = CmdDown \<and> pre = [] \<and> dir = cdDir c \<and> dir \<noteq> [] \<and> SelectRoles (cdArgs c) = Inr roles \<and>
          b = cdDestroy c \<and> (b \<longrightarrow> cdArgs c = [])
      | CallStatus dir _ \<Rightarrow> name = CmdStatus \<and> pre = [] \<and> dir = cdDir c \<and> dir \<noteq> [] \<and> cdArgs c = []
      | CallDoctor dir _ \<Rightarrow> name = CmdDoctor \<and> pre = [] \<and> dir = cdDir c \<and> dir \<noteq> []
      | CallInit dir f _ \<Rightarrow> name = CmdInit \<and> pre = [] \<and> dir = cdDir c \<and> dir \<noteq> [] \<and> f = cdForce c
      | CallList dir _ \<Rightarrow> name = CmdList \<and> pre = [] \<and> dir = cdDir c \<and> dir \<noteq> [] \<and> cdArgs c = []
      | CallDescribe dir n _ \<Rightarrow> name = CmdDescribe \<and> pre = [] \<and> named c dir n
      | CallSet dir n v _ \<Rightarrow> name = CmdSet \<and> named c dir n \<and> value_read np c pre v
      | CallUpdate dir n v g _ \<Rightarrow>
          name = CmdUpdate \<and> named c dir n \<and> g = cdGenerate c \<and>
          (if g then pre = [] \<and> v = [] \<and> cdFromFile c = [] else value_read np c pre v)
      | CallDelete dir n _ \<Rightarrow> name = CmdDelete \<and> pre = [] \<and> named c dir n
      | CallGet dir n _ \<Rightarrow> name = CmdGet \<and> pre = [] \<and> named c dir n)"

text \<open>
  After the call: its answer on standard output and its warnings on standard error, and the
  verdict, unless a write failed.
\<close>

definition answered :: "bool \<Rightarrow> cli_cmd \<Rightarrow> use_call \<Rightarrow> go_error option \<Rightarrow> cli_event list \<Rightarrow> bool" where
  "answered np c call r es \<longleftrightarrow>
     \<not> list_ex is_call es \<and> outs es = stdout_of (jsonOutput c) call \<and>
     (r = verdict call \<and> errs es = stderr_of np call \<or> (\<exists>s e. CeOut s (Some e) \<in> set es \<and> r = Some e))"

text \<open>
  A run of a command with a use case: its first mistake is told; without one it makes one
  legal call and presents the answer, or its input could not be read.
\<close>

definition course ::
  "bool \<Rightarrow> bool \<Rightarrow> command_name \<Rightarrow> cli_cmd \<Rightarrow> go_error option \<Rightarrow> cli_event list \<Rightarrow> bool" where
  "course np ns name c r es \<longleftrightarrow>
     (case mistake np ns name c of
        Some e \<Rightarrow> told e r es
      | None \<Rightarrow>
          (case at_call es of
             (pre, None) \<Rightarrow> unread np name c r pre
           | (pre, Some (call, post)) \<Rightarrow> legal np name c pre call \<and> answered np c call r post))"

section \<open>Every command keeps to its courses\<close>

definition outs_log :: "string list \<Rightarrow> go_error option list \<Rightarrow> cli_event list" where
  "outs_log ss xs = map2 CeOut ss xs"

lemma outs_log_facts:
  "length xs = length ss \<Longrightarrow> outs (outs_log ss xs) = ss" "errs (outs_log ss xs) = []"
  "\<not> list_ex is_call (outs_log ss xs)"
  by (induction ss xs rule: list_induct2') (auto simp: outs_log_def)

lemma outs_append [simp]: "outs (es @ fs) = outs es @ outs fs" "errs (es @ fs) = errs es @ errs fs"
  by (induction es rule: outs.induct, auto)

lemma emits_print_all:
  "emits (\<lambda>_ es. \<exists>xs. length xs = length ss \<and> es = outs_log ss xs) (print_all (\<lambda>s. tap (CeOut s) (w s)) ss)"
proof (induction ss)
  case (Cons s ss)
  show ?case
    unfolding print_all.simps fprint_def bind_assoc
    by (intro emits_rules emits_conseq [OF Cons])
      (auto simp: outs_log_def intro: exI [of _ "_ # _"])
qed (auto intro!: emits_ret simp: outs_log_def)

lemma emits_bind_print [emits_rules]:
  "(\<And>xs. length xs = length ss \<Longrightarrow> emits (\<lambda>b fs. P b (outs_log ss xs @ fs)) (f ())) \<Longrightarrow>
    emits P (State_Monad.bind (print_all (\<lambda>s. tap (CeOut s) (w s)) ss) f)"
  by (rule emits_bind [OF emits_print_all]) auto

lemma emits_bind_warn:
  "(\<And>x. b \<Longrightarrow> emits (\<lambda>r fs. P r (CeErr s x # fs)) (f ())) \<Longrightarrow> (\<not> b \<Longrightarrow> emits P (f ())) \<Longrightarrow>
    emits P (State_Monad.bind (if b then fprint (\<lambda>s. tap (CeErr s) (w s)) s else ret ()) f)"
  by (cases b) (auto simp: fprint_def intro!: emits_rules)

lemma into_print_all: "into (\<lambda>w. print_all w ss) = ss"
proof -
  have "snd (run_state (print_all (\<lambda>s. State (\<lambda>l. (None, l @ [s]))) ss) l) = l @ ss" for l
    by (induction ss arbitrary: l) (simp_all add: fprint_def State_Monad.return_def)
  then show ?thesis by (simp add: into_def)
qed

declare print_all.simps [simp del]

lemma into_json [simp]: "into (\<lambda>w. json_encode w v) = [json_indent [] v @ [newline]]"
  by (simp add: into_def json_encode_def)

text \<open>Every renderer of text prints some lines.\<close>

lemma renderReportText_print:
  "renderReportText w r = print_all w (concat (map (check_lines (report_width 0 r)) r) @ [report_counts r])"
  by (simp add: renderReportText_def Let_def)

lemma renderListText_print:
  "renderListText w rows =
     print_all w (concat (map (row_chunks (table_widths (list_table rows))) (list_table rows)))"
  by (simp add: renderListText_def writeTable_def list_table_def Let_def)

lemmas prints_text = renderReportText_print renderListText_print renderDetailText_def renderOutcomeText_def renderInitText_def
lemmas prints_json = renderReportJSON_def renderListJSON_def renderDetailJSON_def renderOutcomeJSON_def renderInitJSON_def

lemmas refusals = refuse_def onUsageError_def usage_def fprint_def bind_assoc

lemma emits_renderLifecycle:
  assumes "\<And>es r. outs es = report_out (jsonOutput c) rep \<Longrightarrow> errs es = [] \<Longrightarrow> \<not> list_ex is_call es \<Longrightarrow>
      r = bad_report rep \<or> (\<exists>s e. CeOut s (Some e) \<in> set es \<and> r = Some e) \<Longrightarrow> P r es"
  shows "emits P (renderLifecycle (log_deps d) c rep)"
  unfolding renderLifecycle_def show_report_def render_then_def prints_text prints_json json_encode_def log_deps_sel
  by (intro emits_rules emits_ret assms)
    (auto simp: report_out_def prints_text prints_json into_print_all bad_report_def outs_log_facts)

lemma emits_reportFindings:
  assumes "answer_error call = Some e" and "shows_findings call" and "stderr_of np call = []"
  shows "emits (answered np c call) (reportFindings (log_deps d) c e)"
  unfolding reportFindings_def show_report_def render_then_def prints_text prints_json json_encode_def log_deps_sel
  by (intro emits_rules emits_ret)
    (auto simp: assms answered_def verdict_def stdout_of_def report_out_def prints_text prints_json into_print_all
      outs_log_facts)

lemma emits_report_result:
  assumes "answer_error call = snd a" and "shows_findings call" and "stderr_of np call = []"
    and "shortfall call = bad_report (fst a)" and "\<And>js. presented js call = report_out js (fst a)"
  shows "emits (answered np c call) (report_result (log_deps d) c a)"
proof (cases "snd a")
  case None
  then show ?thesis
    unfolding report_result_def
    by (intro emits_rules emits_renderLifecycle) (auto simp: answered_def stdout_of_def verdict_def assms)
next
  case (Some e)
  then show ?thesis
    unfolding report_result_def using assms by (intro emits_rules emits_reportFindings) auto
qed

lemma emits_outcome_result:
  assumes "answer_error call = left a" and "shows_findings call" and "stderr_of np call = outcome_warning a"
    and "shortfall call = bad_outcome a" and "\<And>js. presented js call = on_right (outcome_out js verb) a"
  shows "emits (answered np c call) (outcome_result (log_deps d) c verb a)"
proof (cases a)
  case (Inl e)
  then show ?thesis
    using assms by (simp add: outcome_result_def outcome_warning_def on_right_def emits_reportFindings)
next
  case (Inr ou)
  have "emits (answered np c call) (renderOutcome (log_deps d) c verb ou)"
    unfolding renderOutcome_def render_then_def prints_text prints_json json_encode_def log_deps_sel
    by (intro emits_bind_warn emits_rules emits_ret)
      (auto simp: assms Inr answered_def verdict_def stdout_of_def outcome_out_def prints_text prints_json
        into_print_all outs_log_facts on_right_def outcome_warning_def bad_outcome_def)
  then show ?thesis by (simp add: outcome_result_def Inr)
qed

section \<open>The courses of every command\<close>

lemmas mistake_simps = mistake_def stray_mistake_def group_mistake_def dir_mistake_def name_mistake_def
  value_mistake_def only_if_def

lemmas course_simps = course_def told_def legal_def named_def mistake_simps

lemma emits_after_call:
  assumes "\<And>a. legal np name c pre (k a)" and "\<And>a. emits (answered np c (k a)) (f a)"
    and "at_call pre = (pre, None)" and "mistake np ns name c = None"
  shows "emits (\<lambda>r es. course np ns name c r (pre @ es)) (State_Monad.bind (tap (\<lambda>a. CeCall (k a)) m) f)"
proof -
  have "at_call (pre @ CeCall call # es) = (pre, Some (call, es))" for call es
    using assms(3) by (induction pre rule: at_call.induct) (auto split: prod.splits)
  then show ?thesis
    by (intro emits_rules emits_conseq [OF assms(2)]) (simp add: course_def assms(1,4))
qed

lemma emits_first_call:
  assumes "\<And>a. legal np name c [] (k a)" and "\<And>a. emits (answered np c (k a)) (f a)" and "mistake np ns name c = None"
  shows "emits (course np ns name c) (State_Monad.bind (tap (\<lambda>a. CeCall (k a)) m) f)"
  using emits_after_call [of np name c "[]" k f ns m] assms by simp

lemmas up_to_call = or_return_def zoneArgs_def scaffoldDir_def nameArg_def no_args_def refusals log_deps_sel

lemma emits_upAction: "emits (course np ns CmdUp c) (upAction (log_deps d) c)"
  unfolding upAction_def up_to_call
  by (intro emits_rules emits_ret emits_first_call emits_report_result) (auto simp: course_simps)

lemma emits_downAction: "emits (course np ns CmdDown c) (downAction (log_deps d) c)"
  unfolding downAction_def up_to_call
  by (intro emits_rules emits_ret emits_first_call emits_report_result) (auto simp: course_simps)

lemma emits_case_list [emits_rules]:
  "(xs = [] \<Longrightarrow> emits P m) \<Longrightarrow> (\<And>y ys. xs = y # ys \<Longrightarrow> emits P (f y ys)) \<Longrightarrow>
    emits P (case xs of [] \<Rightarrow> m | y # ys \<Rightarrow> f y ys)"
  by (cases xs) auto

lemma emits_bind_case_list [emits_rules]:
  "(xs = [] \<Longrightarrow> emits P (State_Monad.bind m k)) \<Longrightarrow>
    (\<And>y ys. xs = y # ys \<Longrightarrow> emits P (State_Monad.bind (f y ys) k)) \<Longrightarrow>
    emits P (State_Monad.bind (case xs of [] \<Rightarrow> m | y # ys \<Rightarrow> f y ys) k)"
  by (cases xs) auto

lemma emits_statusAction: "emits (course np ns CmdStatus c) (statusAction (log_deps d) c)"
  unfolding statusAction_def up_to_call
  by (intro emits_rules emits_ret emits_first_call emits_report_result) (auto simp: course_simps)

lemma emits_doctor_result:
  "emits (answered np c (CallDoctor dir a))
     (case a of (rep, None) \<Rightarrow> renderLifecycle (log_deps d) c rep | (rep, Some err) \<Rightarrow> ret (Some err))"
  by (intro emits_rules emits_ret emits_renderLifecycle)
    (auto simp: answered_def stdout_of_def verdict_def split: option.split)

lemma emits_doctorAction: "emits (course np ns CmdDoctor c) (doctorAction (log_deps d) c)"
  unfolding doctorAction_def up_to_call
  by (intro emits_rules emits_ret emits_first_call emits_doctor_result) (auto simp: course_simps)

lemma emits_list_result:
  "emits (answered np c (CallList dir a))
     (case a of Inl err \<Rightarrow> reportFindings (log_deps d) c err
      | Inr rows \<Rightarrow> render_then c (renderListJSON (dpStdout (log_deps d)) rows)
          (renderListText (dpStdout (log_deps d)) rows) (ret None))"
  unfolding render_then_def prints_text prints_json json_encode_def log_deps_sel
  by (intro emits_rules emits_ret emits_reportFindings)
    (auto simp: answered_def stdout_of_def verdict_def on_right_def prints_text prints_json into_print_all outs_log_facts)

lemma emits_describe_result:
  "emits (answered np c (CallDescribe dir n a))
     (case a of Inl err \<Rightarrow> reportFindings (log_deps d) c err
      | Inr detail \<Rightarrow> render_then c (renderDetailJSON (dpStdout (log_deps d)) detail)
          (renderDetailText (dpStdout (log_deps d)) detail) (ret None))"
  unfolding render_then_def prints_text prints_json json_encode_def log_deps_sel
  by (intro emits_rules emits_ret emits_reportFindings)
    (auto simp: answered_def stdout_of_def verdict_def on_right_def prints_text prints_json into_print_all outs_log_facts)

lemma no_Some: "(\<forall>e. Some e \<noteq> x) \<longleftrightarrow> x = None"
  by (metis option.exhaust option.distinct(1))

lemma emits_get_result:
  "emits (answered np c (CallGet dir n a))
     (case a of Inl err \<Rightarrow> reportFindings (log_deps d) c err | Inr value \<Rightarrow> dpStdout (log_deps d) value)"
  unfolding log_deps_sel
  by (intro emits_rules emits_ret emits_tap emits_reportFindings)
    (auto simp: answered_def stdout_of_def verdict_def on_right_def no_Some)

lemma emits_init_result:
  "emits (answered (dpPrompt d = None) c (CallInit dir f a))
     (case a of
        (rep, None) \<Rightarrow>
           render_then c (renderInitJSON (dpStdout (log_deps d)) rep) (renderInitText (dpStdout (log_deps d)) rep) (do {
             _ \<leftarrow> (if koState (irKeychain rep) = KeychainCreated \<and> dpPrompt (log_deps d) = None
                   then fprint (dpStderr (log_deps d)) (warning_line empty_password_warning) else ret ());
             ret (if \<not> init_ok rep then Some (Sentinel ErrInitFailed) else None)
           })
      | (_, Some err) \<Rightarrow> ret (Some err))"
  unfolding render_then_def prints_text prints_json json_encode_def log_deps_sel
  by (intro emits_bind_warn emits_rules emits_ret)
    (auto simp: answered_def stdout_of_def verdict_def prints_text prints_json into_print_all outs_log_facts
      split: option.split)

lemmas emits_results = emits_report_result emits_outcome_result emits_doctor_result
  emits_list_result [unfolded log_deps_sel] emits_describe_result [unfolded log_deps_sel]
  emits_get_result [unfolded log_deps_sel] emits_init_result [unfolded log_deps_sel fprint_def bind_assoc]

lemma emits_listAction: "emits (course np ns CmdList c) (listAction (log_deps d) c)"
  unfolding listAction_def up_to_call
  by (intro emits_results emits_first_call emits_rules emits_ret) (auto simp: course_simps)

lemma emits_describeAction: "emits (course np ns CmdDescribe c) (describeAction (log_deps d) c)"
  unfolding describeAction_def up_to_call
  by (intro emits_results emits_first_call emits_rules emits_ret) (auto simp: course_simps)

lemma emits_getAction: "emits (course np ns CmdGet c) (getAction (log_deps d) c)"
  unfolding getAction_def up_to_call
  by (intro emits_results emits_first_call emits_rules emits_ret) (auto simp: course_simps)

lemma emits_deleteAction: "emits (course np ns CmdDelete c) (deleteAction (log_deps d) c)"
  unfolding deleteAction_def up_to_call
  by (intro emits_results emits_first_call emits_rules emits_ret) (auto simp: course_simps)

lemma emits_initAction: "emits (course (dpPrompt d = None) ns CmdInit c) (initAction (log_deps d) c)"
  unfolding initAction_def up_to_call
  by (intro emits_results emits_first_call emits_rules emits_ret) (auto simp: course_simps)

text \<open>
  A value is read by at most one input; a mistake or a failed input ends the command.
\<close>

lemma emits_readValue:
  assumes "\<And>e es. value_mistake (dpPrompt d = None) (dpStdin d = None) c = Some e \<Longrightarrow> told e (Some (UsageError e)) es \<Longrightarrow>
      P (Some (UsageError e)) es"
    and "\<And>e es. value_mistake (dpPrompt d = None) (dpStdin d = None) c = None \<Longrightarrow>
      unread (dpPrompt d = None) CmdSet c (Some e) es \<Longrightarrow> at_call es = (es, None) \<Longrightarrow> P (Some e) es"
    and "\<And>es v. value_mistake (dpPrompt d = None) (dpStdin d = None) c = None \<Longrightarrow> value_read (dpPrompt d = None) c es v \<Longrightarrow>
      at_call es = (es, None) \<Longrightarrow> emits (\<lambda>r fs. P r (es @ fs)) (f v)"
    and "name = hd (cdArgs c)"
  shows "emits P (State_Monad.bind (readValue (log_deps d) c name)
     (\<lambda>r. case r of Inl err \<Rightarrow> ret (Some err) | Inr x \<Rightarrow> f x))"
proof -
  have "emits (\<lambda>r es.
      case value_mistake (dpPrompt d = None) (dpStdin d = None) c of
        Some e \<Rightarrow> r = Inl (UsageError e) \<and> told e (Some (UsageError e)) es
      | None \<Rightarrow> at_call es = (es, None) \<and>
          (case r of Inl e \<Rightarrow> unread (dpPrompt d = None) CmdSet c (Some e) es
           | Inr v \<Rightarrow> value_read (dpPrompt d = None) c es v))
     (readValue (log_deps d) c name)"
    unfolding readValue_def refusals log_deps_sel
    by (cases "dpPrompt d"; cases "dpStdin d")
      (auto intro!: emits_rules emits_ret simp: told_def unread_def value_read_def input_asked_def value_mistake_def
        assms(4) split: sum.split)
  then show ?thesis
    by (rule emits_bind) (auto intro!: emits_rules emits_ret intro: assms(1-3) split: sum.splits option.splits)
qed

lemma emits_setAction: "emits (course (dpPrompt d = None) (dpStdin d = None) CmdSet c) (setAction (log_deps d) c)"
  unfolding setAction_def or_return_def scaffoldDir_def nameArg_def refusals
  unfolding log_deps_sel
  by (intro emits_readValue emits_results emits_after_call emits_rules emits_ret) (auto simp: course_simps unread_def)

lemma emits_updateAction: "emits (course (dpPrompt d = None) (dpStdin d = None) CmdUpdate c) (updateAction (log_deps d) c)"
  unfolding updateAction_def or_return_def scaffoldDir_def nameArg_def refusals
  unfolding log_deps_sel
  by (intro emits_readValue emits_first_call emits_results emits_after_call emits_rules emits_ret)
    (auto simp: course_simps unread_def)

section \<open>A whole run\<close>

text \<open>The courses of every command, those without a use case too.\<close>

definition command_course :: "'w cli_deps \<Rightarrow> command_name \<Rightarrow> cli_cmd \<Rightarrow> go_error option \<Rightarrow> cli_event list \<Rightarrow> bool" where
  "command_course d name c r es \<longleftrightarrow>
     (if name = CmdVersion
      then es = [CeOut (if jsonOutput c then json_indent [] (version_dto d) @ [newline] else version_text d) r]
      else if name \<in> {CmdRoot, CmdSecrets}
      then (case group_mistake c of None \<Rightarrow> es = [CeHelp r] | Some e \<Rightarrow> told e r es)
      else course (dpPrompt d = None) (dpStdin d = None) name c r es)"

text \<open>The run of the root command: what the library found, then the course.\<close>

definition root_course :: "'w cli_deps \<Rightarrow> go_error option \<Rightarrow> cli_event list \<Rightarrow> bool" where
  "root_course d r es \<longleftrightarrow>
     (case es of
        CeParsed (BadFlags e) # fs \<Rightarrow> told e r fs
      | CeParsed (Served err) # fs \<Rightarrow> r = err \<and> fs = []
      | CeParsed (Selected name c) # fs \<Rightarrow>
          if cdOutput c \<notin> {''text'', ''json''} then told (output_mistake (cdOutput c)) r fs
          else command_course d name c r fs
      | _ \<Rightarrow> False)"

text \<open>
  The exit status an error deserves, and the last line on standard error: an interruption
  is told, an error already reported is not told again, any other is.
\<close>

definition interrupted :: "go_error \<Rightarrow> bool" where
  "interrupted e \<longleftrightarrow> errors_is e CtxCanceled \<and> \<not> as_usage e"

definition told_already :: "go_error \<Rightarrow> bool" where
  "told_already e \<longleftrightarrow> as_usage e \<or> errors_is e ErrChecksFailed \<or> errors_is e ErrInitFailed"

definition status_course :: "go_error option \<Rightarrow> int \<Rightarrow> bool" where
  "status_course r code \<longleftrightarrow>
     code \<in> {0, 1, 2, 130} \<and> (code = 0 \<longleftrightarrow> r = None) \<and>
     (code = 130 \<longleftrightarrow> (\<exists>e. r = Some e \<and> interrupted e)) \<and>
     (code = 2 \<longleftrightarrow>
        (\<exists>e. r = Some e \<and> \<not> interrupted e \<and>
           (as_usage e \<or> (\<exists>s \<in> {ErrUnknownSecret, ErrInvalidValue, ErrNotGeneratable, ErrMinterUnavailable}. errors_is e s))))"

lemma status_course_ExitCode: "status_course r (ExitCode r)"
  by (cases r) (auto simp: status_course_def ExitCode_def interrupted_def)

definition last_words :: "go_error option \<Rightarrow> string list" where
  "last_words r =
     (case r of
        None \<Rightarrow> []
      | Some e \<Rightarrow>
          if interrupted e then [''lclaw: interrupted'' @ [newline]]
          else if told_already e then [] else [error_line e])"

definition run_course :: "'w cli_deps \<Rightarrow> int \<Rightarrow> cli_event list \<Rightarrow> bool" where
  "run_course d code es \<longleftrightarrow>
     (\<exists>r es1 es2. es = es1 @ es2 \<and> root_course d r es1 \<and> status_course r code \<and>
        list_all (\<lambda>e. \<exists>s x. e = CeErr s x) es2 \<and> errs es2 = last_words r)"

lemma emits_action:
  "emits (command_course d name c) (action (log_ucli u) (log_deps d) name c)"
proof (cases "name \<in> {CmdRoot, CmdSecrets, CmdVersion}")
  case True
  then have "emits (command_course d name c) (groupAction (tap CeHelp h) (log_deps d) c)" if "name \<noteq> CmdVersion" for h
    using that unfolding groupAction_def refusals log_deps_sel
    by (intro emits_rules emits_tap emits_ret) (auto simp: command_course_def told_def group_mistake_def)
  moreover have "emits (command_course d CmdVersion c) (versionAction (log_deps d) c)"
    unfolding versionAction_def json_encode_def version_dto_def version_text_def log_deps_sel
    by (intro emits_rules emits_tap) (auto simp: command_course_def version_dto_def version_text_def)
  ultimately show ?thesis using True by auto
next
  case False
  then have "command_course d name c = course (dpPrompt d = None) (dpStdin d = None) name c"
    by (auto simp: command_course_def fun_eq_iff)
  then show ?thesis
    using False emits_upAction emits_downAction emits_statusAction emits_doctorAction emits_initAction emits_listAction
      emits_describeAction emits_setAction emits_updateAction emits_deleteAction emits_getAction
    by (cases name) simp_all
qed

lemma emits_bind_before:
  assumes "cdOutput c \<notin> {''text'', ''json''} \<Longrightarrow>
      (\<And>x. P (Some (UsageError (output_mistake (cdOutput c)))) [CeErr (usage_text (output_mistake (cdOutput c))) x])"
    and "cdOutput c \<in> {''text'', ''json''} \<Longrightarrow> emits P k"
  shows "emits P (State_Monad.bind (before (log_deps d) c)
     (\<lambda>err. case err of None \<Rightarrow> k | Some e \<Rightarrow> ret (Some e)))"
proof -
  have "emits (\<lambda>r es. if cdOutput c \<in> {''text'', ''json''} then r = None \<and> es = []
      else \<exists>x. r = Some (UsageError (output_mistake (cdOutput c))) \<and>
        es = [CeErr (usage_text (output_mistake (cdOutput c))) x]) (before (log_deps d) c)"
    unfolding before_def refusals log_deps_sel
    by (cases "dpLevel d") (auto intro!: emits_rules emits_ret)
  then show ?thesis
    by (rule emits_bind) (auto intro!: emits_ret assms split: if_splits)
qed

lemma emits_case_invocation:
  "(\<And>e. i = BadFlags e \<Longrightarrow> emits P (f e)) \<Longrightarrow> (\<And>r. i = Served r \<Longrightarrow> emits P (g r)) \<Longrightarrow>
    (\<And>n c. i = Selected n c \<Longrightarrow> emits P (h n c)) \<Longrightarrow>
    emits P (case i of BadFlags e \<Rightarrow> f e | Served r \<Rightarrow> g r | Selected n c \<Rightarrow> h n c)"
  by (cases i) auto

lemma emits_RunRoot: "emits (root_course d) (RunRoot (log_ucli u) (log_deps d) args)"
  unfolding RunRoot_def refusals log_deps_sel
  by (intro emits_case_invocation emits_bind_before emits_rules emits_ret emits_conseq [OF emits_action])
    (auto simp: root_course_def told_def)

lemma emits_run_main: "emits (run_course d) (run_main (log_ucli u) (log_deps d) args)"
proof -
  have code: "ExitCode r = 130 \<longleftrightarrow> (\<exists>e. r = Some e \<and> interrupted e)" for r
    using status_course_ExitCode [of r] by (simp add: status_course_def)
  have words: "emits (\<lambda>code es2. code = ExitCode r \<and> list_all (\<lambda>e. \<exists>s x. e = CeErr s x) es2 \<and> errs es2 = last_words r) (do {
      _ \<leftarrow> (if ExitCode r = 130 then fprint (\<lambda>s. tap (CeErr s) (dpStderr d s)) (''lclaw: interrupted'' @ [newline])
           else (case r of
                   Some e \<Rightarrow> if \<not> Silent r then fprint (\<lambda>s. tap (CeErr s) (dpStderr d s)) (error_line e) else ret ()
                 | None \<Rightarrow> ret ()));
      ret (ExitCode r)
    })" for r
    using code [of r]
    by (cases "ExitCode r = 130"; cases r; cases "Silent r")
      (auto simp: last_words_def fprint_def Silent_def told_already_def intro!: emits_rules emits_ret)
  have "run_course d (ExitCode r) (es @ es2)"
    if "root_course d r es" "list_all (\<lambda>e. \<exists>s x. e = CeErr s x) es2" "errs es2 = last_words r" for r es es2
    using that status_course_ExitCode unfolding run_course_def by blast
  then show ?thesis
    unfolding run_main_def log_deps_sel Let_def
    by (intro emits_bind [OF emits_RunRoot] emits_conseq [OF words]) auto
qed

text \<open>
  C13: \<open>lclaw\<close> keeps to its courses. Whatever the library, the streams and the use cases
  answer, a run serves help, or tells on standard error the first mistake in its flags and
  arguments and does nothing else, or, when there is no mistake, makes the one call its
  command and arguments stand for, with the scaffold directory that is set, the zones
  selected and the value read from the file named, the prompt or standard input; only an
  input that cannot be read prevents that call. It then presents the answer on standard
  output, warnings and at most one last line on standard error, and the exit status is
  that of the verdict.
\<close>

theorem lclaw_courses: "emits (run_course d) (run_main (log_ucli u) (log_deps d) args)"
  by (rule emits_run_main)

section \<open>What the exit status tells\<close>

definition succeeded :: "use_call \<Rightarrow> bool" where
  "succeeded call \<longleftrightarrow> answer_error call = None \<and> shortfall call = None"

text \<open>The use case returned an error that the command line would take for its own.\<close>

definition keeps_error :: "use_call \<Rightarrow> bool" where
  "keeps_error call \<longleftrightarrow> (case answer_error call of Some e \<Rightarrow> told_already e | None \<Rightarrow> False)"

text \<open>
  A use case, an input or the library's help answered an error of the kind the command line
  takes as reported already: a usage error, failed checks or a failed init.
\<close>

fun kept_back :: "cli_event \<Rightarrow> bool" where
  "kept_back (CeCall call) \<longleftrightarrow> keeps_error call"
| "kept_back (CeFile _ (Inl e)) \<longleftrightarrow> told_already e"
| "kept_back (CePrompt _ (Inl e)) \<longleftrightarrow> told_already e"
| "kept_back (CeStdin (Inl e)) \<longleftrightarrow> told_already e"
| "kept_back (CeHelp (Some e)) \<longleftrightarrow> told_already e"
| "kept_back (CeParsed (Served (Some e))) \<longleftrightarrow> told_already e"
| "kept_back _ \<longleftrightarrow> False"

text \<open>The mistake of a run, if the library or the command finds one.\<close>

fun run_mistake :: "'w cli_deps \<Rightarrow> invocation \<Rightarrow> go_error option" where
  "run_mistake d (BadFlags e) = Some e"
| "run_mistake d (Served _) = None"
| "run_mistake d (Selected name c) =
     (if cdOutput c \<notin> {''text'', ''json''} then Some (output_mistake (cdOutput c))
      else mistake (dpPrompt d = None) (dpStdin d = None) name c)"

text \<open>
  A status that is not zero is explained on a stream, unless the error that gave it is kept
  back; a mistake is told on standard error alone, with status 2. Zero only when the one
  call succeeded, or no command was needed. With JSON, standard output has at most one
  document.
\<close>

definition tells :: "'w cli_deps \<Rightarrow> int \<Rightarrow> cli_event list \<Rightarrow> bool" where
  "tells d code es \<longleftrightarrow>
     code \<in> {0, 1, 2, 130} \<and>
     (code \<noteq> 0 \<longrightarrow> outs es \<noteq> [] \<or> errs es \<noteq> [] \<or> list_ex kept_back es) \<and>
     (case es of
        CeParsed i # fs \<Rightarrow>
          (case run_mistake d i of
             Some e \<Rightarrow> code = 2 \<and> errs es = [usage_text e] \<and> outs es = [] \<and> \<not> list_ex is_call es
           | None \<Rightarrow> True) \<and>
          (case i of
             Selected name c \<Rightarrow>
               (jsonOutput c \<longrightarrow> length (outs es) \<le> 1) \<and>
               (case at_call fs of
                  (_, Some (call, _)) \<Rightarrow> code = 0 \<longrightarrow> succeeded call
                | (_, None) \<Rightarrow> code = 0 \<longrightarrow> name \<in> {CmdRoot, CmdSecrets, CmdVersion})
           | _ \<Rightarrow> True)
      | _ \<Rightarrow> False)"

lemma at_call_split:
  "at_call es = (pre, Some (call, post)) \<Longrightarrow> es = pre @ CeCall call # post"
  "at_call es = (pre, None) \<Longrightarrow> es = pre"
  by (induction es arbitrary: pre rule: at_call.induct) (auto split: prod.splits)

lemma at_call_append:
  "at_call (es @ fs) =
     (case at_call es of
        (pre, Some (call, post)) \<Rightarrow> (pre, Some (call, post @ fs))
      | (pre, None) \<Rightarrow> (case at_call fs of (pre', r) \<Rightarrow> (pre @ pre', r)))"
  by (induction es rule: at_call.induct) (auto split: prod.splits option.splits)

lemma only_errs:
  "list_all (\<lambda>e. \<exists>s x. e = CeErr s x) es \<Longrightarrow>
    outs es = [] \<and> at_call es = (es, None) \<and> \<not> list_ex is_call es"
  by (induction es) auto

lemma outs_member: "CeOut s x \<in> set es \<Longrightarrow> outs es \<noteq> []"
  by (induction es rule: outs.induct) auto

lemma verdict_None: "verdict call = None \<Longrightarrow> succeeded call"
  by (auto simp: verdict_def succeeded_def split: option.splits if_splits)

lemma report_out_shape: "length (report_out True rep) = 1" "report_out js rep \<noteq> []"
  by (auto simp: report_out_def prints_text prints_json into_print_all)

lemma stdout_of_json: "length (stdout_of True call) \<le> 1"
  by (cases call)
    (auto simp: stdout_of_def on_right_def report_out_shape outcome_out_def prints_json
      split: option.splits sum.splits)

lemma length_table_widths: "length (table_widths rows) = length (hd rows)"
proof -
  have "length (widen ws r) = length ws" for ws r by (induction ws r rule: widen.induct) auto
  then have "length (fold (\<lambda>r ws. widen ws r) rs ws) = length ws" for rs ws by (induction rs arbitrary: ws) auto
  then show ?thesis by (simp add: table_widths_def)
qed

lemma table_shown: "list_table rows \<noteq> [] \<and> row_chunks (table_widths (list_table rows)) (hd (list_table rows)) \<noteq> []"
  using length_table_widths [of "list_table rows"]
  by (cases "table_widths (list_table rows)") (auto simp: list_table_def)

lemma list_text_shown:
  "concat (map (row_chunks (table_widths (list_table rows))) (list_table rows)) \<noteq> []"
  using table_shown [of rows] by (cases "list_table rows") auto

lemma presented_shown: "answer_error call = None \<Longrightarrow> presented js call \<noteq> []"
  by (cases call; cases js)
    (auto simp: on_right_def report_out_shape outcome_out_def prints_json prints_text into_print_all
      detail_lines_def Let_def list_text_shown simp del: concat_eq_Nil_conv split: sum.splits)

lemma value_read_inputs: "value_read np c pre v \<Longrightarrow> outs pre = []"
  unfolding value_read_def by (elim exE conjE) (auto split: cli_event.split_asm)

lemma legal_inputs: "legal np name c pre call \<Longrightarrow> outs pre = []"
  by (auto simp: legal_def value_read_inputs split: use_call.splits if_splits)

lemma last_words_said: "\<not> told_already e \<Longrightarrow> last_words (Some e) \<noteq> []"
  by (simp add: last_words_def)

lemma told_already_Wrapf [simp]: "told_already (Wrapf s e t) = told_already e"
  by (simp add: told_already_def)

lemma last_words_silent: "last_words (Some e) = [] \<Longrightarrow> told_already e"
  using last_words_said by blast

text \<open>An input that could not be read: its error is said, unless it is kept back.\<close>

lemma unread_facts:
  assumes "unread np name c r es"
  shows "outs es = [] \<and> r \<noteq> None \<and> (last_words r \<noteq> [] \<or> list_ex kept_back es)"
  using assms unfolding unread_def
  by (elim exE conjE) (auto dest!: last_words_silent split: cli_event.split_asm sum.split_asm)

lemma told_facts: "told e r es \<Longrightarrow> r = Some (UsageError e) \<and> outs es = [] \<and> errs es = [usage_text e] \<and> at_call es = (es, None)"
  by (auto simp: told_def)

lemma last_words_usage [simp]:
  "last_words (Some (UsageError e)) = []" "status_course (Some (UsageError e)) code \<longleftrightarrow> code = 2"
  by (auto simp: last_words_def status_course_def told_already_def interrupted_def)

text \<open>A failed answer is seen, or its error is.\<close>

lemma answered_seen:
  assumes "answered np c call r post" and "r \<noteq> None"
    and "\<not> keeps_error call"
  shows "outs post \<noteq> [] \<or> last_words r \<noteq> []"
proof (cases "\<exists>s e. CeOut s (Some e) \<in> set post \<and> r = Some e")
  case True
  then show ?thesis using outs_member by blast
next
  case False
  then have o: "outs post = stdout_of (jsonOutput c) call" and r: "r = verdict call"
    using assms(1) by (auto simp: answered_def)
  show ?thesis
  proof (cases "answer_error call")
    case None
    then show ?thesis using o presented_shown [OF None] by (simp add: stdout_of_def)
  next
    case (Some e)
    then show ?thesis
      using o r assms(3) last_words_said [of e]
      by (auto simp: keeps_error_def stdout_of_def verdict_def report_out_shape split: if_splits option.splits)
  qed
qed

lemma told_tells:
  assumes "told e r fs" and "list_all (\<lambda>e. \<exists>s x. e = CeErr s x) es2" and "errs es2 = last_words r"
  shows "r = Some (UsageError e) \<and> errs (fs @ es2) = [usage_text e] \<and> outs (fs @ es2) = [] \<and>
    \<not> list_ex is_call (fs @ es2) \<and> at_call (fs @ es2) = (fs @ es2, None)"
  using told_facts [OF assms(1)] only_errs [OF assms(2)] assms(1,3) by (auto simp: told_def at_call_append)

lemma course_tells:
  assumes "course np ns name c r fs" and "list_all (\<lambda>e. \<exists>s x. e = CeErr s x) es2" and "errs es2 = last_words r"
    and "mistake np ns name c = None"
  shows "(jsonOutput c \<longrightarrow> length (outs (fs @ es2)) \<le> 1) \<and>
    (r \<noteq> None \<longrightarrow> outs (fs @ es2) \<noteq> [] \<or> errs (fs @ es2) \<noteq> [] \<or> list_ex kept_back (fs @ es2)) \<and>
    (case at_call (fs @ es2) of
       (_, Some (call, _)) \<Rightarrow> r = None \<longrightarrow> succeeded call
     | (_, None) \<Rightarrow> r \<noteq> None)"
proof (cases "snd (at_call fs)")
  case None
  then obtain pre where at: "at_call fs = (pre, None)" by (cases "at_call fs") auto
  with assms(1,4) have "unread np name c r pre" "fs = pre"
    using at_call_split(2) by (auto simp: course_def)
  moreover from this have "at_call (fs @ es2) = (pre @ es2, None)"
    using only_errs [OF assms(2)] at by (simp add: at_call_append)
  ultimately show ?thesis
    using unread_facts [of np name c r pre] only_errs [OF assms(2)] assms(3) by auto
next
  case (Some cp)
  then obtain pre call post where at: "at_call fs = (pre, Some (call, post))"
    by (cases "at_call fs") (auto simp: prod_eq_iff)
  with assms(1,4) have leg: "legal np name c pre call" and ans: "answered np c call r post" and fs: "fs = pre @ CeCall call # post"
    using at_call_split(1) by (auto simp: course_def)
  have o: "outs fs = outs post" using legal_inputs [OF leg] by (simp add: fs)
  have "succeeded call" if "r = None" using ans that verdict_None by (auto simp: answered_def)
  moreover have "outs post = stdout_of (jsonOutput c) call" using ans by (simp add: answered_def)
  moreover have "length (outs post) \<le> 1" if "jsonOutput c" using calculation(2) that stdout_of_json by simp
  moreover have "list_ex kept_back fs" if "keeps_error call" using that by (simp add: fs)
  ultimately show ?thesis
    using answered_seen [OF ans] only_errs [OF assms(2)] by (auto simp: at_call_append at o assms(3))
qed

lemma status_facts:
  assumes "status_course r code"
  shows "code \<in> {0, 1, 2, 130}" "code = 0 \<longleftrightarrow> r = None" "r = Some (UsageError e) \<Longrightarrow> code = 2"
  using assms unfolding status_course_def by (blast, blast) (use assms in simp)

text \<open>An error the library answers itself is told, unless it is kept back.\<close>

lemma library_error_tells:
  "r \<noteq> None \<Longrightarrow> errs es2 = last_words r \<Longrightarrow> errs es2 \<noteq> [] \<or> (\<exists>e. r = Some e \<and> told_already e)"
  using last_words_said by auto

lemma run_tells: "run_course d code es \<Longrightarrow> tells d code es"
proof -
  assume "run_course d code es"
  then obtain r es1 es2 where es: "es = es1 @ es2" and root: "root_course d r es1" and code: "status_course r code"
    and e2: "list_all (\<lambda>e. \<exists>s x. e = CeErr s x) es2" "errs es2 = last_words r"
    unfolding run_course_def by blast
  note z = status_facts [OF code] and o2 = only_errs [OF e2(1)]
  obtain i fs where es1: "es1 = CeParsed i # fs"
    using root by (auto simp: root_course_def split: list.splits cli_event.splits)
  show ?thesis
  proof (cases "run_mistake d i")
    case (Some e)
    with root have "told e r fs"
      by (cases i) (auto simp: root_course_def es1 command_course_def course_def mistake_def split: if_splits option.splits)
    note t = told_tells [OF this e2]
    with z have "code = 2" by blast
    then show ?thesis using t Some
      by (cases i) (auto simp: tells_def es es1)
  next
    case no_mistake: None
    show ?thesis
    proof (cases i)
      case (BadFlags e)
      then show ?thesis using no_mistake by simp
    next
      case (Served err)
      with root have "r = err" "fs = []" by (auto simp: root_course_def es1)
      then show ?thesis using z(1,2) library_error_tells [of r es2] e2(2) by (auto simp: tells_def es es1 Served)
    next
      case (Selected name c)
      with no_mistake have own: "mistake (dpPrompt d = None) (dpStdin d = None) name c = None" and
        out: "cdOutput c \<in> {''text'', ''json''}"
        by (auto split: if_splits)
      consider x where "name = CmdVersion" "fs = [CeOut x r]"
        | "name \<in> {CmdRoot, CmdSecrets}" "fs = [CeHelp r]" | "course (dpPrompt d = None) (dpStdin d = None) name c r fs"
        using root own out
        by (auto simp: root_course_def es1 Selected command_course_def mistake_def split: if_splits option.splits)
      then show ?thesis
      proof cases
        case 1
        then show ?thesis using no_mistake o2 z(1,2) by (auto simp: tells_def es es1 Selected)
      next
        case 2
        then show ?thesis
          using no_mistake o2 z(1,2) library_error_tells [of r es2] e2(2) by (auto simp: tells_def es es1 Selected)
      next
        case 3
        then show ?thesis using no_mistake course_tells [OF 3 e2 own] z(1,2)
          by (auto simp: tells_def es es1 Selected split: prod.splits option.splits)
      qed
    qed
  qed
qed

text \<open>
  C14: the exit status tells the truth. It is 0, 1, 2 or 130. 0 is only given when the use
  case ran, returned no error and reported no failure (or the command has no use case). With
  any other status something is written to a stream, except when the error behind it came
  from a use case, an input or the library's help and is of a kind the command line takes as
  reported already (a usage error, failed checks, a failed init). A mistake in the flags or
  arguments is told, alone, on standard error, calls nothing and exits 2; and with JSON at
  most one document is written to standard output.
\<close>

theorem exit_status_tells: "emits (tells d) (run_main (log_ucli u) (log_deps d) args)"
  by (rule emits_conseq [OF emits_run_main run_tells])

end
