(* ===== verification/CliTables.thy ===== *)
theory CliTables
  imports CliProperties
begin

text \<open>
  The table of \<open>lclaw secrets list\<close> can be read back: its columns start at the same offset
  in every line, and what stands in them is the table that was printed.
\<close>

section \<open>Reading columns\<close>

text \<open>A line cut at the widths of its columns, blanks after a cell dropped.\<close>

fun cut_row :: "nat list \<Rightarrow> string \<Rightarrow> string list" where
  "cut_row [] s = []"
| "cut_row [w] s = [s]"
| "cut_row (w # ws) s = trim_right (take w s) # cut_row ws (drop (w + 2) s)"

text \<open>A cell of single-byte characters without a line break, not ending in white space.\<close>

definition plain_cell :: "string \<Rightarrow> bool" where
  "plain_cell c \<longleftrightarrow> newline \<notin> set c \<and> list_all (\<lambda>x. (of_char x :: nat) < 128) c \<and> (c = [] \<or> \<not> is_space (last c))"

definition fits :: "nat list \<Rightarrow> string list \<Rightarrow> bool" where
  "fits ws r \<longleftrightarrow> list_all2 (\<lambda>c w. length c \<le> w) r ws"

lemma widen_keeps: "fits ws r \<Longrightarrow> fits (widen ws r') r"
  unfolding fits_def
  by (induction ws r' arbitrary: r rule: widen.induct) (auto simp: list_all2_Cons2)

lemma widen_fits: "length r = length ws \<Longrightarrow> fits (widen ws r) r"
  unfolding fits_def by (induction ws r rule: widen.induct) auto

lemma length_widen: "length (widen ws r) = length ws"
  by (induction ws r rule: widen.induct) auto

lemma fold_widen_fits:
  "r \<in> set rows \<Longrightarrow> \<forall>r \<in> set rows. length r = length ws \<Longrightarrow> fits (fold (\<lambda>r ws. widen ws r) rows ws) r"
proof (induction rows arbitrary: ws)
  case (Cons r' rows)
  have keep: "fits ws' r \<Longrightarrow> fits (fold (\<lambda>r ws. widen ws r) rows ws') r" for ws'
    by (induction rows arbitrary: ws') (auto intro: widen_keeps)
  show ?case
    using Cons keep [OF widen_fits] by (cases "r = r'") (auto simp: length_widen)
qed simp

lemma table_widths_fit:
  "r \<in> set rows \<Longrightarrow> \<forall>r \<in> set rows. length r = n \<Longrightarrow> fits (table_widths rows) r"
proof -
  assume r: "r \<in> set rows" and n: "\<forall>r \<in> set rows. length r = n"
  then have "hd rows \<in> set rows" by (cases rows) auto
  with n have "length (hd rows) = n" by blast
  then show ?thesis unfolding table_widths_def using r n by (intro fold_widen_fits) auto
qed

lemma ascii_rune_count: "list_all (\<lambda>x. (of_char x :: nat) < 128) c \<Longrightarrow> rune_count c = length c"
  by (induction c) (simp_all add: rune_rest_def rune_tail_def)

lemma plain_rune_count: "plain_cell c \<Longrightarrow> rune_count c = length c"
  by (simp add: plain_cell_def ascii_rune_count)

lemma trim_right_pad: "plain_cell c \<Longrightarrow> trim_right (c @ replicate n (CHR '' '')) = c"
proof -
  assume c: "plain_cell c"
  have "dropWhile is_space (replicate n (CHR '' '') @ rev c) = dropWhile is_space (rev c)"
    by (induction n) (auto simp: is_space_def)
  moreover have "dropWhile is_space (rev c) = rev c"
    using c by (cases c rule: rev_cases) (auto simp: plain_cell_def)
  ultimately show ?thesis by (simp add: trim_right_def)
qed

lemma cut_row_chunks:
  "fits ws r \<Longrightarrow> r \<noteq> [] \<Longrightarrow> list_all plain_cell r \<Longrightarrow>
    \<exists>line. concat (row_chunks ws r) = line @ [newline] \<and> newline \<notin> set line \<and> cut_row ws line = r"
proof (induction ws r rule: row_chunks.induct)
  case (3 w ws c c' cs)
  then obtain line where l: "concat (row_chunks ws (c' # cs)) = line @ [newline]" "newline \<notin> set line"
    "cut_row ws line = c' # cs"
    by (auto simp: fits_def)
  have c: "plain_cell c" "length c \<le> w" using 3(2,4) by (auto simp: fits_def)
  obtain w' ws' where ws: "ws = w' # ws'" using 3(2) by (cases ws) (auto simp: fits_def)
  have pad: "pad_right w c = c @ replicate (w - length c) (CHR '' '')" "length (pad_right w c) = w"
    using c by (simp_all add: pad_right_def plain_rune_count)
  show ?case
    by (rule exI [of _ "pad_right w c @ ''  '' @ line"])
      (use c l pad in \<open>auto simp: ws trim_right_pad plain_cell_def newline_def\<close>)
qed (auto simp: fits_def plain_cell_def list_all2_Cons1)

lemma split_lines:
  "\<forall>r \<in> set rs. f r = g r @ [newline] \<and> newline \<notin> set (g r) \<Longrightarrow>
    split_on newline (concat (map f rs)) = map g rs @ [[]]"
  by (induction rs) (auto simp: split_on_append_sep)

lemma concat_concat: "concat (concat (map f xs)) = concat (map (\<lambda>x. concat (f x)) xs)"
  by (induction xs) simp_all

lemma table_reads_back:
  assumes "\<forall>r \<in> set rows. length r = n" and "0 < n" and "\<forall>r \<in> set rows. list_all plain_cell r"
  shows "map (cut_row (table_widths rows))
      (butlast (split_on newline (concat (concat (map (row_chunks (table_widths rows)) rows))))) = rows"
proof -
  let ?f = "\<lambda>r. concat (row_chunks (table_widths rows) r)"
  have "\<forall>r \<in> set rows. \<exists>line. ?f r = line @ [newline] \<and> newline \<notin> set line \<and> cut_row (table_widths rows) line = r"
    using assms by (auto intro!: cut_row_chunks table_widths_fit)
  then obtain g where g: "\<forall>r \<in> set rows. ?f r = g r @ [newline] \<and> newline \<notin> set (g r) \<and> cut_row (table_widths rows) (g r) = r"
    by metis
  have "concat (concat (map (row_chunks (table_widths rows)) rows)) = concat (map ?f rows)"
    by (simp add: concat_concat)
  then have "split_on newline (concat (concat (map (row_chunks (table_widths rows)) rows))) = map g rows @ [[]]"
    using g by (simp add: split_lines)
  then show ?thesis using g by (simp add: map_idI)
qed

section \<open>The list of secrets\<close>

lemma label_char:
  assumes "is_lower c \<or> is_digit c \<or> c = CHR ''-''"
  shows "(of_char c :: nat) < 128" and "c \<noteq> newline" and "\<not> is_space c"
proof -
  have n: "48 \<le> (of_char c :: nat) \<and> (of_char c :: nat) \<le> 122 \<or> (of_char c :: nat) = 45"
    using assms by (auto simp: is_lower_def is_digit_def less_eq_char_def)
  then show "(of_char c :: nat) < 128" by auto
  have "(of_char c :: nat) \<notin> {9, 10, 11, 12, 13, 32}" using n by auto
  then show "c \<noteq> newline" "\<not> is_space c" by (auto simp: newline_def is_space_def)
qed

lemma plain_label: "dns_label n \<Longrightarrow> plain_cell n"
  unfolding plain_cell_def dns_label_def list_all_iff using label_char by (metis last_in_set)

lemma plain_append:
  "plain_cell a \<Longrightarrow> plain_cell b \<Longrightarrow> b \<noteq> [] \<Longrightarrow> plain_cell (a @ b)"
  by (simp add: plain_cell_def)

lemma plain_literals:
  "plain_cell ''NAME''" "plain_cell ''SOURCE''" "plain_cell ''ZONES''" "plain_cell ''STATE''" "plain_cell ''set''"
  "plain_cell ''unset (generated on next up)''" "plain_cell ''unset (minted on next up)''"
  "plain_cell (source_name src)" "plain_cell (role_name r)"
proof -
  show "plain_cell (source_name src)" by (cases src) (simp_all add: plain_cell_def newline_def is_space_def)
  show "plain_cell (role_name r)" by (cases r) (simp_all add: plain_cell_def newline_def is_space_def)
qed (simp_all add: plain_cell_def newline_def is_space_def)

lemma plain_zonesText: "plain_cell (zonesText rs)"
proof -
  have "plain_cell (join_with '','' (map role_name rs))"
  proof (induction rs rule: induct_list012)
    case (3 r r' rs)
    have "join_with '','' (map role_name (r' # rs)) \<noteq> []"
      by (cases r'; cases rs) simp_all
    moreover have "plain_cell (role_name r @ '','')"
      by (cases r) (simp_all add: plain_cell_def newline_def is_space_def)
    ultimately show ?case
      using plain_append [of "role_name r @ '',''" "join_with '','' (map role_name (r' # rs))"] 3(2) by simp
  qed (simp_all add: plain_literals plain_cell_def [of "[]"])
  then show ?thesis by (simp add: zonesText_def)
qed

lemma plain_stateText:
  assumes "dns_label (sName (ssSpec s))" shows "plain_cell (stateText s)"
proof -
  have "newline \<notin> set (sName (ssSpec s))" "list_all (\<lambda>x. (of_char x :: nat) < 128) (sName (ssSpec s))"
    using plain_label [OF assms] by (simp_all add: plain_cell_def)
  then have "plain_cell (''unset (run `lclaw secrets set '' @ sName (ssSpec s) @ ''`)'')"
    by (simp add: plain_cell_def newline_def is_space_def)
  then show ?thesis
    by (auto simp: stateText_def plain_literals split: source.split)
qed

text \<open>
  C29: the list of secrets can be read back. Cut at the widths of its columns, the lines of
  \<open>lclaw secrets list\<close> are the header and, for every entry in order, its name, source,
  zones and state.
\<close>

theorem list_reads_back:
  assumes "list_all (\<lambda>s. ValidateName (sName (ssSpec s)) = None) rows"
  shows "map (cut_row (table_widths (list_table rows)))
      (butlast (split_on newline (concat (into (\<lambda>w. renderListText w rows))))) = list_table rows"
proof -
  have "\<forall>r \<in> set (list_table rows). length r = 4 \<and> list_all plain_cell r"
    using assms
    by (auto simp: list_table_def list_row_def plain_literals plain_zonesText plain_stateText plain_label
        ValidateName_None_iff list_all_iff)
  then show ?thesis
    unfolding renderListText_print into_print_all by (intro table_reads_back [where n = 4]) auto
qed

text \<open>Two built-in entries, one of them set.\<close>

definition sample_rows :: "secret_status list" where
  "sample_rows =
     [\<lparr>ssSpec = BuiltinSecrets ! 0, ssSource = Generated, ssSet = True\<rparr>,
      \<lparr>ssSpec = BuiltinSecrets ! 3, ssSource = Minted, ssSet = False\<rparr>]"

theorem list_reads_back_witness:
  "map (cut_row (table_widths (list_table sample_rows)))
     (butlast (split_on newline (concat (into (\<lambda>w. renderListText w sample_rows))))) = list_table sample_rows"
  by (rule list_reads_back) code_simp

end
