(* ===== verification/CommandTree.thy ===== *)
theory CommandTree
  imports CommandLine
begin

text \<open>
  The tree of commands that \<open>New\<close> hands to the library (\<open>internal/cli\<close>): names, flags and
  usage mistakes as data. Parsing is the library's; what the tree must satisfy for the
  actions of CommandLine to be right is proved here.
\<close>

section \<open>Commands as data\<close>

datatype cli_flag =
    StringFlag (flName: string) (flUsage: string) (flValue: string) (flEnv: "string list")
  | BoolFlag (flName: string) (flUsage: string)

text \<open>\<open>ccHandler\<close> says whether \<open>OnUsageError\<close> is set; the library does not inherit it.\<close>

datatype cli_command =
  CliCommand (ccName: string) (ccUsage: string) (ccArgsUsage: string) (ccHandler: bool) (ccFlags: "cli_flag list")
    (ccAction: command_name) (ccCommands: "cli_command list")

definition upCommand :: cli_command where
  "upCommand = CliCommand ''up'' ''create and start the machine and apply the zones'' ''[ZONE...]'' True [] CmdUp []"

definition downCommand :: cli_command where
  "downCommand =
     CliCommand ''down'' ''stop the zones' pods, purge the secrets and stop the machine'' ''[ZONE...]'' True
       [BoolFlag ''destroy'' ''also remove the machine with its images and volumes; takes no zone''] CmdDown []"

definition statusCommand :: cli_command where
  "statusCommand =
     CliCommand ''status'' ''report the machine, the zone networks and every workload's pod'' [] True [] CmdStatus []"

definition doctorCommand :: cli_command where
  "doctorCommand = CliCommand ''doctor'' ''check that this host can run LocalClaw'' [] True [] CmdDoctor []"

definition initCommand :: cli_command where
  "initCommand =
     CliCommand ''init'' ''write the default scaffold into the scaffold directory'' [] True
       [BoolFlag ''force'' ''overwrite files that already exist''] CmdInit []"

definition versionCommand :: cli_command where
  "versionCommand = CliCommand ''version'' ''print version and build information'' [] True [] CmdVersion []"

definition fromFileFlag :: cli_flag where
  "fromFileFlag = StringFlag ''from-file'' ''read the value from `PATH` instead of stdin or a prompt'' [] []"

definition secretsList :: cli_command where
  "secretsList = CliCommand ''list'' ''list every secret with its source, zones and state'' [] True [] CmdList []"

definition secretsDescribe :: cli_command where
  "secretsDescribe =
     CliCommand ''describe'' ''show a secret's source, zones, timestamps and store state, never its value'' ''NAME'' True []
       CmdDescribe []"

definition secretsSet :: cli_command where
  "secretsSet =
     CliCommand ''set'' ''create a secret from a file, stdin or a prompt'' ''NAME'' True [fromFileFlag] CmdSet []"

definition secretsUpdate :: cli_command where
  "secretsUpdate =
     CliCommand ''update'' ''replace an existing secret, or regenerate it with --generate'' ''NAME'' True
       [fromFileFlag, BoolFlag ''generate'' ''re-run the generator or the minter and restore the default source''] CmdUpdate []"

definition secretsDelete :: cli_command where
  "secretsDelete =
     CliCommand ''delete'' ''remove a secret from the keychain and from every running machine'' ''NAME'' True [] CmdDelete []"

definition secretsGet :: cli_command where
  "secretsGet = CliCommand ''get'' ''print a secret's value and nothing else'' ''NAME'' True [] CmdGet []"

definition secretsCommand :: cli_command where
  "secretsCommand =
     CliCommand ''secrets'' ''manage the secrets in the LocalClaw keychain'' [] True [] CmdSecrets
       [secretsList, secretsDescribe, secretsSet, secretsUpdate, secretsDelete, secretsGet]"

definition New :: "string \<Rightarrow> cli_command" where
  "New default_dir =
     CliCommand ''lclaw'' ''manage LocalClaw's Podman machine and its zones'' [] True
       [StringFlag ''output'' ''output format: text or json'' ''text'' [''LCLAW_OUTPUT''],
        BoolFlag ''verbose'' ''log every external command to stderr'',
        StringFlag ''dir'' ''scaffold directory holding lclaw.toml and the workloads'' default_dir [''LCLAW_DIR'']]
       CmdRoot
       [upCommand, downCommand, statusCommand, doctorCommand, secretsCommand, initCommand, versionCommand]"

section \<open>Reaching a command\<close>

text \<open>The commands along a list of names, and where each command is.\<close>

fun descend :: "cli_command \<Rightarrow> string list \<Rightarrow> cli_command list option" where
  "descend t [] = Some [t]"
| "descend t (n # ns) =
     (case find (\<lambda>c. ccName c = n) (ccCommands t) of
        None \<Rightarrow> None
      | Some c \<Rightarrow> map_option (\<lambda>cs. t # cs) (descend c ns))"

fun command_path :: "command_name \<Rightarrow> string list" where
  "command_path CmdRoot = []"
| "command_path CmdUp = [''up'']"
| "command_path CmdDown = [''down'']"
| "command_path CmdStatus = [''status'']"
| "command_path CmdDoctor = [''doctor'']"
| "command_path CmdInit = [''init'']"
| "command_path CmdVersion = [''version'']"
| "command_path CmdSecrets = [''secrets'']"
| "command_path CmdList = [''secrets'', ''list'']"
| "command_path CmdDescribe = [''secrets'', ''describe'']"
| "command_path CmdSet = [''secrets'', ''set'']"
| "command_path CmdUpdate = [''secrets'', ''update'']"
| "command_path CmdDelete = [''secrets'', ''delete'']"
| "command_path CmdGet = [''secrets'', ''get'']"

text \<open>The flags in scope: the command's own and those of the commands above it.\<close>

definition scope :: "cli_command \<Rightarrow> command_name \<Rightarrow> string list" where
  "scope t name =
     (case descend t (command_path name) of None \<Rightarrow> [] | Some cs \<Rightarrow> map flName (concat (map ccFlags cs)))"

text \<open>The values of the flags in scope; any other flag as if it had never been given.\<close>

definition within :: "string list \<Rightarrow> cli_cmd \<Rightarrow> cli_cmd" where
  "within flags c =
     \<lparr>cdArgs = cdArgs c,
      cdOutput = (if ''output'' \<in> set flags then cdOutput c else []),
      cdVerbose = (''verbose'' \<in> set flags \<and> cdVerbose c),
      cdDir = (if ''dir'' \<in> set flags then cdDir c else []),
      cdDestroy = (''destroy'' \<in> set flags \<and> cdDestroy c),
      cdForce = (''force'' \<in> set flags \<and> cdForce c),
      cdGenerate = (''generate'' \<in> set flags \<and> cdGenerate c),
      cdFromFile = (if ''from-file'' \<in> set flags then cdFromFile c else [])\<rparr>"

lemma command_sel [simp]:
  "ccName upCommand = ''up''" "ccAction upCommand = CmdUp" "ccHandler upCommand" "map flName (ccFlags upCommand) = []" "ccCommands upCommand = []"
  "ccName downCommand = ''down''" "ccAction downCommand = CmdDown" "ccHandler downCommand" "map flName (ccFlags downCommand) = [''destroy'']" "ccCommands downCommand = []"
  "ccName statusCommand = ''status''" "ccAction statusCommand = CmdStatus" "ccHandler statusCommand" "map flName (ccFlags statusCommand) = []" "ccCommands statusCommand = []"
  "ccName doctorCommand = ''doctor''" "ccAction doctorCommand = CmdDoctor" "ccHandler doctorCommand" "map flName (ccFlags doctorCommand) = []" "ccCommands doctorCommand = []"
  "ccName initCommand = ''init''" "ccAction initCommand = CmdInit" "ccHandler initCommand" "map flName (ccFlags initCommand) = [''force'']" "ccCommands initCommand = []"
  "ccName versionCommand = ''version''" "ccAction versionCommand = CmdVersion" "ccHandler versionCommand" "map flName (ccFlags versionCommand) = []" "ccCommands versionCommand = []"
  "ccName secretsList = ''list''" "ccAction secretsList = CmdList" "ccHandler secretsList" "map flName (ccFlags secretsList) = []" "ccCommands secretsList = []"
  "ccName secretsDescribe = ''describe''" "ccAction secretsDescribe = CmdDescribe" "ccHandler secretsDescribe" "map flName (ccFlags secretsDescribe) = []" "ccCommands secretsDescribe = []"
  "ccName secretsSet = ''set''" "ccAction secretsSet = CmdSet" "ccHandler secretsSet" "map flName (ccFlags secretsSet) = [''from-file'']" "ccCommands secretsSet = []"
  "ccName secretsUpdate = ''update''" "ccAction secretsUpdate = CmdUpdate" "ccHandler secretsUpdate" "map flName (ccFlags secretsUpdate) = [''from-file'', ''generate'']" "ccCommands secretsUpdate = []"
  "ccName secretsDelete = ''delete''" "ccAction secretsDelete = CmdDelete" "ccHandler secretsDelete" "map flName (ccFlags secretsDelete) = []" "ccCommands secretsDelete = []"
  "ccName secretsGet = ''get''" "ccAction secretsGet = CmdGet" "ccHandler secretsGet" "map flName (ccFlags secretsGet) = []" "ccCommands secretsGet = []"
  "ccName secretsCommand = ''secrets''" "ccAction secretsCommand = CmdSecrets" "ccHandler secretsCommand" "map flName (ccFlags secretsCommand) = []"
  "ccCommands secretsCommand = [secretsList, secretsDescribe, secretsSet, secretsUpdate, secretsDelete, secretsGet]"
  by (simp_all add: upCommand_def downCommand_def statusCommand_def doctorCommand_def initCommand_def
      versionCommand_def secretsList_def secretsDescribe_def secretsSet_def secretsUpdate_def secretsDelete_def
      secretsGet_def secretsCommand_def fromFileFlag_def)

lemma New_sel [simp]:
  "ccName (New dd) = ''lclaw''" "ccAction (New dd) = CmdRoot" "ccHandler (New dd)"
  "map flName (ccFlags (New dd)) = [''output'', ''verbose'', ''dir'']"
  "ccCommands (New dd) =
     [upCommand, downCommand, statusCommand, doctorCommand, secretsCommand, initCommand, versionCommand]"
  by (simp_all add: New_def)

lemma descend_leaf: "ccCommands c = [] \<Longrightarrow> descend c ns = (if ns = [] then Some [c] else None)"
  by (cases ns) simp_all

lemma descend_at:
  "descend (New dd) (command_path name) = Some (New dd #
     (case name of
        CmdRoot \<Rightarrow> [] | CmdUp \<Rightarrow> [upCommand] | CmdDown \<Rightarrow> [downCommand] | CmdStatus \<Rightarrow> [statusCommand]
      | CmdDoctor \<Rightarrow> [doctorCommand] | CmdInit \<Rightarrow> [initCommand] | CmdVersion \<Rightarrow> [versionCommand]
      | CmdSecrets \<Rightarrow> [secretsCommand] | CmdList \<Rightarrow> [secretsCommand, secretsList]
      | CmdDescribe \<Rightarrow> [secretsCommand, secretsDescribe] | CmdSet \<Rightarrow> [secretsCommand, secretsSet]
      | CmdUpdate \<Rightarrow> [secretsCommand, secretsUpdate] | CmdDelete \<Rightarrow> [secretsCommand, secretsDelete]
      | CmdGet \<Rightarrow> [secretsCommand, secretsGet]))"
  by (cases name) simp_all

lemma scope_New:
  "scope (New dd) name = [''output'', ''verbose'', ''dir''] @
     (case name of
        CmdDown \<Rightarrow> [''destroy''] | CmdInit \<Rightarrow> [''force''] | CmdSet \<Rightarrow> [''from-file'']
      | CmdUpdate \<Rightarrow> [''from-file'', ''generate''] | _ \<Rightarrow> [])"
  unfolding scope_def descend_at map_concat by (cases name) simp_all

section \<open>The tree is sound\<close>

definition commands_sound :: "cli_command \<Rightarrow> command_name \<Rightarrow> bool" where
  "commands_sound t name \<longleftrightarrow>
     (case descend t (command_path name) of
        None \<Rightarrow> False
      | Some cs \<Rightarrow> ccAction (last cs) = name \<and> list_all ccHandler cs \<and> distinct (scope t name))"

lemma sound_New: "commands_sound (New dd) name"
proof -
  have "distinct (scope (New dd) name)" unfolding scope_New by (cases name) simp_all
  then show ?thesis unfolding commands_sound_def descend_at by (cases name) simp_all
qed

lemma descend_New: "descend (New dd) path \<noteq> None \<longleftrightarrow> (\<exists>name. path = command_path name)"
proof
  let ?names = "[CmdRoot, CmdUp, CmdDown, CmdStatus, CmdDoctor, CmdInit, CmdVersion, CmdSecrets, CmdList, CmdDescribe,
    CmdSet, CmdUpdate, CmdDelete, CmdGet]"
  assume some: "descend (New dd) path \<noteq> None"
  have "path \<in> command_path ` set ?names"
  proof (cases path)
    case (Cons n ns)
    show ?thesis
    proof (cases "n = ''secrets''")
      case True
      then have "descend secretsCommand ns \<noteq> None" using some Cons by simp
      then show ?thesis using True Cons
        by (cases ns) (simp_all add: descend_leaf split: if_splits)
    qed (use some Cons in \<open>simp add: descend_leaf split: if_splits\<close>)
  qed simp
  then show "\<exists>name. path = command_path name" by blast
qed (auto simp: descend_at)

lemma within_sel [simp]:
  "cdArgs (within fs c) = cdArgs c" "''output'' \<in> set fs \<Longrightarrow> cdOutput (within fs c) = cdOutput c"
  "''dir'' \<in> set fs \<Longrightarrow> cdDir (within fs c) = cdDir c" "''verbose'' \<in> set fs \<Longrightarrow> cdVerbose (within fs c) = cdVerbose c"
  "''destroy'' \<in> set fs \<Longrightarrow> cdDestroy (within fs c) = cdDestroy c" "''force'' \<in> set fs \<Longrightarrow> cdForce (within fs c) = cdForce c"
  "''generate'' \<in> set fs \<Longrightarrow> cdGenerate (within fs c) = cdGenerate c"
  "''from-file'' \<in> set fs \<Longrightarrow> cdFromFile (within fs c) = cdFromFile c"
  by (simp_all add: within_def)

text \<open>What the shared steps of the actions read.\<close>

lemma arguments_within [simp]:
  "zoneArgs d (within fs c) = zoneArgs d c" "nameArg d (within fs c) = nameArg d c"
  "no_args d (within fs c) = no_args d c" "groupAction h d (within fs c) = groupAction h d c"
  "''dir'' \<in> set fs \<Longrightarrow> scaffoldDir d (within fs c) = scaffoldDir d c"
  "''from-file'' \<in> set fs \<Longrightarrow> readValue d (within fs c) = readValue d c"
  by (simp_all add: zoneArgs_def nameArg_def no_args_def groupAction_def scaffoldDir_def readValue_def fun_eq_iff)

lemma results_within [simp]:
  assumes "''output'' \<in> set fs"
  shows "jsonOutput (within fs c) = jsonOutput c" "render_then (within fs c) = render_then c"
    "reportFindings d (within fs c) = reportFindings d c" "renderLifecycle d (within fs c) = renderLifecycle d c"
    "report_result d (within fs c) = report_result d c" "outcome_result d (within fs c) = outcome_result d c"
proof -
  show json: "jsonOutput (within fs c) = jsonOutput c" using assms by (simp add: jsonOutput_def)
  show then_within: "render_then (within fs c) = render_then c" by (simp add: render_then_def json fun_eq_iff)
  have "show_report d (within fs c) = show_report d c"
    by (simp add: show_report_def then_within fun_eq_iff)
  then show results: "reportFindings d (within fs c) = reportFindings d c" "renderLifecycle d (within fs c) = renderLifecycle d c"
    by (simp_all add: reportFindings_def [abs_def] renderLifecycle_def [abs_def] cong: option.case_cong)
  have "renderOutcome d (within fs c) = renderOutcome d c" by (simp add: renderOutcome_def then_within fun_eq_iff)
  with results show "report_result d (within fs c) = report_result d c" "outcome_result d (within fs c) = outcome_result d c"
    by (simp_all add: report_result_def [abs_def] outcome_result_def [abs_def] cong: prod.case_cong option.case_cong sum.case_cong)
qed

lemmas action_defs = upAction_def downAction_def statusAction_def doctorAction_def initAction_def versionAction_def
  listAction_def describeAction_def setAction_def updateAction_def deleteAction_def getAction_def

lemma action_within: "action u d name (within (scope (New dd) name) c) = action u d name c"
  by (cases name)
    (simp_all add: scope_New action_defs cong: if_cong sum.case_cong option.case_cong prod.case_cong)

text \<open>
  C15: the command tree fits the actions. The paths that lead to a command are exactly those
  of the fourteen commands; each path leads to the command whose action it names, every
  command along it handles its own usage mistakes, and no flag is in scope twice. No action
  and no check before it reads a flag that is not in its scope: with any other flag forced
  to its zero value it does the same.
\<close>

theorem command_tree:
  "(descend (New dd) path \<noteq> None \<longleftrightarrow> (\<exists>name. path = command_path name)) \<and>
   inj command_path \<and> commands_sound (New dd) name \<and>
   action u d name (within (scope (New dd) name) c) = action u d name c \<and>
   before d (within (scope (New dd) name) c) = before d c"
proof (intro conjI)
  show "inj command_path"
  proof (rule injI)
    fix a b assume "command_path a = command_path b" then show "a = b" by (cases a; cases b) simp_all
  qed
  show "before d (within (scope (New dd) name) c) = before d c" by (simp add: before_def scope_New cong: option.case_cong)
qed (rule descend_New sound_New action_within)+

end
