(* ===== verification/Wiring.thy ===== *)
theory Wiring
  imports CommandLine SecretsOverKeychain PodmanClient LiteLLMMinter TomlLoader ScaffoldFiles
begin

text \<open>
  \<open>cmd/lclaw/main.go\<close>: the composition root. One runner below every adapter that starts
  processes, the adapters below the use cases, the use cases below the command line; and
  \<open>internal/adapters/tty\<close>, the prompt. A locale carries what the ports may do to a log over
  to every use case, and is interpreted on the wired program.
\<close>

section \<open>The prompt\<close>

text \<open>
  Reading without echo is the terminal library's; the newline is written whether or not it
  succeeds.
\<close>

definition ReadPassword :: "('w, go_error + string) io \<Rightarrow> 'w writer \<Rightarrow> string \<Rightarrow> ('w, go_error + string) io" where
  "ReadPassword noecho w prompt = do {
     _ \<leftarrow> fprint w prompt;
     b \<leftarrow> noecho;
     _ \<leftarrow> fprint w [newline];
     ret (case b of Inl err \<Rightarrow> Inl (Wrapf ''tty: read password: '' err []) | Inr v \<Rightarrow> Inr v)
   }"

section \<open>Composition\<close>

text \<open>What the program finds around it, beside the processes it starts.\<close>

record 'w outside =
  owHost :: "'w host"
  owFiles :: "'w os_files"
  owHome :: "('w, go_error + string) io"
  owClock :: "'w clock"
  owRandom :: "'w reader"
  owStdout :: "'w writer"
  owStderr :: "'w writer"
  owStdin :: "('w, go_error + string) io"
  owNoEcho :: "('w, go_error + string) io"
  owTerminal :: bool
  owReadFile :: "string \<Rightarrow> ('w, go_error + string) io"
  owRaise :: "('w, unit) io"

text \<open>What is compiled in: the libraries, the default files and the build's own facts.\<close>

record compiled =
  cpToml :: toml_lib
  cpJson :: json_lib
  cpDefaults :: "walk_entry list"
  cpVersion :: string
  cpSettings :: "(string \<times> string) list option"
  cpGo :: string
  cpPlatform :: string

definition wired_minter :: "'w runner \<Rightarrow> 'w minter" where
  "wired_minter rn = \<lparr>mnRunner = rn, mnTimeout = 0, mnInterval = 0, mnSleep = None\<rparr>"

definition wired_doctor :: "'w runner \<Rightarrow> compiled \<Rightarrow> 'w outside \<Rightarrow> 'w doctor" where
  "wired_doctor rn p x =
     \<lparr>drRuntime = PodmanMachines (cpJson p) rn, drWorkloads = PodmanWorkloads (cpJson p) rn,
      drEnvs = FloxEnvironment rn, drScaffold = ScaffoldOpener (owFiles x),
      drTopology = Loader (cpToml p) (owHome x), drKeychain = KeychainPort (owHost x) rn\<rparr>"

definition wired_lifecycle :: "'w ctx \<Rightarrow> 'w runner \<Rightarrow> compiled \<Rightarrow> 'w outside \<Rightarrow> 'w lifecycle" where
  "wired_lifecycle ctx rn p x =
     \<lparr>lcRuntime = PodmanMachines (cpJson p) rn, lcWorkloads = PodmanWorkloads (cpJson p) rn,
      lcScaffold = ScaffoldOpener (owFiles x), lcTopology = Loader (cpToml p) (owHome x),
      lcKeychain = KeychainPort (owHost x) rn, lcTarget = PodmanSecrets (cpJson p) rn,
      lcMinter = Some (LiteLLM (owClock x) ctx (wired_minter rn)), lcRandom = owRandom x,
      lcProgress = Some (Progress (owStderr x))\<rparr>"

definition wired_init :: "'w runner \<Rightarrow> compiled \<Rightarrow> 'w outside \<Rightarrow> 'w init_app" where
  "wired_init rn p x =
     \<lparr>inDefaults = cpDefaults p, inWriter = ScaffoldWriter (owFiles x), inScaffold = ScaffoldOpener (owFiles x),
      inTopology = Loader (cpToml p) (owHome x), inKeychain = KeychainPort (owHost x) rn\<rparr>"

definition wired_secrets :: "'w ctx \<Rightarrow> 'w runner \<Rightarrow> compiled \<Rightarrow> 'w outside \<Rightarrow> 'w secrets_app" where
  "wired_secrets ctx rn p x =
     \<lparr>saScaffold = ScaffoldOpener (owFiles x), saTopology = Loader (cpToml p) (owHome x),
      saKeychain = KeychainPort (owHost x) rn, saTarget = PodmanSecrets (cpJson p) rn,
      saMinter = LiteLLM (owClock x) ctx (wired_minter rn), saRandom = owRandom x\<rparr>"

text \<open>A use case as the command line sees it.\<close>

definition run_lifecycle :: "'w ctx \<Rightarrow> 'w lifecycle \<Rightarrow> 'w lifecycle_runner" where
  "run_lifecycle ctx l = \<lparr>lrUp = Up ctx l, lrDown = Down ctx l, lrStatus = Status ctx l\<rparr>"

definition run_secrets :: "'w ctx \<Rightarrow> 'w secrets_app \<Rightarrow> 'w secrets_runner" where
  "run_secrets ctx s =
     \<lparr>srList = List ctx s, srDescribe = Describe s, srSet = Set ctx s, srUpdate = Update ctx s,
      srDelete = Delete s, srGet = Get s\<rparr>"

definition wired_deps :: "'w ctx \<Rightarrow> 'w runner \<Rightarrow> compiled \<Rightarrow> 'w outside \<Rightarrow> go_error + string \<Rightarrow> 'w cli_deps" where
  "wired_deps ctx rn p x home =
     \<lparr>dpDoctor = RunDoctor ctx (wired_doctor rn p x), dpLifecycle = run_lifecycle ctx (wired_lifecycle ctx rn p x),
      dpInit = RunInit ctx (wired_init rn p x), dpSecrets = run_secrets ctx (wired_secrets ctx rn p x),
      dpBuild = buildInfo (cpVersion p) (cpSettings p), dpDefaultDir = defaultDir home, dpLevel = Some (owRaise x),
      dpStdout = owStdout x, dpStderr = owStderr x, dpStdin = Some (owStdin x),
      dpPrompt = (if owTerminal x then Some (ReadPassword (owNoEcho x) (owStderr x)) else None),
      dpReadFile = owReadFile x, dpGo = cpGo p, dpPlatform = cpPlatform p\<rparr>"

definition lclaw_run :: "'w ucli \<Rightarrow> 'w ctx \<Rightarrow> 'w runner \<Rightarrow> compiled \<Rightarrow> 'w outside \<Rightarrow> string list \<Rightarrow> ('w, int) io" where
  "lclaw_run u ctx rn p x args = do {
     home \<leftarrow> owHome x;
     run_main u (wired_deps ctx rn p x home) args
   }"

end
