(* ===== verification/ProgramPorts.thy ===== *)
theory ProgramPorts
  imports Wiring
begin

text \<open>
  What the ports of the use cases may do to a log, every use case may: the contract between
  the adapters and the application, as a locale. It extends to the contract of the secrets
  use cases, and is interpreted where the program is wired.
\<close>

locale program_ports =
  fixes ctx :: "('w \<times> 'e list) ctx" and rt :: "('w \<times> 'e list) machine_runtime"
    and wl :: "('w \<times> 'e list) workload_runtime" and en :: "('w \<times> 'e list) environment_manager"
    and fw :: "('w \<times> 'e list) file_writer" and ope :: "('w \<times> 'e list) dir_opener"
    and ldr :: "('w \<times> 'e list) topology_loader" and kc :: "('w \<times> 'e list) keychain"
    and tg :: "('w \<times> 'e list) secret_target" and mi :: "('w \<times> 'e list) key_minter"
    and rd :: "('w \<times> 'e list) reader" and pg :: "('w \<times> 'e list) progress" and A :: "'e \<Rightarrow> bool"
  assumes ctx: "logs A ctx"
    and runtime: "logs A (rtVersion rt)" "logs A (rtListMachines rt)" "logs A (rtInitMachine rt m)"
      "logs A (rtStartMachine rt prov n)" "logs A (rtStopMachine rt prov n)" "logs A (rtRemoveMachine rt prov n)"
    and workloads: "logs A (wlNetworkExists wl n)" "logs A (wlCreateNetwork wl n b)" "logs A (wlRemoveNetwork wl n)"
      "logs A (wlBuild wl tag dir)" "logs A (wlPlay wl file nets userns)" "logs A (wlDown wl file)" "logs A (wlListPods wl)"
    and environment: "logs A (emVersion en)"
    and writer: "logs A (fwWriteFile fw path data overwrite)"
    and opener: "logs A (doOpenDir ope dir)"
    and loader: "logs A (tlLoad ldr fs)"
    and keychain: "logs A (kcExists kc path)" "logs A (kcCreate kc path)" "logs A (kcGet kc path n)"
      "logs A (kcDescribe kc path n)" "logs A (kcPut kc path n v src rep)" "logs A (kcDelete kc path n)"
    and target: "logs A (tgMachineRunning tg)" "logs A (tgStoreSecret tg n v)" "logs A (tgSecretExists tg n)"
      "logs A (tgRemoveSecret tg n)" "logs A (tgListSecrets tg)" "logs A (tgRemoveVolume tg n)"
    and minter: "logs A (kmReady mi)" "logs A (kmMint mi n)"
    and random: "logs A (rd k)"
    and progress: "logs A (pgStep pg name detail)"

sublocale program_ports \<subseteq> secrets: secrets_ports ctx
  "\<lparr>saScaffold = ope, saTopology = ldr, saKeychain = kc, saTarget = tg, saMinter = mi, saRandom = rd\<rparr>" A
  by unfold_locales (simp_all add: ctx opener loader keychain target minter random)

context program_ports
begin

lemmas program_ops = ctx runtime workloads environment writer opener loader keychain target minter random progress

text \<open>The lifecycle over these ports, and its steps.\<close>

abbreviation program :: "('w \<times> 'e list) lifecycle" where
  "program \<equiv> \<lparr>lcRuntime = rt, lcWorkloads = wl, lcScaffold = ope, lcTopology = ldr, lcKeychain = kc, lcTarget = tg,
     lcMinter = Some mi, lcRandom = rd, lcProgress = Some pg\<rparr>"

lemma from_step: "logs A (step program name detail)"
  unfolding step_def lc_progress_def by (simp add: progress)

lemma from_check_ctx: "logs A k \<Longrightarrow> logs A (check_ctx ctx r k)"
  unfolding check_ctx_def by (intro io_rules ctx)

lemma from_check_ctx2: "logs A k \<Longrightarrow> logs A (check_ctx2 ctx r k)"
  unfolding check_ctx2_def by (intro io_rules ctx)

lemma from_keychain: "logs A (requireKeychain kc path)"
  unfolding requireKeychain_def by (intro io_rules keychain)

lemma from_load: "logs A (load program dir)"
  unfolding load_def lifecycle.select_convs by (intro io_rules opener loader)

lemma from_generate: "logs A (Generate g rd)"
  unfolding Generate_def by (intro io_rules random)

lemma from_some: "logs A (f y) \<Longrightarrow> logs A (case Some y of None \<Rightarrow> m | Some y \<Rightarrow> f y)"
  by simp

lemmas program_steps = from_step from_check_ctx from_check_ctx2 from_keychain from_load from_generate

lemma from_user_spec_loop: "logs A (user_spec_loop ctx program path specs missing r)"
  by (induction specs arbitrary: missing r) (auto intro!: io_rules program_steps program_ops)

lemma from_user_role_loop: "logs A (user_role_loop ctx program path cat roles missing r)"
  by (induction roles arbitrary: missing r) (auto intro!: io_rules from_user_spec_loop)

lemma from_start_machine: "logs A (start_machine program topo created)"
  unfolding start_machine_def lifecycle.select_convs
  by (intro io_rules program_steps program_ops)

lemma from_ensureMachine: "logs A (ensureMachine program dir topo)"
  unfolding ensureMachine_def lifecycle.select_convs
  by (intro io_rules program_steps from_start_machine program_ops)

lemma from_network_loop: "logs A (network_loop ctx program topo roles r)"
  by (induction roles arbitrary: r) (auto intro!: io_rules program_steps program_ops)

lemma from_play_loop: "logs A (play_loop ctx program dir role z ws r)"
  by (induction ws arbitrary: r) (auto intro!: io_rules program_steps program_ops)

lemma from_wait_ready: "logs A (wait_ready ctx program role r)"
  unfolding wait_ready_def lifecycle.select_convs
  by (intro from_some io_rules program_steps program_ops)

lemma from_resolve_loop:
  "logs A (resolve_loop ctx \<lparr>rsKeychain = kc, rsMinter = Some mi, rsRandom = rd\<rparr> path specs resolved findings)"
proof (induction specs arbitrary: resolved findings)
  case (Cons spec specs)
  show ?case
    unfolding resolve_loop.simps resolve_secrets.select_convs
    by (intro from_some io_rules program_steps program_ops Cons)
qed (simp add: io_rules)

lemma from_InjectSecrets: "logs A (InjectSecrets ctx tg rs)"
  by (induction rs) (auto intro!: io_rules program_ops)

lemma from_up_zone: "logs A (up_zone ctx program dir topo cat role r)"
  unfolding up_zone_def ResolveSecrets_def lifecycle.select_convs resolve_secrets.select_convs
  by (intro io_rules program_steps from_resolve_loop from_InjectSecrets from_play_loop from_wait_ready)

lemma from_zones_loop: "logs A (zones_loop ctx program dir topo cat roles failed r)"
  by (induction roles arbitrary: failed r) (auto intro!: io_rules program_steps from_up_zone)

lemma from_Up: "logs A (Up ctx program dir roles)"
  unfolding Up_def lifecycle.select_convs
  by (intro io_rules program_steps from_user_role_loop from_ensureMachine from_network_loop from_zones_loop)

lemma from_forget_loop: "logs A (forget_loop ctx program path specs r)"
  by (induction specs arbitrary: r) (auto intro!: io_rules program_steps program_ops)

lemma from_destroy: "logs A (destroy ctx program topo cat r)"
  unfolding destroy_def lifecycle.select_convs
  by (intro io_rules program_steps program_ops from_forget_loop)

lemma from_down_loop: "logs A (down_loop ctx program dir role ws present all_down r)"
  by (induction ws arbitrary: present all_down r) (auto intro!: io_rules program_steps program_ops)

lemma from_down_network: "logs A (down_network ctx program role all_down r)"
  unfolding down_network_def lifecycle.select_convs
  by (intro io_rules program_steps program_ops)

lemma from_down_zones: "logs A (down_zones ctx program dir topo roles present r)"
  by (induction roles arbitrary: present r) (auto intro!: io_rules from_down_loop from_down_network)

lemma from_purge_loop: "logs A (purge_loop ctx tg all names)"
  by (induction names) (auto intro!: io_rules program_ops)

lemma from_purge_and_stop: "logs A (purge_and_stop ctx program topo cat destroying r)"
  unfolding purge_and_stop_def PurgeSecrets_def lifecycle.select_convs
  by (intro io_rules program_steps program_ops from_purge_loop from_destroy)

lemma from_Down: "logs A (Down ctx program dir roles destroying)"
  unfolding Down_def down_machine_def lifecycle.select_convs
  by (intro io_rules program_steps program_ops from_destroy from_down_zones from_purge_and_stop)

lemma from_networksPresent: "logs A (networksPresent ctx wl roles present)"
  by (induction roles arbitrary: present) (auto intro!: io_rules program_ops)

lemma from_Status: "logs A (Status ctx program dir)"
  unfolding Status_def status_checks_def lifecycle.select_convs
  by (intro io_rules program_steps program_ops from_networksPresent)

text \<open>Doctor and init.\<close>

abbreviation program_doctor :: "('w \<times> 'e list) doctor" where
  "program_doctor \<equiv> \<lparr>drRuntime = rt, drWorkloads = wl, drEnvs = en, drScaffold = ope, drTopology = ldr, drKeychain = kc\<rparr>"

lemma from_declared_secrets_loop: "logs A (declared_secrets_loop ctx program_doctor path specs checks)"
  by (induction specs arbitrary: checks) (auto intro!: io_rules program_ops)

lemma from_RunDoctor: "logs A (RunDoctor ctx program_doctor dir)"
  unfolding RunDoctor_def scaffoldChecks_def secretChecks_def machine_checks_def doctor.select_convs
  by (intro io_rules program_steps program_ops from_declared_secrets_loop from_networksPresent)

abbreviation program_init :: "walk_entry list \<Rightarrow> ('w \<times> 'e list) init_app" where
  "program_init ds \<equiv> \<lparr>inDefaults = ds, inWriter = fw, inScaffold = ope, inTopology = ldr, inKeychain = kc\<rparr>"

lemma from_walk_loop: "logs A (walk_loop ctx (program_init ds) dir force es r)"
  by (induction es arbitrary: r) (auto intro!: io_rules program_ops split: option.split)

lemma from_RunInit: "logs A (RunInit ctx (program_init ds) dir force)"
  unfolding RunInit_def keychainStep_def init_app.select_convs
  by (intro io_rules program_ops from_walk_loop)

end

end
