(* ===== verification/CommandPorts.thy ===== *)
theory CommandPorts
  imports CommandLine
begin

text \<open>
  The contracts of the command line: what the streams may do to a log, presenting a result
  may; and what the use cases and the library may do as well, every run of \<open>lclaw\<close> may.
\<close>

locale command_streams =
  fixes d :: "('w \<times> 'e list) cli_deps" and A :: "'e \<Rightarrow> bool"
  assumes streams: "logs A (dpStdout d s)" "logs A (dpStderr d s)" "logs A (dpReadFile d path)"
    and level: "dpLevel d = Some raise \<Longrightarrow> logs A raise"
    and stdin: "dpStdin d = Some input \<Longrightarrow> logs A input"
    and prompt: "dpPrompt d = Some ask \<Longrightarrow> logs A (ask text)"
begin

lemma from_fprint: "(\<And>s. logs A (w s)) \<Longrightarrow> logs A (fprint w s)"
  unfolding fprint_def by (intro io_rules)

lemma from_print_all: "(\<And>s. logs A (w s)) \<Longrightarrow> logs A (print_all w ss)"
  by (induction ss) (auto intro!: io_rules from_fprint)

lemma from_or_return: "logs A m \<Longrightarrow> (\<And>x. logs A (f x)) \<Longrightarrow> logs A (or_return m f)"
  unfolding or_return_def by (intro io_rules)

lemma from_case_list:
  "logs A m \<Longrightarrow> (\<And>y ys. logs A (f y ys)) \<Longrightarrow> logs A (case xs of [] \<Rightarrow> m | y # ys \<Rightarrow> f y ys)"
  by (cases xs) auto

lemma from_usage: "logs A (usage d err)" "logs A (onUsageError d err)" "logs A (refuse d err)"
  unfolding onUsageError_def refuse_def usage_def by (intro io_rules from_fprint streams)+

lemma from_arguments: "logs A (scaffoldDir d c)" "logs A (zoneArgs d c)" "logs A (nameArg d c)"
  unfolding scaffoldDir_def zoneArgs_def nameArg_def by (intro io_rules from_case_list from_usage)+

lemma from_readValue: "logs A (readValue d c name)"
proof -
  have "logs A (case dpPrompt d of
        Some prompt \<Rightarrow> do {
          r \<leftarrow> prompt (''value for '' @ name @ '': '');
          ret (case r of Inl err \<Rightarrow> Inl (Wrapf ''prompt for value: '' err []) | Inr b \<Rightarrow> Inr b)
        }
      | None \<Rightarrow>
          (case dpStdin d of
             None \<Rightarrow> refuse d (Plain ''no value: pass --from-file or pipe the value on stdin'')
           | Some stdin \<Rightarrow> do {
               r \<leftarrow> stdin;
               ret (case r of Inl err \<Rightarrow> Inl (Wrapf ''read stdin: '' err []) | Inr b \<Rightarrow> Inr (trimNewline b))
             }))"
    by (cases "dpPrompt d"; cases "dpStdin d"; simp; intro io_rules from_usage; (erule prompt | erule stdin))
  moreover have "logs A (do {
      r \<leftarrow> dpReadFile d (cdFromFile c);
      ret (case r of Inl err \<Rightarrow> Inl (Wrapf ''read --from-file: '' err []) | Inr b \<Rightarrow> Inr (trimNewline b)) })"
    by (intro io_rules streams)
  ultimately show ?thesis unfolding readValue_def by simp
qed

lemmas json_renderers = renderReportJSON_def renderListJSON_def renderDetailJSON_def renderOutcomeJSON_def renderInitJSON_def
lemmas text_renderers = renderReportText_def renderListText_def renderDetailText_def renderOutcomeText_def renderInitText_def

lemma from_renderers:
  "logs A (renderReportJSON (dpStdout d) rep)" "logs A (renderListJSON (dpStdout d) rows)"
  "logs A (renderDetailJSON (dpStdout d) det)" "logs A (renderOutcomeJSON (dpStdout d) verb ou)"
  "logs A (renderInitJSON (dpStdout d) ir)" "logs A (renderReportText (dpStdout d) rep)"
  "logs A (renderListText (dpStdout d) rows)" "logs A (renderDetailText (dpStdout d) det)"
  "logs A (renderOutcomeText (dpStdout d) verb ou)" "logs A (renderInitText (dpStdout d) ir)"
  "logs A (json_encode (dpStdout d) v)"
  unfolding json_renderers json_encode_def text_renderers writeTable_def
  by (intro io_rules from_print_all streams)+

lemma from_render_then: "logs A j \<Longrightarrow> logs A t \<Longrightarrow> logs A k \<Longrightarrow> logs A (render_then c j t k)"
  unfolding render_then_def by (intro io_rules)

lemma from_show_report: "logs A k \<Longrightarrow> logs A (show_report d c rep k)"
  unfolding show_report_def by (intro from_render_then from_renderers)

lemma from_results:
  "logs A (reportFindings d c err)" "logs A (renderLifecycle d c rep)" "logs A (renderOutcome d c verb ou)"
  unfolding reportFindings_def renderLifecycle_def renderOutcome_def
  by (intro io_rules from_show_report from_render_then from_renderers from_fprint streams)+

lemma from_answers: "logs A (report_result d c r)" "logs A (outcome_result d c verb a)"
  unfolding report_result_def outcome_result_def by (intro io_rules from_results)+

lemmas command_steps = from_or_return from_arguments from_usage from_readValue from_renderers from_render_then
  from_results from_answers from_fprint

end

locale command_ports = command_streams d A for d :: "('w \<times> 'e list) cli_deps" and A :: "'e \<Rightarrow> bool" +
  fixes u :: "('w \<times> 'e list) ucli"
  assumes library: "logs A (ucParse u dir args)" "logs A (ucAppHelp u)" "logs A (ucSubcommandHelp u)"
    and use_cases: "logs A (dpDoctor d dir)" "logs A (lrUp (dpLifecycle d) dir roles)"
      "logs A (lrDown (dpLifecycle d) dir roles destroying)" "logs A (lrStatus (dpLifecycle d) dir)"
      "logs A (dpInit d dir force)" "logs A (srList (dpSecrets d) dir)" "logs A (srDescribe (dpSecrets d) dir n)"
      "logs A (srSet (dpSecrets d) dir n v)" "logs A (srUpdate (dpSecrets d) dir n v generate)"
      "logs A (srDelete (dpSecrets d) dir n)" "logs A (srGet (dpSecrets d) dir n)"
begin

lemma from_action: "logs A (action u d name c)"
  by (cases name)
    (simp_all add: groupAction_def upAction_def downAction_def statusAction_def doctorAction_def initAction_def
      versionAction_def listAction_def describeAction_def setAction_def updateAction_def deleteAction_def getAction_def no_args_def,
     (intro conjI impI io_rules from_case_list command_steps use_cases library streams)+)

lemma from_before: "logs A (before d c)"
  unfolding before_def by (cases "dpLevel d") (auto intro!: io_rules from_usage level)

lemma from_RunRoot: "logs A (RunRoot u d args)"
proof -
  have "logs A (case i of BadFlags err \<Rightarrow> onUsageError d err | Served err \<Rightarrow> ret err
      | Selected name c \<Rightarrow> do { err \<leftarrow> before d c; case err of Some e \<Rightarrow> ret (Some e) | None \<Rightarrow> action u d name c })" for i
    by (cases i) (auto intro!: io_rules from_usage from_before from_action)
  then show ?thesis unfolding RunRoot_def by (intro io_rules library)
qed

lemma from_run_main: "logs A (run_main u d args)"
  unfolding run_main_def by (intro io_rules from_RunRoot from_fprint streams)

end

end
