(* ===== verification/ProgramProcesses.thy ===== *)
theory ProgramProcesses
  imports ProgramPorts CommandPorts
begin

text \<open>
  What \<open>lclaw\<close> starts: the commands it can run, whatever the command line, the files and
  the tools answer. A locale states what the host and the runner below the adapters may do
  to a log and carries it to a run of the whole program; it is interpreted on the host and
  runner that log every process, and on the operating system's runner with its debug log.
\<close>

section \<open>The commands\<close>

text \<open>
  Every place in the adapters that starts a process and that a use case reaches; none
  reaches the script that revokes a key.
\<close>

inductive known_command :: "command \<Rightarrow> bool" where
  podman_version: "known_command (plain_command podman_tool [''--version''])"
| flox_version: "known_command (plain_command ''flox'' [''--version''])"
| machine_list: "known_command (plain_command podman_tool [''machine'', ''list'', ''--format'', ''json''])"
| machine_init: "known_command (machine_command prov (init_args m))"
| machine_start: "known_command (machine_command prov [''start'', ''--no-info'', n])"
| machine_stop: "known_command (machine_command prov [''stop'', n])"
| machine_remove: "known_command (machine_command prov [''rm'', ''--force'', n])"
| network_exists: "known_command (plain_command podman_tool (connection [''network'', ''exists'', n]))"
| network_create: "known_command (plain_command podman_tool
    (connection ([''network'', ''create''] @ (if internal then [''--internal''] else []) @ [n])))"
| network_remove: "known_command (plain_command podman_tool (connection [''network'', ''rm'', n]))"
| build: "known_command (plain_command podman_tool (connection [''build'', ''--quiet'', ''--tag'', tag, dir]))"
| play: "known_command (plain_command podman_tool (connection (play_args file nets userns)))"
| down: "known_command (plain_command podman_tool (connection [''kube'', ''down'', file]))"
| pods: "known_command (plain_command podman_tool (connection
    [''pod'', ''ps'', ''--filter'', ''label='' @ partOfKey @ ''='' @ partOfValue, ''--format'', ''json'']))"
| store: "known_command (store_command n v)"
| secret_exists: "known_command (plain_command podman_tool (connection [''secret'', ''exists'', n]))"
| secret_remove: "known_command (plain_command podman_tool (connection [''secret'', ''rm'', n]))"
| secret_ls: "known_command (plain_command podman_tool (connection [''secret'', ''ls'', ''--quiet'']))"
| secret_inspect: "known_command (plain_command podman_tool (connection ([''secret'', ''inspect''] @ ids)))"
| volume_exists: "known_command (plain_command podman_tool (connection [''volume'', ''exists'', n]))"
| volume_remove: "known_command (plain_command podman_tool (connection [''volume'', ''rm'', n]))"
| ready: "known_command ready_command"
| mint: "known_command (script_command mintScript [] [n])"
| keychain_item: "item_command c \<Longrightarrow> known_command c"
| keychain_settings: "known_command
    (kc_command [''set-keychain-settings'', ''-l'', ''-u'', ''-t'', lockTimeout, path] None)"

text \<open>
  What they have in common: one of three tools; with input, or with \<open>security\<close>, marked
  sensitive, so that the log has no output of it; with input, no argument but fixed words
  and a name; only the machine commands set a variable, the provider; and everything else
  \<open>podman\<close> does is done on LocalClaw's machine.
\<close>

definition on_machine :: "command \<Rightarrow> bool" where
  "on_machine c \<longleftrightarrow> take 2 (cmArgs c) = [''--connection'', MachineName] \<and> cmEnv c = []"

definition about_machines :: "command \<Rightarrow> bool" where
  "about_machines c \<longleftrightarrow>
     (\<exists>args. cmArgs c = ''machine'' # args) \<and> cmStdin c = None \<and>
     (cmEnv c = [] \<or> (\<exists>prov. cmEnv c = [providerEnv @ ''='' @ prov]))"

definition input_args :: "string list \<Rightarrow> bool" where
  "input_args args \<longleftrightarrow>
     args = [''-i''] \<or>
     (\<exists>name. args = connection [''secret'', ''create'', ''--replace'', ''--label'', partOfKey @ ''='' @ partOfValue, name, ''-'']) \<or>
     (\<exists>script names. script \<in> {readyScript, mintScript} \<and> length names \<le> 1 \<and>
        args = connection [''exec'', ''-i'', Container, ''python3'', ''-c'', script] @ names)"

definition well_behaved :: "command \<Rightarrow> bool" where
  "well_behaved c \<longleftrightarrow>
     (cmStdin c = None \<or> cmSensitive c \<and> input_args (cmArgs c)) \<and>
     (if cmName c = podman_tool then on_machine c \<or> about_machines c \<or> c = plain_command podman_tool [''--version'']
      else if cmName c = ''flox'' then c = plain_command ''flox'' [''--version'']
      else cmName c = kc_tool \<and> cmSensitive c \<and> cmEnv c = [])"

lemma known_well_behaved: "known_command c \<Longrightarrow> well_behaved c"
  by (induction rule: known_command.induct)
    (auto simp: well_behaved_def on_machine_def about_machines_def plain_command_def machine_command_def connection_def
      store_command_def script_command_def ready_command_def item_command_def kc_command_def kc_tool_def podman_tool_def
      init_args_def input_args_def)

section \<open>The adapters over a host and a runner\<close>

text \<open>\<open>podman_defs\<close> unfolds every operation of the podman adapter down to the runner.\<close>

lemmas podman_defs = PmVersion_def PmListMachines_def PmInitMachine_def PmStartMachine_def PmStopMachine_def
  PmRemoveMachine_def PmNetworkExists_def PmCreateNetwork_def PmRemoveNetwork_def PmBuild_def PmPlay_def PmDown_def
  PmListPods_def PmMachineRunning_def PmStoreSecret_def PmSecretExists_def PmRemoveSecret_def PmListSecrets_def
  PmRemoveVolume_def pm_run_def runMachine_def

lemma logs_only_error: "logs A m \<Longrightarrow> logs A (only_error op m)"
  unfolding only_error_def by (intro io_rules)

definition beside_files :: "'w os_files \<Rightarrow> ('w \<times> 'e list) os_files" where
  "beside_files f =
     \<lparr>ofStat = (\<lambda>p. untap (ofStat f p)), ofLstat = (\<lambda>p. untap (ofLstat f p)), ofDirFS = (\<lambda>p. untap (ofDirFS f p)),
      ofMkdirAll = (\<lambda>p. untap (ofMkdirAll f p)), ofCreateTemp = (\<lambda>d p. untap (ofCreateTemp f d p)),
      ofWrite = (\<lambda>n d. untap (ofWrite f n d)), ofChmod = (\<lambda>n. untap (ofChmod f n)), ofClose = (\<lambda>n. untap (ofClose f n)),
      ofRemove = (\<lambda>n. untap (ofRemove f n)), ofRename = (\<lambda>n p. untap (ofRename f n p))\<rparr>"

text \<open>The outside with a given host and everything else beside the log.\<close>

definition outside_over :: "('w \<times> 'e list) host \<Rightarrow> 'w outside \<Rightarrow> ('w \<times> 'e list) outside" where
  "outside_over h x =
     \<lparr>owHost = h, owFiles = beside_files (owFiles x), owHome = untap (owHome x),
      owClock = beside_clock (owClock x), owRandom = (\<lambda>k. untap (owRandom x k)),
      owStdout = (\<lambda>s. untap (owStdout x s)), owStderr = (\<lambda>s. untap (owStderr x s)), owStdin = untap (owStdin x),
      owNoEcho = untap (owNoEcho x), owTerminal = owTerminal x, owReadFile = (\<lambda>p. untap (owReadFile x p)),
      owRaise = untap (owRaise x)\<rparr>"

definition beside_ucli :: "'w ucli \<Rightarrow> ('w \<times> 'e list) ucli" where
  "beside_ucli u =
     \<lparr>ucParse = (\<lambda>dir args. untap (ucParse u dir args)), ucAppHelp = untap (ucAppHelp u),
      ucSubcommandHelp = untap (ucSubcommandHelp u)\<rparr>"

lemma logs_keychainPath: "logs A (keychainPath (untap home) p)"
  unfolding keychainPath_def Let_def by (intro io_rules)

lemma logs_Load: "logs A (Load lib (untap home) fs)"
  unfolding Load_def toDomain_def by (intro io_rules logs_keychainPath)

lemma logs_files:
  "logs A (OpenDir (beside_files f) dir)" "logs A (OsWriteFile (beside_files f) path data overwrite)"
  unfolding OpenDir_def OsWriteFile_def fill_def beside_files_def os_files.select_convs by (intro io_rules)+

text \<open>
  The laws: what running a known command does to the log, and what the two uses of the
  terminal and the creation of a directory do.
\<close>

locale known_host = guarded_runner host rn A
  for host :: "('w \<times> 'e list) host" and rn :: "('w \<times> 'e list) runner" and A :: "'e \<Rightarrow> bool" +
  assumes command: "known_command c \<Longrightarrow> logs A (rnRun rn c)"
    and create: "logs A (rnInteractive rn (kc_terminal [''create-keychain'', path]))"
    and mkdir: "logs A (hsMkdirAll host path)"
begin

lemma podman_logs:
  "logs A (PmVersion rn)" "logs A (PmListMachines lib rn)" "logs A (PmInitMachine rn m)"
  "logs A (PmStartMachine rn prov n)" "logs A (PmStopMachine rn prov n)" "logs A (PmRemoveMachine rn prov n)"
  "logs A (PmNetworkExists rn n)" "logs A (PmCreateNetwork rn n b)" "logs A (PmRemoveNetwork rn n)"
  "logs A (PmBuild rn tag dir)" "logs A (PmPlay rn file nets userns)" "logs A (PmDown rn file)"
  "logs A (PmListPods lib rn)" "logs A (PmMachineRunning lib rn)" "logs A (PmStoreSecret rn n v)"
  "logs A (PmSecretExists rn n)" "logs A (PmRemoveSecret rn n)" "logs A (PmListSecrets lib rn)"
  "logs A (PmRemoveVolume rn n)" "logs A (FloxVersion rn)"
  unfolding podman_defs FloxVersion_def
  by (intro io_rules logs_only_error command known_command.intros)+

lemma logs_KcCreate: "logs A (KcCreate host rn path)"
  unfolding KcCreate_def by (intro io_rules mkdir create command keychain_settings)

lemma logs_mn_exec: "known_command (script_command script stdin args) \<Longrightarrow> logs A (mn_exec rn script stdin args)"
  unfolding mn_exec_def by (intro io_rules command)

lemma logs_ready_loop:
  assumes "mnRunner m = rn" and "logs A ctx" and "logs A (ckNow ck)" and "\<And>t. logs A (mn_sleep ck ctx m t)"
  shows "logs A (ready_loop n ck ctx m deadline)"
  by (induction n)
    (auto intro!: io_rules logs_mn_exec [OF ready [unfolded ready_command_def]] assms(2-4) simp: assms(1))

lemma logs_LiteLLM:
  "logs A (kmReady (LiteLLM (beside_clock ck) (untap ctx) (wired_minter rn)))"
  "logs A (kmMint (LiteLLM (beside_clock ck) (untap ctx) (wired_minter rn)) n)"
proof -
  have "logs A (mn_sleep (beside_clock ck) (untap ctx) (wired_minter rn) t)" for t
    by (auto simp: mn_sleep_def wired_minter_def sleepCtx_def intro!: io_rules)
  then show "logs A (kmReady (LiteLLM (beside_clock ck) (untap ctx) (wired_minter rn)))"
    unfolding LiteLLM_def MnReady_def key_minter.select_convs
    by (intro io_rules logs_ready_loop) (auto simp: wired_minter_def intro!: io_rules)
  show "logs A (kmMint (LiteLLM (beside_clock ck) (untap ctx) (wired_minter rn)) n)"
    unfolding LiteLLM_def MnMint_def key_minter.select_convs
    by (intro io_rules) (auto simp: wired_minter_def intro!: logs_mn_exec mint)
qed

text \<open>So the wired ports, the command line over them and a whole run keep to the log.\<close>

lemma provides_program: "program_ports (untap ctx) (PodmanMachines (cpJson p) rn)
    (PodmanWorkloads (cpJson p) rn) (FloxEnvironment rn) (ScaffoldWriter (beside_files f))
    (ScaffoldOpener (beside_files f)) (Loader (cpToml p) (untap home)) (KeychainPort host rn)
    (PodmanSecrets (cpJson p) rn) (LiteLLM (beside_clock ck) (untap ctx) (wired_minter rn))
    (\<lambda>k. untap (rd k)) (Progress (\<lambda>s. untap (err s))) A"
  by unfold_locales
    (simp_all add: PodmanMachines_def PodmanWorkloads_def FloxEnvironment_def ScaffoldWriter_def ScaffoldOpener_def
      Loader_def KeychainPort_def PodmanSecrets_def Progress_def fprint_def podman_logs logs_files logs_Load logs_KcCreate
      logs_LiteLLM guarded_exists guarded_get guarded_describe guarded_put guarded_delete io_rules)

end

text \<open>The wired program is a model of the contract of the ports wherever its host and runner are known.\<close>

sublocale known_host \<subseteq> wired: program_ports "untap stop" "PodmanMachines (cpJson prog) rn"
  "PodmanWorkloads (cpJson prog) rn" "FloxEnvironment rn" "ScaffoldWriter (beside_files files)"
  "ScaffoldOpener (beside_files files)" "Loader (cpToml prog) (untap home)" "KeychainPort host rn"
  "PodmanSecrets (cpJson prog) rn" "LiteLLM (beside_clock clock) (untap stop) (wired_minter rn)"
  "\<lambda>k. untap (random_bytes k)" "Progress (\<lambda>s. untap (stderr s))" A
  for stop :: "'w ctx" and prog :: compiled and files :: "'w os_files" and home :: "('w, go_error + string) io"
    and clock :: "'w clock" and random_bytes :: "'w reader" and stderr :: "'w writer"
  by (rule provides_program)

context known_host
begin

lemmas wired_operations = wired.from_Up wired.from_Down wired.from_Status wired.from_RunDoctor wired.from_RunInit
  wired.secrets.all_operations

lemma provides_commands: "command_ports (wired_deps (untap ctx) rn p (outside_over host x) home) A (beside_ucli u)"
  by unfold_locales
    (auto simp: outside_over_def beside_ucli_def wired_deps_def run_lifecycle_def run_secrets_def wired_doctor_def
      wired_lifecycle_def wired_init_def wired_secrets_def ReadPassword_def fprint_def wired_operations
      split: if_splits intro!: io_rules)

lemma from_lclaw_run: "logs A (lclaw_run (beside_ucli u) (untap ctx) rn p (outside_over host x) args)"
  unfolding lclaw_run_def
  by (intro io_rules command_ports.from_run_main [OF provides_commands]) (simp add: outside_over_def io_rules)

end

section \<open>Every process\<close>

definition known_process :: "sys_event \<Rightarrow> bool" where
  "known_process e \<longleftrightarrow>
     (case e of
        SyRun c _ \<Rightarrow> known_command c \<and> well_behaved c
      | SyInteract c _ \<Rightarrow> (\<exists>path. c = unlock_command path \<or> c = kc_terminal [''create-keychain'', path])
      | _ \<Rightarrow> True)"

definition logged_outside :: "'w outside \<Rightarrow> ('w \<times> sys_event list) outside" where
  "logged_outside x = outside_over (log_host (owHost x)) x"

interpretation logged_tool: known_host "log_host h" "log_runner rn" known_process for h rn
  by unfold_locales
    (auto simp: known_process_def known_well_behaved intro!: io_rules dest!: known_command.keychain_item)

text \<open>
  C2: what \<open>lclaw\<close> starts. In a run of the wired program, whatever is on the command line,
  in the files and in the answers of the tools, every process is one of twenty-five known
  commands: \<open>podman\<close> on LocalClaw's own machine or about machines, \<open>flox\<close> for its version,
  or \<open>security\<close>; every one with standard input, and every \<open>security\<close> that does not own the
  terminal, is marked sensitive; the arguments beside a standard input are fixed words and
  at most a name; the only variable ever set is the machine provider; and the terminal is
  handed over only to unlock or create the keychain.
\<close>

theorem lclaw_processes:
  "logs known_process (lclaw_run (beside_ucli u) (untap ctx) (log_runner rn) p (logged_outside x) args)"
  unfolding logged_outside_def by (rule logged_tool.from_lclaw_run)

section \<open>Every process of the secrets commands\<close>










section \<open>Every entry of the debug log\<close>

text \<open>
  An entry of \<open>--verbose\<close>: the command, its status, and of its output at most the tail of
  its stderr, for a command that got no input.
\<close>

definition ran_entry :: "command \<Rightarrow> string \<times> log_attr list \<Rightarrow> bool" where
  "ran_entry c e \<longleftrightarrow>
     (\<exists>status. e = (''exec'', [LgName (cmName c), LgArgs (cmArgs c), LgErr status, LgSensitive]) \<and> cmSensitive c \<or>
       (\<exists>t. e = (''exec'', [LgName (cmName c), LgArgs (cmArgs c), LgErr status, LgStderr t]) \<and>
          \<not> cmSensitive c \<and> cmStdin c = None \<and> length t \<le> maxStderrTail))"

definition debug_entry :: "string \<times> log_attr list \<Rightarrow> bool" where
  "debug_entry e \<longleftrightarrow>
     (\<exists>c. known_command c \<and> well_behaved c \<and> ran_entry c e) \<or>
     (\<exists>path status. \<exists>op \<in> {''unlock-keychain'', ''create-keychain''}.
        e = (''exec interactive'', [LgName kc_tool, LgArgs [op, path], LgErr status]))"

lemma logs_known_run:
  assumes "known_command c" shows "logs debug_entry (SystemRun (log_os os) (untap ctx) c)"
proof -
  have "debug_entry (''exec'', log_attrs c res err)" for res err
    using assms known_well_behaved [OF assms]
    by (auto simp: debug_entry_def ran_entry_def log_attrs_def well_behaved_def tail_bounds intro!: exI [of _ c])
  then show ?thesis unfolding SystemRun_def log_os_sel by (intro io_rules) auto
qed

interpretation logged_debug: known_host "beside_host h" "System (log_os os) (untap cx)" debug_entry for h os cx
proof unfold_locales
  let ?rn = "System (log_os os) (untap cx)"
  show "logs debug_entry (hsStat (beside_host h) path)" "logs debug_entry (hsMkdirAll (beside_host h) path)" for path
    by (simp_all add: beside_host_def io_rules)
  show "logs debug_entry (rnRun ?rn c)" if "known_command c" for c
    using logs_known_run [OF that] by (simp add: System_def)
  then show "logs debug_entry (rnRun ?rn c)" if "item_command c" for c
    using that by (blast intro: known_command.keychain_item)
  show "logs debug_entry (rnInteractive ?rn (unlock_command path))"
    "logs debug_entry (rnInteractive ?rn (kc_terminal [''create-keychain'', path]))" for path
    unfolding System_def runner.select_convs SystemInteractive_def log_os_sel
    by (intro io_rules; auto simp: debug_entry_def unlock_command_def kc_terminal_def)+
qed

text \<open>
  C3: what \<open>--verbose\<close> tells. With the operating system's runner below the wired program,
  every entry of the debug log of every run is about one of the known commands or about
  unlocking or creating the keychain. It has the command's name and arguments and its
  status; output is in it only for commands that got no input, and then at most 1024 bytes
  of stderr. So neither a value given to a command nor anything a keychain or a key command
  printed is ever logged.
\<close>

theorem lclaw_debug_log:
  "logs debug_entry
     (lclaw_run (beside_ucli u) (untap ctx) (System (log_os os) (untap ctx)) p (outside_over (beside_host h) x) args)"
  by (rule logged_debug.from_lclaw_run)

end
