(* ===== verification/ProgramOutcome.thy ===== *)
theory ProgramOutcome
  imports CommandPorts UpProperties DownProperties
begin

text \<open>
  From the exit status to the machine: the commands \<open>up\<close> and \<open>down\<close> over the use cases they
  run, with the log of the use cases' ports.
\<close>

section \<open>The commands over the lifecycle\<close>







text \<open>The exit status of a command is zero only when \<open>done\<close> holds of what the ports were asked.\<close>

definition zero_means :: "(string \<Rightarrow> role list \<Rightarrow> event list \<Rightarrow> bool) \<Rightarrow> cli_cmd \<Rightarrow> go_error option \<Rightarrow> event list \<Rightarrow> bool" where
  "zero_means post c r es \<longleftrightarrow>
     (ExitCode r = 0 \<longrightarrow> (\<exists>roles. SelectRoles (cdArgs c) = Inr roles \<and> post (cdDir c) roles es))"

lemma zero_means_Some [simp]: "zero_means post c (Some e) es"
  by (simp add: zero_means_def ExitCode_def)













end
