(* ===== verification/Spec2Isabelle.thy ===== *)
theory Spec2Isabelle
  imports UpProperties DownProperties StatusReport DoctorApp InitApp SecretsOverKeychain
    PodmanProperties LiteLLMMinter TomlLoader ScaffoldFiles DefaultScaffold CliProperties CliTables
    CommandTree ProgramProcesses ProgramOutcome
begin

text \<open>
  A model of \<open>lclaw\<close>, the command line program that manages LocalClaw's Podman machine, its
  three zones and their secrets, with the theorems that make it correct. The sources are the
  Go files under \<open>src/cmd\<close> and \<open>src/internal\<close>.

  \<^bold>\<open>The program.\<close> \<open>internal/domain\<close> holds pure data and rules: zones, the topology of
  \<open>lclaw.toml\<close> and its validation, versions, checks, secrets and their catalogue.
  \<open>internal/app\<close> holds the use cases, which reach the outside only through the interfaces of
  \<open>ports.go\<close>: the lifecycle (\<open>up\<close>, \<open>down\<close>, \<open>status\<close>), the secrets, \<open>doctor\<close> and \<open>init\<close>.
  \<open>internal/adapters\<close> implements the ports over processes (\<open>security\<close>, \<open>podman\<close>, \<open>flox\<close>,
  scripts in the LiteLLM container), files and the terminal. \<open>internal/cli\<close> turns flags and
  arguments into one call of a use case, renders its answer and maps errors to exit statuses.
  \<open>cmd/lclaw/main.go\<close> wires all of it.

  \<^bold>\<open>Effects.\<close> An effectful function is a value of type \<open>('w, 'a) io\<close>, the state monad of the
  library over a world \<open>'w\<close> that is never inspected. A port is a record of such operations,
  so that every theorem about a use case holds for all answers of the outside. A context is
  the operation \<open>ctx.Err()\<close>; where a theorem needs that a cancelled context stays cancelled,
  it assumes \<open>sticky ctx\<close>. Errors are values of \<open>go_error\<close> (GoErrors): sentinels, the typed
  errors that the code looks for, and wrapping; \<open>errors_is\<close> and the \<open>as_\<close> functions are
  \<open>errors.Is\<close> and \<open>errors.As\<close>. A function that returns a value or an error returns a sum; one
  that returns both returns a pair. Loops over slices are structural recursions named after
  their function. Strings and byte slices are lists of bytes.

  \<^bold>\<open>Logs.\<close> What an operation does is stated on logged ports (\<open>log_lifecycle\<close>, \<open>log_runner\<close>
  and the like), which append each call with its answer to a list beside the world.
  \<open>emits P m\<close> says that every run of \<open>m\<close> appends events that satisfy \<open>P\<close> together with the
  answer; \<open>logs A m\<close> that each of them satisfies \<open>A\<close> (Prelude); \<open>traces\<close> relates them to
  what was in the log before (TraceLogic). Observers proves that logging changes nothing.

  \<^bold>\<open>Theories\<close>, by what they model.
  \<^item> Shared: Prelude (effects, logs, early return), GoStrings (\<open>strings\<close>, \<open>strconv\<close>,
    \<open>bytes\<close>), Paths (\<open>path/filepath\<close>), Encodings (\<open>hex\<close>, \<open>base64\<close>, one locale for both
    directions), GoTime (\<open>time.Parse\<close> with the one layout used), GoJson (\<open>encoding/json\<close>),
    GoErrors, TraceLogic.
  \<^item> \<open>internal/domain\<close>: Roles and ZoneSelection (\<open>role.go\<close>), Versions (\<open>version.go\<close>,
    \<open>requirement.go\<close>), Reports (\<open>report.go\<close>), SecretSpecs (\<open>secret.go\<close>,
    \<open>secret_check.go\<close>), Catalogues (\<open>catalogue.go\<close>), Topologies (\<open>topology.go\<close>),
    MachineStatus (\<open>status.go\<close>).
  \<^item> \<open>internal/app\<close>: Ports (\<open>ports.go\<close>), SecretsApp (\<open>secrets.go\<close>), LifecycleSecrets
    (\<open>lifecycle_secrets.go\<close>), Lifecycle (\<open>lifecycle.go\<close>), DoctorApp (\<open>doctor.go\<close>), InitApp
    (\<open>init.go\<close>). TestWorld is the in-memory world of the code's own tests, on which
    witnesses run.
  \<^item> \<open>internal/adapters\<close>: ExecAdapter (\<open>exec\<close>), Processes (what the adapters below share),
    KeychainParse and KeychainClient (\<open>keychain\<close>), PodmanClient (\<open>podman\<close>, \<open>flox\<close>),
    LiteLLMMinter (\<open>litellm\<close>), TomlLoader (\<open>toml\<close>), ScaffoldFiles (\<open>osfs\<close>); \<open>ReadPassword\<close>
    of \<open>tty\<close> is in Wiring.
  \<^item> \<open>internal/cli\<close>: CliRender (what is printed), CommandLine (every command's action, the
    usage mistakes, the exit status), CommandTree (the declared commands and flags).
  \<^item> \<open>cmd/lclaw\<close>: Wiring (\<open>wired_deps\<close>, \<open>lclaw_run\<close>), DefaultScaffold (the compiled-in scaffold,
    \<open>scaffold.go\<close> and the tree under \<open>scaffold\<close>).

  \<^bold>\<open>What is proved.\<close>
  \<^item> Pure rules: validation decides a declarative well-formedness, the catalogue holds what it
    should, networks isolate the zones, generated values are legal, versions and zones parse
    and print, redaction leaves no fragment of a secret that is on one line.
  \<^item> Runs of \<open>up\<close> (UpTraces, UpSafety, UpProperties), \<open>down\<close> (DownTraces, DownProperties) and
    \<open>status\<close> (StatusReport): the abstract phases that a run refines, what must have happened
    before each writing call, and what a report without a failed check means.
  \<^item> Secrets (SecretsApp, LifecycleSecrets, SecretsOverKeychain): the contract of each
    operation, the guard by the keychain file, which operations read or write values, and
    that over the keychain adapter no argument list and no log entry carries a value.
  \<^item> Adapters (KeychainProperties, PodmanProperties, LiteLLMMinter, TomlLoader,
    ScaffoldFiles): the commands each operation runs in order, the errors its answers
    become, round trips of what \<open>security\<close> prints, the termination of the poll for LiteLLM,
    atomic writing of files, the shape of a loaded topology.
  \<^item> The command line (CliProperties, CliTables, CommandTree, CommandPorts): each run is one of
    the courses of its command, which refuses exactly the mistakes listed for it and otherwise
    makes its call, the exit status tells the truth, a printed table can be read
    back, the declared tree leads to every action with the flags it reads.
  \<^item> The whole (ProgramPorts, ProgramProcesses, ProgramOutcome): every process of a run of the
    wired program is one of the known commands, marked sensitive where it must be, of the
    secrets commands one of those on secrets, and every
    entry of its debug log is about one of them and holds no output of a command that got
    input; exit status 0 of \<open>up\<close> and \<open>down\<close> means that the work was done; what \<open>init\<close> writes,
    every other command can load (DefaultScaffold).

  Interfaces are locales: \<open>byte_codec\<close> and \<open>name_codec\<close>, \<open>guarded_runner\<close>,
  \<open>secrets_ports\<close> and \<open>program_ports\<close>, \<open>known_host\<close>, \<open>command_streams\<close> and \<open>command_ports\<close>, each interpreted on the model's own definitions.

  \<^bold>\<open>Bounds and fuel.\<close> Only the poll for LiteLLM may not end. \<open>ready_loop\<close> takes the number of
  polls as fuel and answers \<open>None\<close> when it is spent; \<open>ready_fuel\<close> is the timeout divided by
  the interval plus two, and \<open>Ready_ends\<close> proves it enough for a clock that is never turned
  back and sleeps that last. The port \<open>LiteLLM\<close> turns a spent fuel into an error of its own.
  Go's \<open>int\<close> values (versions, counts, sizes in the topology) are integers; parsing rejects
  what does not fit 64 bits, and nothing the code adds to them can overflow.

  \<^bold>\<open>Parameters.\<close> The TOML library gives the decoded file or an error (\<open>toml_lib\<close>), the JSON
  library a value or an error (\<open>json_lib\<close>), \<open>urfave/cli\<close> what it makes of an argument list
  and the help it shows (\<open>ucli\<close>). The operating system's processes, files, clock, timer,
  random bytes, streams, home directory and terminal are operations of the world. An opened
  scaffold directory is a snapshot that answers the same question the same way for one run.

  \<^bold>\<open>Not modelled.\<close> The set-up of the logger and of signal handling in \<open>run\<close> (a run is given
  its context and its runner; the debug log itself is in ExecAdapter), the duration in a log
  entry, \<open>os.Exit\<close>, the texts of the embedded default files (their tree and the decoded
  \<open>lclaw.toml\<close> are modelled) and what Python does with the scripts; the terminal's control
  calls; how the library parses arguments and lays out help; vendored packages. White space and quoting are those of
  ASCII and of valid UTF-8. A nil minter, which would panic, is an error value of its own; \<open>Outcome\<close>
  values that accompany an error are dropped, since no caller reads them.
\<close>

end
